(* ===== verification/Prelude.thy ===== *)
theory Prelude
  imports Complex_Main "HOL-Library.AList" "HOL-Library.Multiset"
begin

text \<open>
  What the component theories share: Go maps, the tail of a list, and the collections of facts
  the component proofs pass to the simplifier.

  A Go map is an association list whose keys are distinct. The order of the list is the order in
  which one \<open>range\<close> over the map visits it. Go leaves that order open, so a statement about an
  operation is made for every list that represents the map.
\<close>

named_theorems go_map \<open>reading and writing Go maps\<close>
named_theorems store_inv \<open>preservation of a component's invariant\<close>

section \<open>Go maps\<close>

type_synonym ('k, 'v) gomap = "('k \<times> 'v) list"

abbreviation gm_wf :: "('k, 'v) gomap \<Rightarrow> bool" where
  "gm_wf m \<equiv> distinct (map fst m)"

definition gm_load :: "('k, 'v) gomap \<Rightarrow> 'k \<Rightarrow> 'v option" where
  "gm_load m k = map_of m k"

definition gm_store :: "'k \<Rightarrow> 'v \<Rightarrow> ('k, 'v) gomap \<Rightarrow> ('k, 'v) gomap" where
  "gm_store k v m = AList.update k v m"

definition gm_delete :: "'k \<Rightarrow> ('k, 'v) gomap \<Rightarrow> ('k, 'v) gomap" where
  "gm_delete k m = filter (\<lambda>p. fst p \<noteq> k) m"

lemma gm_load_Nil [simp, go_map]: "gm_load [] k = None"
  by (simp add: gm_load_def)

lemma gm_load_Cons [simp]: "gm_load ((a, v) # m) k = (if k = a then Some v else gm_load m k)"
  by (simp add: gm_load_def)

lemma gm_store_Nil [simp]: "gm_store k v [] = [(k, v)]"
  by (simp add: gm_store_def)

lemma gm_store_Cons [simp]:
  "gm_store k v ((a, w) # m) = (if a = k then (k, v) # m else (a, w) # gm_store k v m)"
  by (simp add: gm_store_def)

lemma gm_load_store [simp, go_map]:
  "gm_load (gm_store k v m) k' = (if k' = k then Some v else gm_load m k')"
  by (simp add: gm_load_def gm_store_def update_conv')

lemma gm_load_delete [simp, go_map]:
  "gm_load (gm_delete k m) k' = (if k' = k then None else gm_load m k')"
  by (induction m) (auto simp: gm_delete_def)

lemma gm_wf_store [simp, intro]: "gm_wf m \<Longrightarrow> gm_wf (gm_store k v m)"
  by (simp add: gm_store_def distinct_update)

lemma gm_wf_filter [simp, intro]: "gm_wf m \<Longrightarrow> gm_wf (filter P m)"
  by (simp add: distinct_map_filter)

lemma gm_wf_delete [simp, intro]: "gm_wf m \<Longrightarrow> gm_wf (gm_delete k m)"
  by (simp add: gm_delete_def)

lemma gm_wf_map_of: "gm_wf m \<Longrightarrow> (k, v) \<in> set m \<longleftrightarrow> gm_load m k = Some v"
  by (simp add: gm_load_def)

lemma gm_load_in_set: "gm_load m k = Some v \<Longrightarrow> (k, v) \<in> set m"
  by (simp add: gm_load_def map_of_SomeD)

lemma gm_load_None_iff: "gm_load m k = None \<longleftrightarrow> k \<notin> fst ` set m"
  by (simp add: gm_load_def map_of_eq_None_iff)

lemma gm_keys_store: "fst ` set (gm_store k v m) = insert k (fst ` set m)"
  by (simp add: gm_store_def dom_update)

lemma gm_set_store:
  fixes m :: "('a, 'b) gomap"
  assumes "gm_wf m"
  shows "set (gm_store k v m) = insert (k, v) {p \<in> set m. fst p \<noteq> k}"
proof (rule set_eqI)
  fix p :: "'a \<times> 'b"
  obtain a w where p: "p = (a, w)" by force
  from assms have "gm_wf (gm_store k v m)" by simp
  then show "p \<in> set (gm_store k v m) \<longleftrightarrow> p \<in> insert (k, v) {p \<in> set m. fst p \<noteq> k}"
    using assms by (auto simp: p gm_wf_map_of)
qed

lemma gm_set_delete: "set (gm_delete k m) = {p \<in> set m. fst p \<noteq> k}"
  by (simp add: gm_delete_def)

lemma gm_store_fresh: "gm_load m k = None \<Longrightarrow> gm_store k v m = m @ [(k, v)]"
proof (induction m)
  case (Cons p m)
  then show ?case by (cases p) (auto split: if_splits)
qed simp

lemma length_gm_store:
  "length (gm_store k v m) = (if gm_load m k = None then Suc (length m) else length m)"
proof (induction m)
  case (Cons p m)
  then show ?case by (cases p) auto
qed simp

lemma length_gm_delete: "length (gm_delete k m) \<le> length m"
  by (simp add: gm_delete_def)

lemma gm_delete_less:
  assumes "gm_load m k = Some v"
  shows "length (gm_delete k m) < length m"
proof -
  have "(k, v) \<in> set m" using assms by (rule gm_load_in_set)
  then show ?thesis unfolding gm_delete_def by (rule length_filter_less) simp
qed

text \<open>A key of a well-formed map splits it in two: what a removal takes away is one entry.\<close>

lemma gm_split:
  assumes "gm_wf m" and "gm_load m k = Some v"
  obtains xs ys where "m = xs @ (k, v) # ys" and "gm_delete k m = xs @ ys"
proof -
  have "(k, v) \<in> set m" using assms(2) by (rule gm_load_in_set)
  then obtain xs ys where m: "m = xs @ (k, v) # ys" by (auto dest: split_list)
  with assms(1) have "\<forall>p \<in> set (xs @ ys). fst p \<noteq> k" by (auto simp: image_iff)
  then have "gm_delete k m = xs @ ys" by (auto simp: m gm_delete_def filter_id_conv)
  with m that show ?thesis by blast
qed

lemma gm_load_filter:
  "gm_wf m \<Longrightarrow> gm_load (filter (\<lambda>p. P (snd p)) m) k =
     (case gm_load m k of None \<Rightarrow> None | Some v \<Rightarrow> if P v then Some v else None)"
proof (induction m)
  case (Cons p m)
  obtain a v where p: "p = (a, v)" by force
  then have "gm_load m a = None" using Cons.prems by (auto simp: gm_load_None_iff)
  then show ?case using Cons by (auto simp: p split: option.splits)
qed simp

section \<open>The last elements of a list\<close>

definition lastn :: "nat \<Rightarrow> 'a list \<Rightarrow> 'a list" where
  "lastn n xs = drop (length xs - n) xs"

lemma length_lastn [simp]: "length (lastn n xs) = min n (length xs)"
  by (simp add: lastn_def)

lemma lastn_all [simp]: "length xs \<le> n \<Longrightarrow> lastn n xs = xs"
  by (simp add: lastn_def)

lemma lastn_lastn_append [simp]: "lastn n (lastn n xs @ ys) = lastn n (xs @ ys)"
proof (cases "length xs \<le> n")
  case False
  then have "length xs - n + (length ys) = length xs + length ys - n" by simp
  with False show ?thesis by (simp add: lastn_def min_def ac_simps)
qed simp

lemma lastn_append_lastn [simp]: "lastn n (xs @ lastn n ys) = lastn n (xs @ ys)"
proof (cases "length ys \<le> n")
  case False
  then show ?thesis by (simp add: lastn_def)
qed simp

lemma lastn_drop: "drop (length xs - n) xs @ lastn 0 xs = lastn n xs"
  by (simp add: lastn_def)

lemma take_lastn: "take (length xs - n) xs @ lastn n xs = xs"
  by (simp add: lastn_def)

section \<open>Errors\<close>

text \<open>
  An \<open>error\<close> of the source: the format of \<open>fmt.Errorf\<close> (or the text of \<open>errors.New\<close>) and its
  arguments, which may wrap another error. The text itself is never formatted here.
\<close>

datatype goerror = Errorf string "errarg list"
  and errarg = ArgS string | ArgN int | ArgE goerror

abbreviation Errnew :: "string \<Rightarrow> goerror" where
  "Errnew t \<equiv> Errorf t []"

type_synonym 'a res = "goerror + 'a"

end
