(* ===== verification/GoText.thy ===== *)
theory GoText
  imports Prelude
begin

text \<open>
  Go strings and the functions of \<open>strings\<close>, \<open>unicode/utf8\<close>, \<open>encoding/hex\<close> and \<open>strconv\<close> the
  program uses. A Go string is a sequence of bytes, here a list of \<open>char\<close> (which is one byte);
  \<open>len\<close> counts bytes. A rune is a natural number. Decoding follows \<open>utf8.DecodeRune\<close>: an invalid
  sequence is the rune 65533 (U+FFFD) of width one.
\<close>

section \<open>Bytes and substrings\<close>

abbreviation byte :: "char \<Rightarrow> nat" where
  "byte c \<equiv> of_char c"

definition HasPrefix :: "string \<Rightarrow> string \<Rightarrow> bool" where
  "HasPrefix s p \<longleftrightarrow> take (length p) s = p"

definition HasSuffix :: "string \<Rightarrow> string \<Rightarrow> bool" where
  "HasSuffix s p \<longleftrightarrow> length p \<le> length s \<and> drop (length s - length p) s = p"

definition TrimPrefix :: "string \<Rightarrow> string \<Rightarrow> string" where
  "TrimPrefix s p = (if HasPrefix s p then drop (length p) s else s)"

fun Contains :: "string \<Rightarrow> string \<Rightarrow> bool" where
  "Contains [] sub = (sub = [])"
| "Contains (c # s) sub = (HasPrefix (c # s) sub \<or> Contains s sub)"

fun IndexByte :: "string \<Rightarrow> char \<Rightarrow> nat option" where
  "IndexByte [] c = None"
| "IndexByte (x # xs) c = (if x = c then Some 0 else map_option Suc (IndexByte xs c))"

fun Split :: "char \<Rightarrow> string \<Rightarrow> string list" where
  "Split c [] = [[]]"
| "Split c (x # xs) =
     (if x = c then [] # Split c xs
      else (case Split c xs of [] \<Rightarrow> [[x]] | p # ps \<Rightarrow> (x # p) # ps))"

fun Join :: "string \<Rightarrow> string list \<Rightarrow> string" where
  "Join sep [] = []"
| "Join sep [p] = p"
| "Join sep (p # q # ps) = p @ sep @ Join sep (q # ps)"

definition TrimRightByte :: "char \<Rightarrow> string \<Rightarrow> string" where
  "TrimRightByte c s = rev (dropWhile (\<lambda>x. x = c) (rev s))"

definition TrimByte :: "char \<Rightarrow> string \<Rightarrow> string" where
  "TrimByte c s = TrimRightByte c (dropWhile (\<lambda>x. x = c) s)"

lemma HasPrefix_self [simp]: "HasPrefix s s"
  by (simp add: HasPrefix_def)

lemma HasPrefix_append [simp]: "HasPrefix (p @ s) p"
  by (simp add: HasPrefix_def)

lemma HasPrefixE: "HasPrefix s p \<Longrightarrow> \<exists>t. s = p @ t"
  by (metis HasPrefix_def append_take_drop_id)

lemma TrimPrefix_append [simp]: "TrimPrefix (p @ s) p = s"
  by (simp add: TrimPrefix_def)

lemma Contains_refl [simp]: "Contains s s"
  by (cases s) auto

lemma Contains_Nil [simp]: "Contains s []"
  by (induction s) (auto simp: HasPrefix_def)

lemma IndexByte_Some:
  "IndexByte s c = Some i \<Longrightarrow> i < length s \<and> s ! i = c \<and> c \<notin> set (take i s)"
  by (induction s arbitrary: i) (auto split: if_splits)

lemma IndexByte_append:
  "c \<notin> set s \<Longrightarrow> IndexByte (s @ c # t) c = Some (length s)"
  by (induction s) auto

lemma Split_nonempty [simp]: "Split c s \<noteq> []"
  by (induction s) (auto split: list.splits)

lemma Join_Cons: "ps \<noteq> [] \<Longrightarrow> Join sep (p # ps) = p @ sep @ Join sep ps"
  by (cases ps) auto

lemma Join_Split: "Join [c] (Split c s) = s"
proof (induction s)
  case (Cons x xs)
  then show ?case
    by (cases "Split c xs"; cases "tl (Split c xs)") (auto simp: Join_Cons split: list.splits)
qed simp

lemma Split_no_sep: "p \<in> set (Split c s) \<Longrightarrow> c \<notin> set p"
  by (induction s arbitrary: p) (auto split: if_splits list.splits)

lemma Split_last_append: "c \<notin> set t \<Longrightarrow> Split c (s @ c # t) = Split c s @ [t]"
proof (induction s)
  case Nil
  have "Split c t = [t]" if "c \<notin> set t" for t using that by (induction t) auto
  then show ?case using Nil by simp
next
  case (Cons x xs)
  then show ?case by (auto split: list.splits)
qed

section \<open>ASCII case\<close>

definition upper_byte :: "char \<Rightarrow> char" where
  "upper_byte c = (if 97 \<le> byte c \<and> byte c \<le> 122 then char_of (byte c - 32) else c)"

definition lower_byte :: "char \<Rightarrow> char" where
  "lower_byte c = (if 65 \<le> byte c \<and> byte c \<le> 90 then char_of (byte c + 32) else c)"

text \<open>
  How \<open>encoding/json\<close> compares the name of a member with that of a field: without case, where the
  long s (U+017F) and the Kelvin sign (U+212A) count as \<open>s\<close> and \<open>k\<close>. No other rune folds to ASCII.
\<close>

fun fold_key :: "string \<Rightarrow> string" where
  "fold_key [] = []"
| "fold_key [a] = [lower_byte a]"
| "fold_key [a, b] = (if a = CHR 0xC5 \<and> b = CHR 0xBF then ''s'' else [lower_byte a, lower_byte b])"
| "fold_key (a # b # c # s) =
     (if a = CHR 0xC5 \<and> b = CHR 0xBF then CHR ''s'' # fold_key (c # s)
      else if a = CHR 0xE2 \<and> b = CHR 0x84 \<and> c = CHR 0xAA then CHR ''k'' # fold_key s
      else lower_byte a # fold_key (b # c # s))"

definition is_ascii :: "string \<Rightarrow> bool" where
  "is_ascii s \<longleftrightarrow> list_all (\<lambda>c. byte c < 128) s"

text \<open>
  \<open>strings.ToLower\<close> and \<open>strings.EqualFold\<close> consult the Unicode case tables outside ASCII. The
  tables are data of the Go release, so the two functions are an argument of what uses them.
  \<open>ascii_casing\<close> is their restriction to ASCII text, on which every release agrees.
\<close>

record casing =
  to_lower :: "string \<Rightarrow> string"
  equal_fold :: "string \<Rightarrow> string \<Rightarrow> bool"

definition ascii_casing :: casing where
  "ascii_casing = \<lparr>to_lower = map lower_byte,
     equal_fold = (\<lambda>s t. map lower_byte s = map lower_byte t)\<rparr>"

section \<open>Decimal numbers\<close>

definition is_digit :: "char \<Rightarrow> bool" where
  "is_digit c \<longleftrightarrow> 48 \<le> byte c \<and> byte c \<le> 57"

fun nat_digits :: "nat \<Rightarrow> string" where
  "nat_digits n = (if n < 10 then [char_of (48 + n)]
     else nat_digits (n div 10) @ [char_of (48 + n mod 10)])"

declare nat_digits.simps [simp del]

definition Itoa :: "int \<Rightarrow> string" where
  "Itoa i = (if i < 0 then CHR ''-'' # nat_digits (nat (- i)) else nat_digits (nat i))"

definition digits_value :: "string \<Rightarrow> nat" where
  "digits_value s = foldl (\<lambda>v c. 10 * v + (byte c - 48)) 0 s"

text \<open>\<open>strconv.ParseUint(s, 10, bits)\<close>: non-empty, digits only, below \<open>2 ^ bits\<close>.\<close>

definition ParseUint :: "nat \<Rightarrow> string \<Rightarrow> nat option" where
  "ParseUint bits s =
     (if s \<noteq> [] \<and> list_all is_digit s \<and> digits_value s < 2 ^ bits then Some (digits_value s)
      else None)"

text \<open>\<open>strconv.Atoi\<close> on a 64-bit platform: an optional sign, digits, in the range of \<open>int\<close>.\<close>

definition Atoi :: "string \<Rightarrow> int option" where
  "Atoi s =
     (let (neg, ds) = (case s of [] \<Rightarrow> (False, [])
         | c # t \<Rightarrow> if c = CHR ''-'' then (True, t) else if c = CHR ''+'' then (False, t)
           else (False, s));
          v = (if neg then - int (digits_value ds) else int (digits_value ds))
      in if ds \<noteq> [] \<and> list_all is_digit ds \<and> - (2 ^ 63) \<le> v \<and> v < 2 ^ 63 then Some v else None)"

lemma byte_char_of [simp]: "n < 256 \<Longrightarrow> byte (char_of (n :: nat)) = n"
  by simp

lemma digits_value_snoc: "digits_value (s @ [c]) = 10 * digits_value s + (byte c - 48)"
  by (simp add: digits_value_def)

lemma nat_digits_value [simp]: "digits_value (nat_digits n) = n"
proof (induction n rule: nat_digits.induct)
  case (1 n)
  show ?case
  proof (cases "n < 10")
    case True
    then show ?thesis by (subst nat_digits.simps) (simp add: digits_value_def)
  next
    case False
    then have "digits_value (nat_digits n) = 10 * (n div 10) + n mod 10"
      using 1 by (subst nat_digits.simps) (simp add: digits_value_snoc)
    then show ?thesis by simp
  qed
qed

lemma is_digit_char_of: "n < 10 \<Longrightarrow> is_digit (char_of (48 + n :: nat))"
  by (simp add: is_digit_def)

lemma nat_digits_digits [simp]: "list_all is_digit (nat_digits n)"
proof (induction n rule: nat_digits.induct)
  case (1 n)
  then show ?case
    by (subst nat_digits.simps) (auto simp: is_digit_char_of)
qed

lemma nat_digits_nonempty [simp]: "nat_digits n \<noteq> []"
  by (subst nat_digits.simps) simp

lemma ParseUint_nat_digits: "n < 2 ^ bits \<Longrightarrow> ParseUint bits (nat_digits n) = Some n"
  by (simp add: ParseUint_def)

lemma nat_digits_inj: "nat_digits m = nat_digits n \<Longrightarrow> m = n"
  by (metis nat_digits_value)

lemma nat_digits_hd: "\<exists>c ds. nat_digits n = c # ds \<and> is_digit c"
  using nat_digits_digits [of n] nat_digits_nonempty [of n] by (cases "nat_digits n") auto

lemma Atoi_Itoa:
  assumes "- (2 ^ 63) \<le> i" and "i < 2 ^ 63"
  shows "Atoi (Itoa i) = Some i"
proof (cases "i < 0")
  case True
  then show ?thesis using assms by (simp add: Atoi_def Itoa_def Let_def)
next
  case False
  obtain c ds where d: "nat_digits (nat i) = c # ds" and "is_digit c" using nat_digits_hd by blast
  then have "c \<noteq> CHR ''-''" "c \<noteq> CHR ''+''" by (auto simp: is_digit_def)
  moreover have "digits_value (c # ds) = nat i" "list_all is_digit (c # ds)"
    using nat_digits_value [of "nat i"] nat_digits_digits [of "nat i"] by (simp_all add: d)
  ultimately show ?thesis using False assms by (simp add: Atoi_def Itoa_def d Let_def)
qed

lemma Itoa_no_space: "CHR '' '' \<notin> set (Itoa i)"
proof -
  have "CHR '' '' \<notin> set (nat_digits n)" for n
    using nat_digits_digits [of n] by (auto simp: list_all_iff is_digit_def)
  then show ?thesis by (simp add: Itoa_def)
qed

end
