(* ===== verification/Utf8.thy ===== *)
theory Utf8
  imports GoText
begin

text \<open>
  UTF-8 as \<open>unicode/utf8\<close> and the conversions \<open>[]rune(s)\<close> and \<open>string(runes)\<close> treat it, the trimming
  and splitting functions of \<open>strings\<close> that work on runes, and \<open>encoding/hex\<close>.
\<close>

section \<open>Decoding\<close>

definition RuneError :: nat where
  "RuneError = 65533"

definition is_cont :: "nat \<Rightarrow> bool" where
  "is_cont b \<longleftrightarrow> 128 \<le> b \<and> b < 192"

text \<open>The first rune of a non-empty byte sequence and its width.\<close>

fun decode_rune :: "nat list \<Rightarrow> nat \<times> nat" where
  "decode_rune (b0 # b1 # b2 # b3 # bs) =
     (if b0 < 128 then (b0, 1)
      else if 194 \<le> b0 \<and> b0 < 224 \<and> is_cont b1 then ((b0 - 192) * 64 + (b1 - 128), 2)
      else if 224 \<le> b0 \<and> b0 < 240 \<and> is_cont b1 \<and> is_cont b2
          \<and> (b0 = 224 \<longrightarrow> 160 \<le> b1) \<and> (b0 = 237 \<longrightarrow> b1 < 160)
        then ((b0 - 224) * 4096 + (b1 - 128) * 64 + (b2 - 128), 3)
      else if 240 \<le> b0 \<and> b0 < 245 \<and> is_cont b1 \<and> is_cont b2 \<and> is_cont b3
          \<and> (b0 = 240 \<longrightarrow> 144 \<le> b1) \<and> (b0 = 244 \<longrightarrow> b1 < 144)
        then ((b0 - 240) * 262144 + (b1 - 128) * 4096 + (b2 - 128) * 64 + (b3 - 128), 4)
      else (RuneError, 1))"
| "decode_rune (b0 # b1 # b2 # []) =
     (if b0 < 128 then (b0, 1)
      else if 194 \<le> b0 \<and> b0 < 224 \<and> is_cont b1 then ((b0 - 192) * 64 + (b1 - 128), 2)
      else if 224 \<le> b0 \<and> b0 < 240 \<and> is_cont b1 \<and> is_cont b2
          \<and> (b0 = 224 \<longrightarrow> 160 \<le> b1) \<and> (b0 = 237 \<longrightarrow> b1 < 160)
        then ((b0 - 224) * 4096 + (b1 - 128) * 64 + (b2 - 128), 3)
      else (RuneError, 1))"
| "decode_rune (b0 # b1 # []) =
     (if b0 < 128 then (b0, 1)
      else if 194 \<le> b0 \<and> b0 < 224 \<and> is_cont b1 then ((b0 - 192) * 64 + (b1 - 128), 2)
      else (RuneError, 1))"
| "decode_rune (b0 # []) = (if b0 < 128 then (b0, 1) else (RuneError, 1))"
| "decode_rune [] = (RuneError, 0)"

definition next_rune :: "string \<Rightarrow> nat \<times> nat" where
  "next_rune s = decode_rune (map byte (take 4 s))"

lemma decode_rune_width:
  "bs \<noteq> [] \<Longrightarrow> 1 \<le> snd (decode_rune bs) \<and> snd (decode_rune bs) \<le> length bs"
  by (cases bs rule: decode_rune.cases) auto

lemma next_rune_width: "s \<noteq> [] \<Longrightarrow> 1 \<le> snd (next_rune s) \<and> snd (next_rune s) \<le> length s"
  using decode_rune_width [of "map byte (take 4 s)"] by (auto simp: next_rune_def)

text \<open>The runes of a string, each with the bytes it was read from.\<close>

function chunks :: "string \<Rightarrow> (nat \<times> string) list" where
  "chunks s = (if s = [] then []
     else (fst (next_rune s), take (snd (next_rune s)) s) # chunks (drop (snd (next_rune s)) s))"
  by pat_completeness auto
termination
proof (relation "measure length")
  fix s :: string
  assume "s \<noteq> []"
  with next_rune_width [of s] show "(drop (snd (next_rune s)) s, s) \<in> measure length" by auto
qed simp

declare chunks.simps [simp del]

lemma chunks_Nil [simp]: "chunks [] = []"
  by (simp add: chunks.simps)

definition runes :: "string \<Rightarrow> nat list" where
  "runes s = map fst (chunks s)"

definition RuneCount :: "string \<Rightarrow> nat" where
  "RuneCount s = length (runes s)"

definition ValidString :: "string \<Rightarrow> bool" where
  "ValidString s \<longleftrightarrow> list_all (\<lambda>(r, bs). r = RuneError \<longrightarrow> length bs \<noteq> 1) (chunks s)"

section \<open>Encoding\<close>

definition scalar :: "nat \<Rightarrow> bool" where
  "scalar r \<longleftrightarrow> r < 55296 \<or> (57344 \<le> r \<and> r < 1114112)"

definition rune_bytes :: "nat \<Rightarrow> nat list" where
  "rune_bytes r =
     (if r < 128 then [r]
      else if r < 2048 then [192 + r div 64, 128 + r mod 64]
      else if \<not> scalar r then [239, 191, 189]
      else if r < 65536 then [224 + r div 4096, 128 + r div 64 mod 64, 128 + r mod 64]
      else [240 + r div 262144, 128 + r div 4096 mod 64, 128 + r div 64 mod 64, 128 + r mod 64])"

definition encode_rune :: "nat \<Rightarrow> string" where
  "encode_rune r = map char_of (rune_bytes r)"

definition string_of :: "nat list \<Rightarrow> string" where
  "string_of rs = concat (map encode_rune rs)"

section \<open>Round trips\<close>

lemma chunks_concat: "concat (map snd (chunks s)) = s"
proof (induction s rule: chunks.induct)
  case (1 s)
  then show ?case by (cases "s = []") (auto simp: chunks.simps [of s])
qed

lemma mod_64: "c < 64 \<Longrightarrow> (k * 64 + c) mod 64 = (c :: nat)"
  by simp

lemma recombine_3: "(r :: nat) div 4096 * 4096 + r div 64 mod 64 * 64 + r mod 64 = r"
proof -
  have "r div 4096 = r div 64 div 64" by (simp add: div_mult2_eq [symmetric])
  moreover have "r div 64 div 64 * 64 + r div 64 mod 64 = r div 64" by simp
  moreover have "r div 64 * 64 + r mod 64 = r" by simp
  ultimately show ?thesis by linarith
qed

lemma recombine_4:
  "(r :: nat) div 262144 * 262144 + r div 4096 mod 64 * 4096 + r div 64 mod 64 * 64 + r mod 64 = r"
proof -
  have "r div 262144 = r div 4096 div 64" by (simp add: div_mult2_eq [symmetric])
  moreover have "r div 4096 div 64 * 64 + r div 4096 mod 64 = r div 4096" by simp
  ultimately show ?thesis using recombine_3 [of r] by linarith
qed

text \<open>Decoding what was encoded, whatever follows.\<close>

lemma decode_rune_bytes:
  assumes "scalar r"
  shows "decode_rune (rune_bytes r @ bs) = (r, length (rune_bytes r))"
proof -
  consider "r < 128" | "128 \<le> r" "r < 2048" | "2048 \<le> r" "r < 65536" | "65536 \<le> r"
    by linarith
  then show ?thesis
  proof cases
    case 1
    then have "decode_rune (r # bs) = (r, 1)" by (cases "r # bs" rule: decode_rune.cases) auto
    with 1 show ?thesis by (simp add: rune_bytes_def)
  next
    case 2
    let ?b0 = "192 + r div 64" and ?b1 = "128 + r mod 64"
    have "194 \<le> ?b0 \<and> ?b0 < 224" using 2 by auto
    moreover have "is_cont ?b1" by (simp add: is_cont_def)
    moreover have "(?b0 - 192) * 64 + (?b1 - 128) = r" by simp
    ultimately have "decode_rune (?b0 # ?b1 # bs) = (r, 2)"
      by (cases "?b0 # ?b1 # bs" rule: decode_rune.cases) auto
    with 2 show ?thesis by (simp add: rune_bytes_def)
  next
    case 3
    let ?b0 = "224 + r div 4096" and ?b1 = "128 + r div 64 mod 64" and ?b2 = "128 + r mod 64"
    have b0: "\<not> ?b0 < 128" "\<not> ?b0 < 224" "224 \<le> ?b0 \<and> ?b0 < 240" using 3 by auto
    have c: "is_cont ?b1" "is_cont ?b2" by (simp_all add: is_cont_def)
    have "?b0 = 224 \<longrightarrow> 160 \<le> ?b1" using 3 by auto
    moreover have "?b0 = 237 \<longrightarrow> ?b1 < 160"
    proof
      assume "?b0 = 237"
      then have "r < 55296" using assms 3 by (auto simp: scalar_def)
      with \<open>?b0 = 237\<close> obtain k where "r div 64 = 832 + k" and "k < 32"
        by (intro that [of "r div 64 - 832"]) auto
      then show "?b1 < 160" using mod_64 [of k 13] by simp
    qed
    moreover have "(?b0 - 224) * 4096 + (?b1 - 128) * 64 + (?b2 - 128) = r"
      by (simp add: recombine_3)
    ultimately have "decode_rune (?b0 # ?b1 # ?b2 # bs) = (r, 3)"
      using b0 c by (cases "?b0 # ?b1 # ?b2 # bs" rule: decode_rune.cases) auto
    with 3 assms show ?thesis by (simp add: rune_bytes_def)
  next
    case 4
    let ?b0 = "240 + r div 262144" and ?b1 = "128 + r div 4096 mod 64"
      and ?b2 = "128 + r div 64 mod 64" and ?b3 = "128 + r mod 64"
    have r: "r < 1114112" using assms 4 by (auto simp: scalar_def)
    have b0: "240 \<le> ?b0 \<and> ?b0 < 245" using r by auto
    have c: "is_cont ?b1" "is_cont ?b2" "is_cont ?b3" by (simp_all add: is_cont_def)
    have "?b0 = 240 \<longrightarrow> 144 \<le> ?b1" using 4 by auto
    moreover have "?b0 = 244 \<longrightarrow> ?b1 < 144"
    proof
      assume "?b0 = 244"
      then have "r div 262144 = 4" by simp
      with r obtain k where "r div 4096 = 256 + k" and "k < 16"
        by (intro that [of "r div 4096 - 256"]) auto
      then show "?b1 < 144" using mod_64 [of k 4] by simp
    qed
    moreover have
      "(?b0 - 240) * 262144 + (?b1 - 128) * 4096 + (?b2 - 128) * 64 + (?b3 - 128) = r"
      by (simp add: recombine_4)
    ultimately have "decode_rune (?b0 # ?b1 # ?b2 # ?b3 # bs) = (r, 4)"
      using b0 c by simp
    with 4 assms show ?thesis by (simp add: rune_bytes_def)
  qed
qed

lemma decode_rune_take4: "decode_rune (take 4 bs) = decode_rune bs"
  by (cases bs rule: decode_rune.cases) auto

lemma rune_bytes_byte: "b \<in> set (rune_bytes r) \<Longrightarrow> b < 256"
  by (auto simp: rune_bytes_def scalar_def split: if_splits)

lemma rune_bytes_nonempty [simp]: "rune_bytes r \<noteq> []"
  by (simp add: rune_bytes_def)

lemma map_byte_encode [simp]: "map byte (encode_rune r) = rune_bytes r"
  by (auto simp: encode_rune_def intro!: map_idI dest: rune_bytes_byte)

lemma length_encode [simp]: "length (encode_rune r) = length (rune_bytes r)"
  by (simp add: encode_rune_def)

lemma encode_nonempty [simp]: "encode_rune r \<noteq> []"
  by (simp add: encode_rune_def)

lemma next_rune_encode: "scalar r \<Longrightarrow> next_rune (encode_rune r @ s) = (r, length (rune_bytes r))"
  using decode_rune_bytes [of r "map byte s"]
  by (simp only: next_rune_def take_map [symmetric] decode_rune_take4 map_append map_byte_encode)

lemma chunks_encode:
  "scalar r \<Longrightarrow> chunks (encode_rune r @ s) = (r, encode_rune r) # chunks s"
  by (subst chunks.simps) (simp add: next_rune_encode)

lemma runes_Nil [simp]: "runes [] = []"
  by (simp add: runes_def)

lemma runes_encode: "scalar r \<Longrightarrow> runes (encode_rune r @ s) = r # runes s"
  by (simp add: runes_def chunks_encode)

lemma string_of_Nil [simp]: "string_of [] = []"
  by (simp add: string_of_def)

lemma string_of_Cons [simp]: "string_of (r # rs) = encode_rune r @ string_of rs"
  by (simp add: string_of_def)

lemma string_of_append [simp]: "string_of (rs @ ts) = string_of rs @ string_of ts"
  by (simp add: string_of_def)

lemma runes_string_of: "list_all scalar rs \<Longrightarrow> runes (string_of rs) = rs"
  by (induction rs) (auto simp: runes_encode)

text \<open>Encoding what was decoded: every chunk but an invalid byte is the encoding of its rune.\<close>

lemma rune_bytes_2:
  "2 \<le> a \<Longrightarrow> a < 32 \<Longrightarrow> b < 64 \<Longrightarrow>
    scalar (a * 64 + b) \<and> rune_bytes (a * 64 + b) = [192 + a, 128 + b]"
  by (auto simp: rune_bytes_def scalar_def)

lemma rune_bytes_3:
  assumes "a < 16" "b < 64" "c < 64" "a = 0 \<longrightarrow> 32 \<le> b" "a = 13 \<longrightarrow> b < 32"
  shows "scalar (a * 4096 + b * 64 + c) \<and>
    rune_bytes (a * 4096 + b * 64 + c) = [224 + a, 128 + b, 128 + c]"
proof -
  let ?r = "a * 4096 + b * 64 + c"
  have big: "2048 \<le> ?r" and small: "?r < 65536" using assms by (cases "a = 0"; simp)+
  have sc: "scalar ?r"
  proof (cases "a < 13")
    case True
    then have "?r < 55296" using assms by simp
    then show ?thesis by (simp add: scalar_def)
  next
    case False
    then show ?thesis using assms small by (cases "a = 13") (auto simp: scalar_def)
  qed
  have d: "?r div 4096 = a" "?r div 64 = a * 64 + b" "?r mod 64 = c"
    using assms mod_64 [of c "a * 64 + b"] by (simp_all add: algebra_simps)
  show ?thesis using big small sc assms by (simp add: rune_bytes_def d)
qed

lemma rune_bytes_4:
  assumes "a < 5" "b < 64" "c < 64" "d < 64" "a = 0 \<longrightarrow> 16 \<le> b" "a = 4 \<longrightarrow> b < 16"
  shows "scalar (a * 262144 + b * 4096 + c * 64 + d) \<and>
    rune_bytes (a * 262144 + b * 4096 + c * 64 + d) = [240 + a, 128 + b, 128 + c, 128 + d]"
proof -
  let ?r = "a * 262144 + b * 4096 + c * 64 + d"
  have big: "65536 \<le> ?r" using assms by (cases "a = 0") simp_all
  have small: "?r < 1114112" using assms by (cases "a = 4") simp_all
  have d: "?r div 262144 = a" "?r div 4096 = a * 64 + b" "?r div 64 = a * 4096 + b * 64 + c"
    "?r mod 64 = d" "(a * 4096 + b * 64 + c) mod 64 = c"
    using assms mod_64 [of d "a * 4096 + b * 64 + c"] mod_64 [of c "a * 64 + b"]
    by (simp_all add: algebra_simps)
  show ?thesis using big small assms by (simp add: rune_bytes_def scalar_def d)
qed

lemma is_cont_plus: "is_cont b \<Longrightarrow> \<exists>a < 64. b = 128 + a"
  by (intro exI [of _ "b - 128"]) (auto simp: is_cont_def)

lemma decode_rune_valid_2:
  assumes "194 \<le> b0" "b0 < 224" "is_cont b1"
  shows "scalar ((b0 - 192) * 64 + (b1 - 128)) \<and>
    rune_bytes ((b0 - 192) * 64 + (b1 - 128)) = [b0, b1]"
proof -
  obtain a where "b0 = 192 + a" "2 \<le> a" "a < 32"
    using assms by (intro that [of "b0 - 192"]) auto
  moreover obtain b where "b < 64" "b1 = 128 + b" using is_cont_plus assms(3) by blast
  ultimately show ?thesis using rune_bytes_2 [of a b] by simp
qed

lemma decode_rune_valid_3:
  assumes "224 \<le> b0" "b0 < 240" "is_cont b1" "is_cont b2"
    and "b0 = 224 \<longrightarrow> 160 \<le> b1" "b0 = 237 \<longrightarrow> b1 < 160"
  shows "scalar ((b0 - 224) * 4096 + (b1 - 128) * 64 + (b2 - 128)) \<and>
    rune_bytes ((b0 - 224) * 4096 + (b1 - 128) * 64 + (b2 - 128)) = [b0, b1, b2]"
proof -
  obtain a where "b0 = 224 + a" "a < 16" using assms by (intro that [of "b0 - 224"]) auto
  moreover obtain b where "b < 64" "b1 = 128 + b" using is_cont_plus assms(3) by blast
  moreover obtain c where "c < 64" "b2 = 128 + c" using is_cont_plus assms(4) by blast
  ultimately show ?thesis using rune_bytes_3 [of a b c] assms(5,6) by simp
qed

lemma decode_rune_valid_4:
  assumes "240 \<le> b0" "b0 < 245" "is_cont b1" "is_cont b2" "is_cont b3"
    and "b0 = 240 \<longrightarrow> 144 \<le> b1" "b0 = 244 \<longrightarrow> b1 < 144"
  shows "scalar ((b0 - 240) * 262144 + (b1 - 128) * 4096 + (b2 - 128) * 64 + (b3 - 128)) \<and>
    rune_bytes ((b0 - 240) * 262144 + (b1 - 128) * 4096 + (b2 - 128) * 64 + (b3 - 128)) =
      [b0, b1, b2, b3]"
proof -
  obtain a where "b0 = 240 + a" "a < 5" using assms by (intro that [of "b0 - 240"]) auto
  moreover obtain b where "b < 64" "b1 = 128 + b" using is_cont_plus assms(3) by blast
  moreover obtain c where "c < 64" "b2 = 128 + c" using is_cont_plus assms(4) by blast
  moreover obtain d where "d < 64" "b3 = 128 + d" using is_cont_plus assms(5) by blast
  ultimately show ?thesis using rune_bytes_4 [of a b c d] assms(6,7) by simp
qed

lemma rune_bytes_1: "b < 128 \<Longrightarrow> scalar b \<and> rune_bytes b = [b]"
  by (simp add: rune_bytes_def scalar_def)

lemma decode_rune_valid:
  assumes "bs \<noteq> []" and "decode_rune bs = (r, w)" and "r = RuneError \<longrightarrow> w \<noteq> 1"
  shows "scalar r \<and> rune_bytes r = take w bs"
proof (cases bs rule: decode_rune.cases)
  case (1 b0 b1 b2 b3 bs')
  then show ?thesis
    using assms(2,3) decode_rune_valid_2 [of b0 b1] decode_rune_valid_3 [of b0 b1 b2]
      decode_rune_valid_4 [of b0 b1 b2 b3] by (auto simp: rune_bytes_1 split: if_split_asm)
next
  case (2 b0 b1 b2)
  then show ?thesis
    using assms(2,3) decode_rune_valid_2 [of b0 b1] decode_rune_valid_3 [of b0 b1 b2]
    by (auto simp: rune_bytes_1 split: if_split_asm)
next
  case (3 b0 b1)
  then show ?thesis
    using assms(2,3) decode_rune_valid_2 [of b0 b1] by (auto simp: rune_bytes_1 split: if_split_asm)
next
  case (4 b0)
  then show ?thesis using assms(2,3) by (auto simp: rune_bytes_1 split: if_split_asm)
next
  case 5
  then show ?thesis using assms(1) by simp
qed

lemma next_rune_valid:
  assumes "s \<noteq> []" and "next_rune s = (r, w)" and "r = RuneError \<longrightarrow> w \<noteq> 1"
  shows "scalar r \<and> encode_rune r = take w s"
proof -
  let ?bs = "map byte (take 4 s)"
  have "?bs \<noteq> []" using assms(1) by simp
  moreover have "decode_rune ?bs = (r, w)" using assms(2) by (simp add: next_rune_def)
  ultimately have v: "scalar r" "rune_bytes r = take w ?bs" "w \<le> length ?bs"
    using assms(3) decode_rune_valid [of ?bs r w] decode_rune_width [of ?bs] by auto
  have "encode_rune r = map char_of (map byte (take w (take 4 s)))"
    using v(2) by (simp add: encode_rune_def take_map)
  also have "\<dots> = take w (take 4 s)" by (simp add: map_idI)
  also have "\<dots> = take w s" using v(3) by (simp add: min_def split: if_splits)
  finally show ?thesis using v(1) by simp
qed

lemma scalar_RuneError [simp]: "scalar RuneError"
  by (simp add: scalar_def RuneError_def)

lemma next_rune_scalar: "s \<noteq> [] \<Longrightarrow> scalar (fst (next_rune s))"
  using next_rune_valid [of s "fst (next_rune s)" "snd (next_rune s)"]
  by (cases "fst (next_rune s) = RuneError") auto

lemma runes_scalar [simp]: "list_all scalar (runes s)"
proof (induction s rule: chunks.induct)
  case (1 s)
  then show ?case
    by (cases "s = []") (auto simp: runes_def chunks.simps [of s] next_rune_scalar)
qed

lemma chunks_valid:
  assumes "ValidString s" and "(r, bs) \<in> set (chunks s)"
  shows "encode_rune r = bs"
  using assms
proof (induction s rule: chunks.induct)
  case (1 s)
  show ?case
  proof (cases "s = []")
    case False
    then have c: "chunks s = (fst (next_rune s), take (snd (next_rune s)) s) #
        chunks (drop (snd (next_rune s)) s)"
      by (simp add: chunks.simps [of s])
    have len: "length (take (snd (next_rune s)) s) = snd (next_rune s)"
      using next_rune_width [OF False] by simp
    have v: "fst (next_rune s) = RuneError \<longrightarrow> snd (next_rune s) \<noteq> 1"
      and rest: "ValidString (drop (snd (next_rune s)) s)"
      using "1.prems"(1) len by (auto simp: ValidString_def c)
    have "encode_rune (fst (next_rune s)) = take (snd (next_rune s)) s"
      using next_rune_valid [OF False _ v] by simp
    then show ?thesis using "1.prems"(2) "1.IH" [OF False rest] by (auto simp: c)
  qed (use "1.prems" in simp)
qed

text \<open>\<open>string([]rune(s))\<close> is \<open>s\<close> when \<open>s\<close> is valid UTF-8.\<close>

lemma string_of_runes: "ValidString s \<Longrightarrow> string_of (runes s) = s"
proof -
  assume v: "ValidString s"
  have "map encode_rune (map fst (chunks s)) = map snd (chunks s)"
    using chunks_valid [OF v] by auto
  then show ?thesis by (simp only: string_of_def runes_def chunks_concat)
qed

lemma RuneError_chunk_length: "length (rune_bytes RuneError) = 3"
  by (simp add: rune_bytes_def scalar_def RuneError_def)

lemma ValidString_string_of: "list_all scalar rs \<Longrightarrow> ValidString (string_of rs)"
  by (induction rs) (auto simp: ValidString_def chunks_encode RuneError_chunk_length)

lemma runes_length: "length (runes s) \<le> length s"
proof (induction s rule: chunks.induct)
  case (1 s)
  show ?case
  proof (cases "s = []")
    case False
    then have "1 \<le> snd (next_rune s) \<and> snd (next_rune s) \<le> length s"
      by (rule next_rune_width)
    then show ?thesis
      using "1.IH" [OF False] False by (auto simp: runes_def chunks.simps [of s])
  qed simp
qed

section \<open>White space\<close>

definition IsSpace :: "nat \<Rightarrow> bool" where
  "IsSpace r \<longleftrightarrow> (9 \<le> r \<and> r \<le> 13) \<or> r = 32 \<or> r = 133 \<or> r = 160 \<or> r = 5760
     \<or> (8192 \<le> r \<and> r \<le> 8202) \<or> r = 8232 \<or> r = 8233 \<or> r = 8239 \<or> r = 8287 \<or> r = 12288"

definition TrimSpace :: "string \<Rightarrow> string" where
  "TrimSpace s = concat (map snd (rev (dropWhile (\<lambda>p. IsSpace (fst p))
     (rev (dropWhile (\<lambda>p. IsSpace (fst p)) (chunks s))))))"

fun words_of :: "(nat \<times> string) list \<Rightarrow> string \<Rightarrow> string list" where
  "words_of [] acc = (if acc = [] then [] else [acc])"
| "words_of ((r, bs) # cs) acc =
     (if IsSpace r then (if acc = [] then words_of cs [] else acc # words_of cs [])
      else words_of cs (acc @ bs))"

definition Fields :: "string \<Rightarrow> string list" where
  "Fields s = words_of (chunks s) []"

section \<open>Hexadecimal\<close>

definition hex_digit :: "nat \<Rightarrow> char" where
  "hex_digit n = (if n < 10 then char_of (48 + n) else char_of (87 + n))"

definition hex_value :: "char \<Rightarrow> nat option" where
  "hex_value c = (let b = byte c in
     if 48 \<le> b \<and> b \<le> 57 then Some (b - 48)
     else if 97 \<le> b \<and> b \<le> 102 then Some (b - 87)
     else if 65 \<le> b \<and> b \<le> 70 then Some (b - 55) else None)"

definition hex_encode :: "string \<Rightarrow> string" where
  "hex_encode s = concat (map (\<lambda>c. [hex_digit (byte c div 16), hex_digit (byte c mod 16)]) s)"

fun hex_decode :: "string \<Rightarrow> string option" where
  "hex_decode [] = Some []"
| "hex_decode [c] = None"
| "hex_decode (c # d # s) =
     (case (hex_value c, hex_value d, hex_decode s) of
        (Some a, Some b, Some t) \<Rightarrow> Some (char_of (16 * a + b) # t)
      | _ \<Rightarrow> None)"

lemma hex_value_digit: "n < 16 \<Longrightarrow> hex_value (hex_digit n) = Some n"
  by (auto simp: hex_value_def hex_digit_def Let_def)

lemma hex_decode_encode: "hex_decode (hex_encode s) = Some s"
proof (induction s)
  case (Cons c s)
  have "byte c div 16 < 16" using nat_of_char_less_256 [of c] by linarith
  then show ?case using Cons by (simp add: hex_encode_def hex_value_digit)
qed (simp add: hex_encode_def)

lemma length_hex_encode [simp]: "length (hex_encode s) = 2 * length s"
  by (induction s) (simp_all add: hex_encode_def)

end
