(* ===== verification/Json.thy ===== *)
theory Json
  imports Utf8 "HOL-Library.Log_Nat"
begin

text \<open>
  JSON documents, the values \<open>encoding/json\<close> builds from them, and the \<open>float64\<close> arithmetic the
  program does on them. A member of an object may occur twice in a document; the last one wins.
  Parsing and printing themselves are arguments of the definitions that use them: a document is
  \<open>None\<close> when \<open>Unmarshal\<close> fails.
\<close>

section \<open>float64\<close>

text \<open>
  A finite \<open>float64\<close> is the rational it denotes. \<open>fl64\<close> rounds to the nearest one, ties to even,
  with the 53-bit significand and the subnormal range of the format.
\<close>

definition pow2 :: "int \<Rightarrow> rat" where
  "pow2 e = (if 0 \<le> e then 2 ^ nat e else 1 / 2 ^ nat (- e))"

definition ilog2_rat :: "rat \<Rightarrow> int" where
  "ilog2_rat q = (let (n, d) = quotient_of q; k = bitlen n - bitlen d
     in if q < pow2 k then k - 1 else k)"

definition round_even :: "rat \<Rightarrow> int" where
  "round_even q = (let f = \<lfloor>q\<rfloor>; r = q - of_int f
     in if r < 1 / 2 then f else if 1 / 2 < r then f + 1 else if even f then f else f + 1)"

definition fl64 :: "rat \<Rightarrow> rat" where
  "fl64 q = (if q = 0 then 0
     else let e = max (ilog2_rat \<bar>q\<bar> - 52) (- 1074)
       in sgn q * of_int (round_even (\<bar>q\<bar> / pow2 e)) * pow2 e)"

text \<open>The conversion of a \<open>float64\<close> to \<open>int\<close> truncates towards zero.\<close>

definition trunc :: "rat \<Rightarrow> int" where
  "trunc q = (if 0 \<le> q then \<lfloor>q\<rfloor> else - \<lfloor>- q\<rfloor>)"

lemma pow2_pos [simp]: "0 < pow2 e"
  by (simp add: pow2_def)

lemma pow2_mono:
  assumes "a \<le> b"
  shows "pow2 a \<le> pow2 b"
proof (cases "0 \<le> a")
  case True
  then show ?thesis using assms by (simp add: pow2_def power_increasing)
next
  case False
  note neg = this
  show ?thesis
  proof (cases "0 \<le> b")
    case True
    have "(1::rat) \<le> 2 ^ nat (- a)" "(1::rat) \<le> 2 ^ nat b" by simp_all
    then have "1 / 2 ^ nat (- a) \<le> (1::rat)" "(1::rat) \<le> 2 ^ nat b" by simp_all
    then have "1 / 2 ^ nat (- a) \<le> (2 :: rat) ^ nat b" by (rule order_trans)
    with neg True show ?thesis by (simp add: pow2_def)
  next
    case False
    then have "(2::rat) ^ nat (- b) \<le> 2 ^ nat (- a)" using assms by (intro power_increasing) auto
    with neg False show ?thesis by (simp add: pow2_def frac_le)
  qed
qed

lemma round_even_int [simp]: "round_even (of_int n) = n"
  by (simp add: round_even_def)

lemma trunc_int [simp]: "trunc (of_int n) = n"
  by (auto simp: trunc_def)

lemma ilog2_rat_int:
  assumes "0 < n" and "n < 2 ^ k"
  shows "ilog2_rat (of_int n) \<le> int k - 1"
proof -
  have "quotient_of (of_int n) = (n, 1)"
    by (simp add: of_int_rat quotient_of_Fract normalize_def)
  moreover have "bitlen 1 = 1" by (simp add: bitlen_def floorlog_def)
  moreover have "bitlen n \<le> int k" using assms bitlen_le_iff_power [of n k] by simp
  moreover have "of_int n < pow2 (bitlen n)"
  proof -
    have "0 \<le> bitlen n" by (simp add: bitlen_nonneg)
    moreover have "n < 2 ^ nat (bitlen n)" using assms bitlen_bounds [of n] by simp
    then have "(of_int n :: rat) < of_int (2 ^ nat (bitlen n))" by (simp only: of_int_less_iff)
    ultimately show ?thesis by (simp add: pow2_def)
  qed
  ultimately show ?thesis by (simp add: ilog2_rat_def Let_def)
qed

text \<open>Integers below \<open>2 ^ 53\<close> in size are exact.\<close>

lemma fl64_int:
  assumes "\<bar>n\<bar> < 2 ^ 53"
  shows "fl64 (of_int n) = of_int n"
proof (cases "n = 0")
  case False
  let ?e = "max (ilog2_rat \<bar>of_int n\<bar> - 52) (- 1074)"
  have "ilog2_rat (of_int \<bar>n\<bar>) \<le> 52" using ilog2_rat_int [of "\<bar>n\<bar>" 53] assms False by simp
  then have e: "?e \<le> 0" by simp
  have p: "pow2 ?e = 1 / 2 ^ nat (- ?e)" using e by (cases "?e = 0") (auto simp: pow2_def)
  have "\<bar>of_int n\<bar> / pow2 ?e = (of_int (\<bar>n\<bar> * 2 ^ nat (- ?e)) :: rat)" by (simp add: p)
  then have "of_int (round_even (\<bar>of_int n\<bar> / pow2 ?e)) * pow2 ?e = (\<bar>of_int n\<bar> :: rat)"
    by (simp only: round_even_int) (simp add: p)
  then show ?thesis using False by (simp add: fl64_def Let_def mult.assoc sgn_mult_abs)
qed (simp add: fl64_def)

section \<open>Documents\<close>

text \<open>A number is \<open>JInt\<close> when its literal has neither a fraction nor an exponent.\<close>

datatype json =
    JNull
  | JBool bool
  | JInt int
  | JFlt rat
  | JStr string
  | JArr "json list"
  | JObj "(string \<times> json) list"

type_synonym jobj = "(string \<times> json) list"

text \<open>Members of a decoded \<open>map[string]any\<close>.\<close>

definition jget :: "string \<Rightarrow> jobj \<Rightarrow> json option" where
  "jget k ob = map_of (rev ob) k"

definition jput :: "string \<Rightarrow> json \<Rightarrow> jobj \<Rightarrow> jobj" where
  "jput k v ob = filter (\<lambda>p. fst p \<noteq> k) ob @ [(k, v)]"

definition jdel :: "string \<Rightarrow> jobj \<Rightarrow> jobj" where
  "jdel k ob = filter (\<lambda>p. fst p \<noteq> k) ob"

text \<open>
  Decoding into a struct: every member whose name matches a field, but for case, sets it in the order
  of the document. A member of the wrong type leaves its field alone; the decoding goes on and fails
  at the end, with the other fields set. The setter \<open>f\<close> gives \<open>None\<close> for a wrong type.
\<close>

fun decode_struct :: "(string \<Rightarrow> json \<Rightarrow> 'a \<Rightarrow> 'a option) \<Rightarrow> jobj \<Rightarrow> 'a \<Rightarrow> 'a \<times> bool" where
  "decode_struct f [] v = (v, True)"
| "decode_struct f ((k, j) # ob) v = (case f (fold_key k) j v of
       Some v' \<Rightarrow> decode_struct f ob v'
     | None \<Rightarrow> (fst (decode_struct f ob v), False))"

text \<open>The whole of \<open>Decode(&v)\<close> for a struct; \<open>None\<close> is text that is not JSON.\<close>

fun decode_into :: "(string \<Rightarrow> json \<Rightarrow> 'a \<Rightarrow> 'a option) \<Rightarrow> 'a \<Rightarrow> json option \<Rightarrow> 'a \<times> bool" where
  "decode_into f v (Some (JObj ob)) = decode_struct f ob v"
| "decode_into f v (Some JNull) = (v, True)"
| "decode_into f v _ = (v, False)"

text \<open>
  The elements of a slice of structs. Decoding goes on from the elements the slice already has, which
  it only has when the member occurs for the second time.
\<close>

fun decode_list :: "(string \<Rightarrow> json \<Rightarrow> 'a \<Rightarrow> 'a option) \<Rightarrow> 'a \<Rightarrow> 'a list \<Rightarrow> json list \<Rightarrow> 'a list option" where
  "decode_list f zero old [] = Some []"
| "decode_list f zero old (j # js) = (case decode_into f (case old of [] \<Rightarrow> zero | x # xs \<Rightarrow> x) (Some j) of
     (v, ok) \<Rightarrow> if ok then map_option (\<lambda>vs. v # vs) (decode_list f zero (tl old) js) else None)"

text \<open>Setters by the type of the field; \<open>null\<close> leaves a field as it is.\<close>

fun set_string :: "(string \<Rightarrow> 'a \<Rightarrow> 'a) \<Rightarrow> json \<Rightarrow> 'a \<Rightarrow> 'a option" where
  "set_string f (JStr s) v = Some (f s v)"
| "set_string f JNull v = Some v"
| "set_string f _ v = None"

fun set_bool :: "(bool \<Rightarrow> 'a \<Rightarrow> 'a) \<Rightarrow> json \<Rightarrow> 'a \<Rightarrow> 'a option" where
  "set_bool f (JBool b) v = Some (f b v)"
| "set_bool f JNull v = Some v"
| "set_bool f _ v = None"

fun set_int :: "(int \<Rightarrow> 'a \<Rightarrow> 'a) \<Rightarrow> json \<Rightarrow> 'a \<Rightarrow> 'a option" where
  "set_int f (JInt n) v = (if - (2 ^ 63) \<le> n \<and> n < 2 ^ 63 then Some (f n v) else None)"
| "set_int f JNull v = Some v"
| "set_int f _ v = None"

text \<open>
  A field that is a pointer to a number or to a struct, and one that is a slice of structs. For the last
  two the setter has the field it is to update.
\<close>

fun set_ptr_int :: "(int option \<Rightarrow> 'a \<Rightarrow> 'a) \<Rightarrow> json \<Rightarrow> 'a \<Rightarrow> 'a option" where
  "set_ptr_int f (JInt n) v = (if - (2 ^ 63) \<le> n \<and> n < 2 ^ 63 then Some (f (Some n) v) else None)"
| "set_ptr_int f JNull v = Some (f None v)"
| "set_ptr_int f _ v = None"

fun set_ptr_struct :: "(string \<Rightarrow> json \<Rightarrow> 'b \<Rightarrow> 'b option) \<Rightarrow> 'b \<Rightarrow> 'b option \<Rightarrow> ('b option \<Rightarrow> 'a \<Rightarrow> 'a) \<Rightarrow>
    json \<Rightarrow> 'a \<Rightarrow> 'a option" where
  "set_ptr_struct g zero old f JNull v = Some (f None v)"
| "set_ptr_struct g zero old f j v = (case decode_into g (case old of None \<Rightarrow> zero | Some x \<Rightarrow> x) (Some j) of
     (x, ok) \<Rightarrow> if ok then Some (f (Some x) v) else None)"

fun set_slice :: "(string \<Rightarrow> json \<Rightarrow> 'b \<Rightarrow> 'b option) \<Rightarrow> 'b \<Rightarrow> 'b list \<Rightarrow> ('b list \<Rightarrow> 'a \<Rightarrow> 'a) \<Rightarrow>
    json \<Rightarrow> 'a \<Rightarrow> 'a option" where
  "set_slice g zero old f (JArr js) v = map_option (\<lambda>xs. f xs v) (decode_list g zero old js)"
| "set_slice g zero old f JNull v = Some (f [] v)"
| "set_slice g zero old f _ v = None"

fun asString :: "json option \<Rightarrow> string" where
  "asString (Some (JStr s)) = s"
| "asString _ = []"

fun asBool :: "json option \<Rightarrow> bool" where
  "asBool (Some (JBool b)) = b"
| "asBool _ = False"

fun asArr :: "json option \<Rightarrow> json list option" where
  "asArr (Some (JArr xs)) = Some xs"
| "asArr _ = None"

fun asObj :: "json option \<Rightarrow> jobj option" where
  "asObj (Some (JObj ob)) = Some ob"
| "asObj _ = None"

fun asFloat :: "json option \<Rightarrow> rat option" where
  "asFloat (Some (JInt n)) = Some (fl64 (of_int n))"
| "asFloat (Some (JFlt q)) = Some (fl64 q)"
| "asFloat _ = None"

text \<open>\<open>number\<close> of \<open>desktop.go\<close>: the number, or zero for anything else.\<close>

definition number :: "json option \<Rightarrow> rat" where
  "number j = (case asFloat j of None \<Rightarrow> 0 | Some q \<Rightarrow> q)"

text \<open>A comparison of an interface value with a constant of type \<open>bool\<close>.\<close>

definition is_bool :: "bool \<Rightarrow> json option \<Rightarrow> bool" where
  "is_bool b j \<longleftrightarrow> j = Some (JBool b)"

lemma asObj_Some: "asObj j = Some ob \<longleftrightarrow> j = Some (JObj ob)"
  by (cases j rule: asObj.cases) auto

lemma asArr_Some: "asArr j = Some xs \<longleftrightarrow> j = Some (JArr xs)"
  by (cases j rule: asArr.cases) auto

lemma map_of_filter_key:
  "map_of (filter (\<lambda>p. fst p \<noteq> k) xs) k' = (if k' = k then None else map_of xs k')"
  by (induction xs) auto

lemma jget_jput [simp]: "jget k' (jput k v ob) = (if k' = k then Some v else jget k' ob)"
  by (simp add: jget_def jput_def rev_filter map_of_filter_key)

lemma jget_jdel [simp]: "jget k' (jdel k ob) = (if k' = k then None else jget k' ob)"
  by (simp add: jget_def jdel_def rev_filter map_of_filter_key)

section \<open>Calls across the network\<close>

text \<open>
  The outcome of an HTTP exchange: the error of the client, the error of reading the body, or the
  status and the bytes of the body. \<open>io.LimitReader(body, limit + 1)\<close> followed by \<open>ReadAll\<close> and the comparison with the limit
  is \<open>read_bounded\<close>, which \<open>control.go\<close> and \<open>broker.go\<close> share.
\<close>

datatype http_reply = NetError string | ReadError int string | Reply int string

definition read_bounded :: "int \<Rightarrow> string \<Rightarrow> string option" where
  "read_bounded limit body =
     (let data = take (nat (limit + 1)) body
      in if limit < int (length data) then None else Some data)"

lemma read_bounded_eq:
  "0 \<le> limit \<Longrightarrow> read_bounded limit body = (if int (length body) \<le> limit then Some body else None)"
  by (auto simp: read_bounded_def Let_def min_def)

text \<open>No truncated document is ever handed on: what is read is the whole body.\<close>

lemma read_bounded_whole: "0 \<le> limit \<Longrightarrow> read_bounded limit body = Some data \<Longrightarrow> data = body"
  by (simp add: read_bounded_eq split: if_splits)

section \<open>Functions of the standard library\<close>

text \<open>
  A decoded \<open>map[string]any\<close> holds each key once, with its last value.
\<close>

definition jmap :: "jobj \<Rightarrow> jobj" where
  "jmap ob = foldl (\<lambda>m (k, v). jput k v m) [] ob"

lemma jget_foldl_jput:
  "jget k (foldl (\<lambda>m (k, v). jput k v m) m ob) = (case jget k ob of None \<Rightarrow> jget k m | Some v \<Rightarrow> Some v)"
  by (induction ob arbitrary: m) (auto simp: jget_def [of _ "_ # _"] jget_def map_add_def
      jget_jput [unfolded jget_def] split: option.splits)

lemma jget_Nil [simp]: "jget k [] = None"
  by (simp add: jget_def)

lemma jget_append: "jget k (a @ b) = (case jget k b of None \<Rightarrow> jget k a | Some v \<Rightarrow> Some v)"
  by (simp add: jget_def map_add_def split: option.split)

lemma jget_Cons: "jget k ((i, v) # ob) = (case jget k ob of None \<Rightarrow> if k = i then Some v else None | Some x \<Rightarrow> Some x)"
  by (simp add: jget_def map_add_def split: option.split)

lemma jget_jmap [simp]: "jget k (jmap ob) = jget k ob"
  by (simp add: jmap_def jget_foldl_jput split: option.splits)

text \<open>
  The functions of the standard library whose inside no component depends on: SHA-256, the RFC 3339
  form of a time, the compilation of an RE2 pattern (to its test, or its error), and the decoder and
  the encoder of JSON text (\<open>None\<close> for an error), the path of a parsed URL, and the parser of RFC 3339.
\<close>

record golib =
  gl_sha256 :: "string \<Rightarrow> string"
  gl_rfc3339 :: "int \<Rightarrow> string"
  gl_compile :: "string \<Rightarrow> (string \<Rightarrow> bool) res"
  gl_unmarshal :: "string \<Rightarrow> json option"
  gl_marshal :: "json \<Rightarrow> string option"
  gl_url_path :: "string \<Rightarrow> string option"
  gl_parse_time :: "string \<Rightarrow> int option"

text \<open>Decoding into a map: an object, or \<open>null\<close>, which leaves the map empty.\<close>

definition decode_map :: "golib \<Rightarrow> string \<Rightarrow> jobj option" where
  "decode_map lib body = (case gl_unmarshal lib body of
      Some (JObj ob) \<Rightarrow> Some (jmap ob) | Some JNull \<Rightarrow> Some [] | _ \<Rightarrow> None)"

end
