(* ===== verification/GoQuote.thy ===== *)
theory GoQuote
  imports Json
begin

text \<open>
  \<open>strconv.Quote\<close>, which \<open>fmt\<close> uses for \<open>%q\<close>, and the string literals of JSON (RFC 8259). The two
  agree on most strings but not on all: \<open>caller.go\<close> builds a JSON document with \<open>%q\<close>, and this theory
  says which commands survive it.
\<close>

section \<open>Quote\<close>

text \<open>\<open>prt\<close> is \<open>strconv.IsPrint\<close> beyond ASCII.\<close>

definition is_print :: "(nat \<Rightarrow> bool) \<Rightarrow> nat \<Rightarrow> bool" where
  "is_print prt r \<longleftrightarrow> (if r < 128 then 32 \<le> r \<and> r < 127 else prt r)"

fun hex_pad :: "nat \<Rightarrow> nat \<Rightarrow> string" where
  "hex_pad 0 n = []"
| "hex_pad (Suc k) n = hex_pad k (n div 16) @ [hex_digit (n mod 16)]"

definition backslash :: char where
  "backslash = CHR 0x5C"

definition dquote :: char where
  "dquote = CHR 0x22"

definition quote_rune :: "(nat \<Rightarrow> bool) \<Rightarrow> nat \<Rightarrow> string" where
  "quote_rune prt r =
     (if r = 34 \<or> r = 92 then [backslash, char_of r]
      else if is_print prt r then encode_rune r
      else if r = 7 then [backslash, CHR ''a'']
      else if r = 8 then [backslash, CHR ''b'']
      else if r = 12 then [backslash, CHR ''f'']
      else if r = 10 then [backslash, CHR ''n'']
      else if r = 13 then [backslash, CHR ''r'']
      else if r = 9 then [backslash, CHR ''t'']
      else if r = 11 then [backslash, CHR ''v'']
      else if r < 32 \<or> r = 127 then [backslash, CHR ''x''] @ hex_pad 2 r
      else if r < 65536 then [backslash, CHR ''u''] @ hex_pad 4 r
      else [backslash, CHR ''U''] @ hex_pad 8 r)"

definition quote_chunk :: "(nat \<Rightarrow> bool) \<Rightarrow> nat \<times> string \<Rightarrow> string" where
  "quote_chunk prt p =
     (if fst p = RuneError \<and> length (snd p) = 1
      then [backslash, CHR ''x''] @ hex_pad 2 (byte (hd (snd p)))
      else quote_rune prt (fst p))"

definition Quote :: "(nat \<Rightarrow> bool) \<Rightarrow> string \<Rightarrow> string" where
  "Quote prt s = [dquote] @ concat (map (quote_chunk prt) (chunks s)) @ [dquote]"

section \<open>JSON string literals\<close>

definition json_escape :: "char \<Rightarrow> char option" where
  "json_escape e =
     (if e = dquote \<or> e = backslash \<or> e = CHR 0x2F then Some e
      else if e = CHR ''b'' then Some (CHR 0x08) else if e = CHR ''f'' then Some (CHR 0x0C)
      else if e = CHR ''n'' then Some (CHR 0x0A) else if e = CHR ''r'' then Some (CHR 0x0D)
      else if e = CHR ''t'' then Some (CHR 0x09) else None)"

text \<open>The four hexadecimal digits behind \<open>\u\<close>.\<close>

fun hex_number :: "nat \<Rightarrow> string \<Rightarrow> nat \<Rightarrow> nat option" where
  "hex_number 0 s acc = Some acc"
| "hex_number (Suc k) [] acc = None"
| "hex_number (Suc k) (c # s) acc =
     (case hex_value c of None \<Rightarrow> None | Some d \<Rightarrow> hex_number k s (16 * acc + d))"

text \<open>The low half of a surrogate pair, written as the next escape.\<close>

definition low_surrogate :: "string \<Rightarrow> nat option" where
  "low_surrogate s =
     (if HasPrefix s [backslash, CHR ''u''] then
        (case hex_number 4 (drop 2 s) 0 of None \<Rightarrow> None
         | Some lo \<Rightarrow> if 56320 \<le> lo \<and> lo < 57344 then Some lo else None)
      else None)"

definition prepend :: "string \<Rightarrow> (string \<times> 'a) option \<Rightarrow> (string \<times> 'a) option" where
  "prepend p r = map_option (\<lambda>(v, rest). (p @ v, rest)) r"

text \<open>
  The rest of a literal whose opening quote has been read: its value, and what follows the closing
  quote. A surrogate that has no partner becomes U+FFFD, which \<open>encode_rune\<close> writes for it.
\<close>

function json_chars :: "string \<Rightarrow> (string \<times> string) option" where
  "json_chars [] = None"
| "json_chars (c # s) =
     (if c = dquote then Some ([], s)
      else if c = backslash then
        (case s of [] \<Rightarrow> None
         | e # t \<Rightarrow> (case json_escape e of
             Some d \<Rightarrow> prepend [d] (json_chars t)
           | None \<Rightarrow>
              (if e \<noteq> CHR ''u'' then None
               else case hex_number 4 t 0 of None \<Rightarrow> None
                 | Some r \<Rightarrow>
                    (if 55296 \<le> r \<and> r < 56320 \<and> low_surrogate (drop 4 t) \<noteq> None
                     then prepend (encode_rune (65536 + (r - 55296) * 1024 +
                            (the (low_surrogate (drop 4 t)) - 56320))) (json_chars (drop 10 t))
                     else prepend (encode_rune r) (json_chars (drop 4 t))))))
      else if byte c < 32 then None
      else prepend [c] (json_chars s))"
  by pat_completeness auto
termination by (relation "measure length") auto

declare json_chars.simps(2) [simp del]

definition json_string :: "string \<Rightarrow> (string \<times> string) option" where
  "json_string s = (if HasPrefix s [dquote] then json_chars (tl s) else None)"

text \<open>An object of string members, written without white space.\<close>

definition json_member :: "string \<Rightarrow> ((string \<times> string) \<times> string) option" where
  "json_member s = (case json_string s of None \<Rightarrow> None
     | Some (k, t) \<Rightarrow> (if \<not> HasPrefix t '':'' then None
         else case json_string (tl t) of None \<Rightarrow> None | Some (v, u) \<Rightarrow> Some ((k, v), u)))"

fun json_members :: "nat \<Rightarrow> string \<Rightarrow> (string \<times> string) list option" where
  "json_members 0 s = None"
| "json_members (Suc n) s = (case json_member s of None \<Rightarrow> None
     | Some (kv, t) \<Rightarrow> (if t = ''}'' then Some [kv]
         else if HasPrefix t '','' then map_option (\<lambda>ms. kv # ms) (json_members n (tl t))
         else None))"

definition flat_object :: "string \<Rightarrow> (string \<times> string) list option" where
  "flat_object s = (if HasPrefix s ''{'' then json_members (length s) (tl s) else None)"

section \<open>What survives\<close>

text \<open>The runes \<open>Quote\<close> writes the way JSON reads them.\<close>

definition quotable :: "(nat \<Rightarrow> bool) \<Rightarrow> nat \<Rightarrow> bool" where
  "quotable prt r \<longleftrightarrow> r \<in> {8, 9, 10, 12, 13} \<or>
     (32 \<le> r \<and> r \<noteq> 127 \<and> (r < 128 \<or> prt r \<or> r < 65536))"

lemma json_chars_end [simp]: "json_chars (dquote # s) = Some ([], s)"
  by (subst json_chars.simps) simp

lemma json_chars_plain:
  "c \<noteq> dquote \<Longrightarrow> c \<noteq> backslash \<Longrightarrow> 32 \<le> byte c \<Longrightarrow> json_chars (c # s) = prepend [c] (json_chars s)"
  by (subst json_chars.simps) simp

lemma json_chars_escape:
  "json_escape e = Some d \<Longrightarrow> json_chars (backslash # e # s) = prepend [d] (json_chars s)"
  by (subst json_chars.simps) (simp add: dquote_def backslash_def)

lemma json_chars_bad_escape:
  "json_escape e = None \<Longrightarrow> e \<noteq> CHR ''u'' \<Longrightarrow> json_chars (backslash # e # s) = None"
  by (subst json_chars.simps) (simp add: dquote_def backslash_def)

lemma prepend_prepend: "prepend p (prepend q r) = prepend (p @ q) r"
  by (cases r) (auto simp: prepend_def)

lemma prepend_None [simp]: "prepend p None = None"
  by (simp add: prepend_def)

lemma prepend_Nil [simp]: "prepend [] r = r"
  by (cases r) (auto simp: prepend_def)

lemma json_chars_high:
  "\<forall>c \<in> set bs. 128 \<le> byte c \<Longrightarrow> json_chars (bs @ s) = prepend bs (json_chars s)"
proof (induction bs)
  case (Cons c bs)
  then have "128 \<le> byte c" by simp
  then have "c \<noteq> dquote" "c \<noteq> backslash" by (auto simp: dquote_def backslash_def)
  then show ?case using Cons by (simp add: json_chars_plain prepend_prepend)
qed simp

lemma hex_number_snoc:
  "hex_number (length ds + k) (ds @ s) acc =
     (case hex_number (length ds) ds acc of None \<Rightarrow> None | Some n \<Rightarrow> hex_number k s n)"
  by (induction ds arbitrary: acc) (auto split: option.splits)

lemma length_hex_pad [simp]: "length (hex_pad k n) = k"
  by (induction k arbitrary: n) auto

lemma hex_number_pad: "hex_number k (hex_pad k n) acc = Some (acc * 16 ^ k + n mod 16 ^ k)"
proof (induction k arbitrary: n)
  case (Suc k)
  have "hex_number (k + 1) (hex_pad k (n div 16) @ [hex_digit (n mod 16)]) acc =
      Some (16 * (acc * 16 ^ k + n div 16 mod 16 ^ k) + n mod 16)"
    using hex_number_snoc [of "hex_pad k (n div 16)" 1 "[hex_digit (n mod 16)]" acc]
    by (simp add: Suc.IH hex_value_digit)
  moreover have "n mod (16 * 16 ^ k) = 16 * (n div 16 mod 16 ^ k) + n mod 16"
    by (simp add: mod_mult2_eq)
  ultimately show ?case by (simp add: algebra_simps)
qed simp

lemma hex_number_pad_append: "r < 16 ^ k \<Longrightarrow> hex_number k (hex_pad k r @ s) 0 = Some r"
  using hex_number_snoc [of "hex_pad k r" 0 s 0] by (simp add: hex_number_pad)

lemma json_chars_u:
  assumes "r < 65536" and "scalar r"
  shows "json_chars (backslash # CHR ''u'' # hex_pad 4 r @ s) = prepend (encode_rune r) (json_chars s)"
proof -
  have "hex_number 4 (hex_pad 4 r @ s) 0 = Some r" using assms(1) by (simp add: hex_number_pad_append)
  moreover have "\<not> (55296 \<le> r \<and> r < 56320)" using assms(2) by (auto simp: scalar_def)
  moreover have "drop 4 (hex_pad 4 r @ s) = s" by simp
  moreover have "json_escape CHR ''u'' = None"
    by (simp add: json_escape_def dquote_def backslash_def)
  ultimately show ?thesis by (subst json_chars.simps) (auto simp: dquote_def backslash_def)
qed

lemma ascii_chars:
  "char_of (8 :: nat) = CHR 0x08" "char_of (9 :: nat) = CHR 0x09" "char_of (10 :: nat) = CHR 0x0A"
  "char_of (12 :: nat) = CHR 0x0C" "char_of (13 :: nat) = CHR 0x0D" "char_of (34 :: nat) = CHR 0x22"
  "char_of (92 :: nat) = CHR 0x5C"
  by (simp_all add: char_of_def bit_0)

lemma encode_ascii: "r < 128 \<Longrightarrow> encode_rune r = [char_of r]"
  by (simp add: encode_rune_def rune_bytes_def)

lemma encode_high:
  assumes "128 \<le> r"
  shows "\<forall>c \<in> set (encode_rune r). 128 \<le> byte c"
proof -
  have "128 \<le> b" if "b \<in> set (rune_bytes r)" for b
    using that assms by (auto simp: rune_bytes_def split: if_splits)
  moreover have "byte c \<in> set (rune_bytes r)" if "c \<in> set (encode_rune r)" for c
    using imageI [OF that, of byte] by (simp add: set_map [symmetric])
  ultimately show ?thesis by blast
qed

lemma quote_control:
  assumes "r < 32 \<or> r = 127"
  shows "json_chars (quote_rune prt r @ s) =
    (if quotable prt r then prepend (encode_rune r) (json_chars s) else None)"
proof (cases "r \<in> {8, 9, 10, 12, 13}")
  case True
  then have "\<exists>e. quote_rune prt r = [backslash, e] \<and> json_escape e = Some (char_of r)"
    by (elim insertE emptyE) (simp_all add: quote_rune_def is_print_def ascii_chars json_escape_def
        dquote_def backslash_def)
  then obtain e where "quote_rune prt r = [backslash, e]" "json_escape e = Some (char_of r)" by blast
  moreover have "quotable prt r" "r < 128" using True by (auto simp: quotable_def)
  ultimately show ?thesis by (simp add: json_chars_escape encode_ascii)
next
  case False
  moreover have "r \<noteq> 34" "r \<noteq> 92" "\<not> is_print prt r" using assms by (auto simp: is_print_def)
  ultimately have "quote_rune prt r = (if r = 7 then [backslash, CHR ''a'']
      else if r = 11 then [backslash, CHR ''v''] else backslash # CHR ''x'' # hex_pad 2 r)"
    using assms by (simp add: quote_rune_def del: hex_pad.simps)
  then obtain e w where q: "quote_rune prt r = backslash # e # w" "e \<in> {CHR ''a'', CHR ''v'', CHR ''x''}"
    by (cases "r = 7"; cases "r = 11"; simp del: hex_pad.simps)
  then have "json_escape e = None" "e \<noteq> CHR ''u''"
    by (auto simp: json_escape_def dquote_def backslash_def)
  moreover have "\<not> quotable prt r" using False assms by (auto simp: quotable_def)
  ultimately show ?thesis by (simp add: q(1) json_chars_bad_escape)
qed

lemma quote_ascii:
  assumes "32 \<le> r" and "r < 127"
  shows "json_chars (quote_rune prt r @ s) =
    (if quotable prt r then prepend (encode_rune r) (json_chars s) else None)"
proof (cases "r = 34 \<or> r = 92")
  case True
  then show ?thesis
    by (auto simp: quote_rune_def quotable_def encode_ascii ascii_chars json_escape_def dquote_def
        backslash_def json_chars_escape [unfolded backslash_def])
next
  case False
  have b: "byte (char_of r) = r" using assms by simp
  moreover have "byte dquote = 34" "byte backslash = 92" by (simp_all add: dquote_def backslash_def)
  ultimately have "char_of r \<noteq> dquote" "char_of r \<noteq> backslash" using False by metis+
  with assms False b show ?thesis
    by (simp add: quote_rune_def is_print_def quotable_def encode_ascii json_chars_plain)
qed

lemma quote_high:
  assumes "128 \<le> r" and "scalar r"
  shows "json_chars (quote_rune prt r @ s) =
    (if quotable prt r then prepend (encode_rune r) (json_chars s) else None)"
proof -
  have q: "quotable prt r \<longleftrightarrow> prt r \<or> r < 65536" using assms(1) by (auto simp: quotable_def)
  consider "prt r" | "\<not> prt r" "r < 65536" | "\<not> prt r" "\<not> r < 65536" by blast
  then show ?thesis
  proof cases
    case 1
    then show ?thesis using assms
      by (simp add: q quote_rune_def is_print_def json_chars_high encode_high)
  next
    case 2
    then show ?thesis using assms by (simp add: q quote_rune_def is_print_def json_chars_u)
  next
    case 3
    then have "quote_rune prt r = backslash # CHR ''U'' # hex_pad 8 r"
      using assms by (simp add: quote_rune_def is_print_def)
    moreover have "json_escape CHR ''U'' = None"
      by (simp add: json_escape_def dquote_def backslash_def)
    ultimately show ?thesis using 3 by (simp add: q json_chars_bad_escape)
  qed
qed

lemma quote_rune_read:
  assumes "scalar r"
  shows "json_chars (quote_rune prt r @ s) =
    (if quotable prt r then prepend (encode_rune r) (json_chars s) else None)"
proof -
  consider "r < 32 \<or> r = 127" | "32 \<le> r" "r < 127" | "128 \<le> r" by linarith
  then show ?thesis
  proof cases
    case 1
    then show ?thesis by (rule quote_control)
  next
    case 2
    then show ?thesis by (rule quote_ascii)
  next
    case 3
    then show ?thesis using assms by (rule quote_high)
  qed
qed

lemma quote_chunks_read:
  "list_all scalar rs \<Longrightarrow>
     json_chars (concat (map (quote_chunk prt) (chunks (string_of rs))) @ dquote # rest) =
       (if list_all (quotable prt) rs then Some (string_of rs, rest) else None)"
proof (induction rs)
  case (Cons r rs)
  then have r: "scalar r" by simp
  have "quote_chunk prt (r, encode_rune r) = quote_rune prt r"
    using RuneError_chunk_length by (auto simp: quote_chunk_def)
  then show ?case using Cons.IH Cons.prems quote_rune_read [OF r]
    by (auto simp: chunks_encode prepend_def)
qed simp

text \<open>Reading a quoted string as JSON: it comes back whole, or it is no JSON at all.\<close>

lemma quote_read:
  assumes "ValidString s"
  shows "json_string (Quote prt s @ rest) =
    (if list_all (quotable prt) (runes s) then Some (s, rest) else None)"
  using quote_chunks_read [of "runes s" prt rest]
  by (simp add: string_of_runes [OF assms] json_string_def Quote_def HasPrefix_def)

end
