(* ===== verification/AllowList.thy ===== *)
theory AllowList
  imports GoText
begin

text \<open>
  \<open>allowlist.go\<close>: the cached, tenant-scoped list of the nodes that may connect. The cache is a Go
  map from the fingerprint of a node's public key to its entry; a snapshot of the control link
  replaces it as a whole. The locale \<open>node_registry\<close> is the interface the broker relies on.
\<close>

section \<open>State and operations\<close>

record NodeEntry =
  ne_SVID :: string
  ne_SPKIFingerprint :: string
  ne_BoundName :: string
  ne_Description :: string
  ne_NotAfter :: string

record AllowList =
  al_bySPKI :: "(string, NodeEntry) gomap"
  al_tenant :: string
  al_updated :: int
  al_loaded :: bool

definition NewAllowList :: AllowList where
  "NewAllowList = \<lparr>al_bySPKI = [], al_tenant = [], al_updated = 0, al_loaded = False\<rparr>"

definition al_index :: "NodeEntry list \<Rightarrow> (string, NodeEntry) gomap" where
  "al_index nodes = foldl (\<lambda>m n. gm_store (ne_SPKIFingerprint n) n m) [] nodes"

definition al_Replace :: "int \<Rightarrow> string \<Rightarrow> NodeEntry list \<Rightarrow> AllowList \<Rightarrow> AllowList \<times> bool" where
  "al_Replace now tenant nodes a =
     (if tenant = [] \<or> (al_loaded a \<and> tenant \<noteq> al_tenant a) then (a, False)
      else (a\<lparr>al_bySPKI := al_index nodes, al_tenant := tenant, al_updated := now,
              al_loaded := True\<rparr>, True))"

definition al_Loaded :: "AllowList \<Rightarrow> bool" where
  "al_Loaded a = al_loaded a"

definition al_Lookup :: "AllowList \<Rightarrow> string \<Rightarrow> NodeEntry option" where
  "al_Lookup a spki = gm_load (al_bySPKI a) spki"

definition al_Entries :: "AllowList \<Rightarrow> NodeEntry list" where
  "al_Entries a = map snd (al_bySPKI a)"

definition al_Tenant :: "AllowList \<Rightarrow> string" where
  "al_Tenant a = al_tenant a"

definition al_Size :: "AllowList \<Rightarrow> nat" where
  "al_Size a = length (al_bySPKI a)"

text \<open>
  The representation invariant: one entry per fingerprint, filed under its own fingerprint, and
  nothing before the first snapshot.
\<close>

definition al_inv :: "AllowList \<Rightarrow> bool" where
  "al_inv a \<longleftrightarrow> gm_wf (al_bySPKI a) \<and> (\<forall>(k, e) \<in> set (al_bySPKI a). ne_SPKIFingerprint e = k)
     \<and> (al_loaded a \<longrightarrow> al_tenant a \<noteq> []) \<and> (\<not> al_loaded a \<longrightarrow> al_bySPKI a = [])"

section \<open>The index of a snapshot\<close>

lemma al_index_snoc:
  "al_index (ns @ [n]) = gm_store (ne_SPKIFingerprint n) n (al_index ns)"
  by (simp add: al_index_def)

lemma al_index_wf [simp]: "gm_wf (al_index ns)"
  by (induction ns rule: rev_induct) (simp_all add: al_index_snoc, simp add: al_index_def)

text \<open>Where a snapshot names a key twice, the later entry is the one that is kept.\<close>

lemma al_index_load:
  "gm_load (al_index ns) k = find (\<lambda>n. ne_SPKIFingerprint n = k) (rev ns)"
  by (induction ns rule: rev_induct) (simp_all add: al_index_snoc, simp add: al_index_def)

lemma find_Some_in_set: "find P xs = Some x \<Longrightarrow> x \<in> set xs \<and> P x"
  by (induction xs) (auto split: if_splits)

lemma al_index_load_None:
  "gm_load (al_index ns) k = None \<longleftrightarrow> (\<forall>n \<in> set ns. ne_SPKIFingerprint n \<noteq> k)"
  by (auto simp: al_index_load find_None_iff)

lemma al_index_entry: "(k, e) \<in> set (al_index ns) \<Longrightarrow> e \<in> set ns \<and> ne_SPKIFingerprint e = k"
  using find_Some_in_set [of _ "rev ns" e] by (auto simp: gm_wf_map_of al_index_load)

lemma al_Replace_eq:
  "al_Replace now t nodes a = (a', ok) \<Longrightarrow>
     ok = (t \<noteq> [] \<and> (al_loaded a \<longrightarrow> t = al_tenant a)) \<and>
     a' = (if ok then a\<lparr>al_bySPKI := al_index nodes, al_tenant := t, al_updated := now,
              al_loaded := True\<rparr> else a)"
  by (auto simp: al_Replace_def split: if_splits)

lemma al_inv_New [store_inv, simp]: "al_inv NewAllowList"
  by (simp add: al_inv_def NewAllowList_def)

lemma al_inv_Replace [store_inv]: "al_inv a \<Longrightarrow> al_inv (fst (al_Replace now t nodes a))"
  by (auto simp: al_inv_def al_Replace_def dest: al_index_entry)

section \<open>The interface the broker relies on\<close>

locale node_registry =
  fixes replace :: "int \<Rightarrow> string \<Rightarrow> 'e list \<Rightarrow> 'a \<Rightarrow> 'a \<times> bool"
    and lookup :: "'a \<Rightarrow> string \<Rightarrow> 'e option"
    and entries :: "'a \<Rightarrow> 'e list"
    and loaded :: "'a \<Rightarrow> bool"
    and tenant :: "'a \<Rightarrow> string"
    and key :: "'e \<Rightarrow> string"
    and invar :: "'a \<Rightarrow> bool"
  assumes invar_replace: "invar a \<Longrightarrow> invar (fst (replace now t ns a))"
    and lookup_entry: "invar a \<Longrightarrow> lookup a k = Some e \<longleftrightarrow> e \<in> set (entries a) \<and> key e = k"
    and refused: "replace now t ns a = (a', False) \<Longrightarrow> a' = a"
    and applied: "replace now t ns a = (a', True) \<Longrightarrow>
        loaded a' \<and> tenant a' = t \<and> set (entries a') \<subseteq> set ns"
    and applied_all: "replace now t ns a = (a', True) \<Longrightarrow> key ` set ns \<subseteq> key ` set (entries a')"
    and tenant_fixed: "loaded a \<Longrightarrow> replace now t ns a = (a', True) \<Longrightarrow> t = tenant a"
begin

text \<open>After an accepted snapshot, the keys that may connect are exactly those of the snapshot.\<close>

lemma admitted_keys:
  assumes "invar a" and "replace now t ns a = (a', True)"
  shows "{k. lookup a' k \<noteq> None} = key ` set ns"
proof -
  have inv: "invar a'" using invar_replace [OF assms(1), of now t ns] assms(2) by simp
  have "{k. lookup a' k \<noteq> None} = key ` set (entries a')" using lookup_entry [OF inv] by auto
  also have "\<dots> = key ` set ns" using applied [OF assms(2)] applied_all [OF assms(2)] by blast
  finally show ?thesis .
qed

lemma revoked_key:
  "invar a \<Longrightarrow> replace now t ns a = (a', True) \<Longrightarrow> k \<notin> key ` set ns \<Longrightarrow> lookup a' k = None"
  using admitted_keys [of a now t ns a'] by auto

text \<open>A run of snapshots, accepted or not, keeps the first tenant it accepted.\<close>

lemma loaded_replace: "loaded a \<Longrightarrow> loaded (fst (replace now t ns a))"
  using refused [of now t ns a] applied [of now t ns a] by (cases "replace now t ns a") auto

lemma tenant_replace: "loaded a \<Longrightarrow> tenant (fst (replace now t ns a)) = tenant a"
  using refused [of now t ns a] applied [of now t ns a] tenant_fixed [of a now t ns]
  by (cases "replace now t ns a"; cases "snd (replace now t ns a)") auto

lemma snapshots_keep:
  "loaded a \<Longrightarrow> invar a \<Longrightarrow>
    (let z = foldl (\<lambda>a (now, t, ns). fst (replace now t ns a)) a ss
     in loaded z \<and> tenant z = tenant a \<and> invar z)"
proof (induction ss arbitrary: a)
  case (Cons s ss)
  obtain now t ns where s: "s = (now, t, ns)" by (cases s)
  show ?case
    using Cons.IH [of "fst (replace now t ns a)"] Cons.prems
    by (simp add: s loaded_replace tenant_replace invar_replace)
qed simp

end

interpretation al: node_registry al_Replace al_Lookup al_Entries al_Loaded al_Tenant
  ne_SPKIFingerprint al_inv
proof unfold_locales
  fix now t ns a a' k e
  show "al_inv a \<Longrightarrow> al_inv (fst (al_Replace now t ns a))" by (rule al_inv_Replace)
  show "al_inv a \<Longrightarrow> al_Lookup a k = Some e \<longleftrightarrow> e \<in> set (al_Entries a) \<and> ne_SPKIFingerprint e = k"
    by (force simp: al_inv_def al_Lookup_def al_Entries_def gm_wf_map_of [symmetric])
  show "al_Replace now t ns a = (a', False) \<Longrightarrow> a' = a" by (auto dest: al_Replace_eq)
  show "al_Replace now t ns a = (a', True) \<Longrightarrow>
      al_Loaded a' \<and> al_Tenant a' = t \<and> set (al_Entries a') \<subseteq> set ns"
    by (auto simp: al_Loaded_def al_Tenant_def al_Entries_def
        dest!: al_Replace_eq dest: al_index_entry)
  show "al_Replace now t ns a = (a', True) \<Longrightarrow>
      ne_SPKIFingerprint ` set ns \<subseteq> ne_SPKIFingerprint ` set (al_Entries a')"
  proof
    fix x assume r: "al_Replace now t ns a = (a', True)" and "x \<in> ne_SPKIFingerprint ` set ns"
    then have "gm_load (al_index ns) x \<noteq> None" by (auto simp: al_index_load_None)
    then obtain e where "(x, e) \<in> set (al_index ns)" by (auto dest: gm_load_in_set)
    then show "x \<in> ne_SPKIFingerprint ` set (al_Entries a')"
      using r by (force simp: al_Entries_def dest!: al_Replace_eq dest: al_index_entry)
  qed
  show "al_Loaded a \<Longrightarrow> al_Replace now t ns a = (a', True) \<Longrightarrow> t = al_Tenant a"
    by (auto simp: al_Loaded_def al_Tenant_def dest: al_Replace_eq)
qed

lemma al_Size_Entries: "al_Size a = length (al_Entries a)"
  by (simp add: al_Size_def al_Entries_def)

section \<open>Runs of snapshots\<close>

text \<open>
  What a process does with its list over its life: every fetched snapshot is offered to
  \<open>al_Replace\<close>. The list it holds is the one of the last snapshot that names the first tenant.
\<close>

type_synonym snapshot = "int \<times> string \<times> NodeEntry list"

definition al_run :: "snapshot list \<Rightarrow> AllowList \<Rightarrow> AllowList" where
  "al_run ss a = foldl (\<lambda>a (now, t, ns). fst (al_Replace now t ns a)) a ss"

definition first_tenant :: "snapshot list \<Rightarrow> string" where
  "first_tenant ss = (case find (\<lambda>(_, t, _). t \<noteq> []) ss of None \<Rightarrow> [] | Some (_, t, _) \<Rightarrow> t)"

definition last_snapshot :: "string \<Rightarrow> snapshot list \<Rightarrow> NodeEntry list" where
  "last_snapshot t ss = (case find (\<lambda>(_, u, _). u = t) (rev ss) of None \<Rightarrow> [] | Some (_, _, ns) \<Rightarrow> ns)"

lemma al_run_snoc:
  "al_run (ss @ [(now, t, ns)]) a = fst (al_Replace now t ns (al_run ss a))"
  by (simp add: al_run_def)

lemma al_run_inv [store_inv]: "al_inv a \<Longrightarrow> al_inv (al_run ss a)"
  by (induction ss rule: rev_induct) (auto simp: al_run_snoc al_inv_Replace, simp add: al_run_def)

lemma first_tenant_snoc:
  "first_tenant (ss @ [(now, t, ns)]) = (if first_tenant ss = [] then t else first_tenant ss)"
  unfolding first_tenant_def by (induction ss) (auto split: option.splits prod.splits)

lemma last_snapshot_snoc:
  "last_snapshot u (ss @ [(now, t, ns)]) = (if t = u then ns else last_snapshot u ss)"
  by (simp add: last_snapshot_def)

lemma last_snapshot_first:
  "first_tenant ss = [] \<Longrightarrow> t \<noteq> [] \<Longrightarrow> last_snapshot t ss = []"
proof (induction ss rule: rev_induct)
  case (snoc s ss)
  then show ?case
    by (cases s) (auto simp: first_tenant_snoc last_snapshot_snoc split: if_splits)
qed (simp add: last_snapshot_def)

lemma al_run_state:
  "let a = al_run ss NewAllowList; t = first_tenant ss in
     al_loaded a = (t \<noteq> []) \<and> al_tenant a = t \<and>
     al_bySPKI a = (if t = [] then [] else al_index (last_snapshot t ss))"
proof (induction ss rule: rev_induct)
  case Nil
  show ?case by (simp add: al_run_def NewAllowList_def first_tenant_def)
next
  case (snoc s ss)
  obtain now t ns where s: "s = (now, t, ns)" by (cases s)
  show ?case
    using snoc
    by (auto simp: s Let_def al_run_snoc al_Replace_def first_tenant_snoc last_snapshot_snoc)
qed

text \<open>C36: The list a process holds after any run of snapshots is the one of the last snapshot of
  the first tenant it saw: a snapshot of another tenant, or of none, never changes it, an empty
  snapshot of that tenant empties it, and within a snapshot the last entry of a key wins.\<close>

theorem allow_list_is_last_snapshot:
  "al_Tenant (al_run ss NewAllowList) = first_tenant ss \<and>
   al_Loaded (al_run ss NewAllowList) = (first_tenant ss \<noteq> []) \<and>
   al_Lookup (al_run ss NewAllowList) k =
     (if first_tenant ss = [] then None
      else find (\<lambda>n. ne_SPKIFingerprint n = k) (rev (last_snapshot (first_tenant ss) ss)))"
  using al_run_state [of ss]
  by (simp add: Let_def al_Tenant_def al_Loaded_def al_Lookup_def al_index_load)

text \<open>An accepted snapshot is authoritative: afterwards a key is admitted exactly when the
  snapshot lists it, so a key the snapshot leaves out is refused at the next handshake.\<close>

theorem snapshot_is_authoritative:
  assumes "al_inv a" and "al_Replace now t ns a = (a', True)"
  shows "al_Lookup a' k \<noteq> None \<longleftrightarrow> k \<in> ne_SPKIFingerprint ` set ns"
  using al.admitted_keys [OF assms] by blast

definition example_node :: "string \<Rightarrow> string \<Rightarrow> NodeEntry" where
  "example_node svid spki = \<lparr>ne_SVID = svid, ne_SPKIFingerprint = spki, ne_BoundName = ''db'',
     ne_Description = ''the database'', ne_NotAfter = []\<rparr>"

theorem snapshot_is_authoritative_witness:
  "al_Lookup (fst (al_Replace 7 ''prod'' [example_node ''spiffe://t/prod/node/a'' ''k1'']
     NewAllowList)) ''k1'' \<noteq> None \<and>
   al_Lookup (fst (al_Replace 7 ''prod'' [example_node ''spiffe://t/prod/node/a'' ''k1'']
     NewAllowList)) ''k2'' = None"
proof -
  let ?ns = "[example_node ''spiffe://t/prod/node/a'' ''k1'']"
  let ?r = "al_Replace 7 ''prod'' ?ns NewAllowList"
  have r: "?r = (fst ?r, True)" by (simp add: al_Replace_def NewAllowList_def)
  have "al_Lookup (fst ?r) k \<noteq> None \<longleftrightarrow> k = ''k1''" for k
    using snapshot_is_authoritative [OF al_inv_New r, of k] by (simp add: example_node_def)
  from this [of "''k1''"] this [of "''k2''"] show ?thesis by simp
qed

end
