(* ===== verification/CallLog.thy ===== *)
theory CallLog
  imports Json
begin

text \<open>
  \<open>calllog.go\<close>: the bounded buffer of audit events that waits to be shipped to the tower. The
  locale \<open>event_buffer\<close> is what the two shippers of \<open>main.go\<close> (theory \<open>Shipping\<close>) rely on.
\<close>

section \<open>Events\<close>

text \<open>The optional exit code \<open>RC\<close> is a pointer in the source.\<close>

record callEvent =
  ev_Phase :: string
  ev_RequestID :: string
  ev_TS :: string
  ev_UPN :: string
  ev_OID :: string
  ev_TID :: string
  ev_App :: string
  ev_AppName :: string
  ev_Verb :: string
  ev_Node :: string
  ev_SVID :: string
  ev_Allowed :: bool
  ev_Reason :: string
  ev_Status :: string
  ev_Detail :: string
  ev_HTTPStatus :: int
  ev_RC :: "int option"
  ev_DurMs :: int
  ev_Output :: string
  ev_Truncated :: bool

definition zero_event :: callEvent where
  "zero_event = \<lparr>ev_Phase = [], ev_RequestID = [], ev_TS = [], ev_UPN = [], ev_OID = [],
     ev_TID = [], ev_App = [], ev_AppName = [], ev_Verb = [], ev_Node = [], ev_SVID = [],
     ev_Allowed = False, ev_Reason = [], ev_Status = [], ev_Detail = [], ev_HTTPStatus = 0,
     ev_RC = None, ev_DurMs = 0, ev_Output = [], ev_Truncated = False\<rparr>"

section \<open>The buffer\<close>

text \<open>
  The element type is left open: no operation looks inside an event. \<open>cl_notify\<close> says whether the
  channel of capacity one holds a signal.
\<close>

record 'e CallLog =
  cl_buf :: "'e list"
  cl_max :: int
  cl_notify :: bool

definition NewCallLog :: "int \<Rightarrow> 'e CallLog" where
  "NewCallLog m = \<lparr>cl_buf = [], cl_max = (if m \<le> 0 then 2000 else m), cl_notify = False\<rparr>"

definition cl_Add :: "'e \<Rightarrow> 'e CallLog \<Rightarrow> 'e CallLog" where
  "cl_Add e c =
     (let b = (if cl_max c \<le> int (length (cl_buf c)) then tl (cl_buf c) else cl_buf c)
      in c\<lparr>cl_buf := b @ [e], cl_notify := True\<rparr>)"

definition cl_Drain :: "'e CallLog \<Rightarrow> 'e list \<times> 'e CallLog" where
  "cl_Drain c = (if cl_buf c = [] then ([], c) else (cl_buf c, c\<lparr>cl_buf := []\<rparr>))"

definition cl_Requeue :: "'e list \<Rightarrow> 'e CallLog \<Rightarrow> 'e CallLog" where
  "cl_Requeue evs c =
     (if evs = [] then c
      else (let merged = evs @ cl_buf c in
        c\<lparr>cl_buf := (if cl_max c < int (length merged)
            then drop (nat (int (length merged) - cl_max c)) merged else merged)\<rparr>))"

text \<open>Receiving from the channel takes the signal away.\<close>

definition cl_Receive :: "'e CallLog \<Rightarrow> 'e CallLog option" where
  "cl_Receive c = (if cl_notify c then Some (c\<lparr>cl_notify := False\<rparr>) else None)"

definition cl_inv :: "'e CallLog \<Rightarrow> bool" where
  "cl_inv c \<longleftrightarrow> 0 < cl_max c \<and> int (length (cl_buf c)) \<le> cl_max c"

definition cl_cap :: "'e CallLog \<Rightarrow> nat" where
  "cl_cap c = nat (cl_max c)"

lemma cl_inv_New [store_inv, simp]: "cl_inv (NewCallLog m)"
  by (simp add: cl_inv_def NewCallLog_def)

lemma cl_inv_Add [store_inv]: "cl_inv c \<Longrightarrow> cl_inv (cl_Add e c)"
  by (auto simp: cl_inv_def cl_Add_def Let_def)

lemma cl_inv_Drain [store_inv]: "cl_inv c \<Longrightarrow> cl_inv (snd (cl_Drain c))"
  by (auto simp: cl_inv_def cl_Drain_def)

lemma cl_inv_Requeue [store_inv]: "cl_inv c \<Longrightarrow> cl_inv (cl_Requeue evs c)"
  by (auto simp: cl_inv_def cl_Requeue_def Let_def)

text \<open>The operations on the abstract buffer: the last \<open>cl_cap\<close> elements of a list.\<close>

lemma cl_Add_buf: "cl_inv c \<Longrightarrow> cl_buf (cl_Add e c) = lastn (cl_cap c) (cl_buf c @ [e])"
  by (cases "cl_buf c") (auto simp: cl_inv_def cl_Add_def cl_cap_def lastn_def Let_def
      nat_eq_iff2 le_nat_iff Suc_diff_le)

lemma cl_Requeue_buf:
  assumes "cl_inv c"
  shows "cl_buf (cl_Requeue evs c) = lastn (cl_cap c) (evs @ cl_buf c)"
proof -
  have "nat (int n - cl_max c) = n - nat (cl_max c)" for n
    using assms by (simp add: cl_inv_def nat_diff_distrib')
  then show ?thesis
    using assms by (auto simp: cl_inv_def cl_Requeue_def cl_cap_def lastn_def Let_def
        simp del: of_nat_add length_append)
qed

lemma cl_cap_simps [simp]:
  "cl_cap (cl_Add e c) = cl_cap c" "cl_cap (snd (cl_Drain c)) = cl_cap c"
  "cl_cap (cl_Requeue evs c) = cl_cap c"
  by (auto simp: cl_cap_def cl_Add_def cl_Drain_def cl_Requeue_def Let_def)

lemma cl_Drain_buf: "cl_Drain c = (b, c') \<Longrightarrow> b = cl_buf c \<and> cl_buf c' = []"
  by (auto simp: cl_Drain_def split: if_splits)

section \<open>What a call did\<close>

text \<open>The answer of a node (\<open>injectResult\<close> of \<open>broker.go\<close>) and its one-line form.\<close>

record injectResult =
  ir_StatusCode :: int
  ir_Body :: string

definition ir_Summary :: "injectResult \<Rightarrow> string" where
  "ir_Summary r = ''HTTP '' @ Itoa (ir_StatusCode r) @ '' '' @ ir_Body r"

definition auditOutputCap :: nat where
  "auditOutputCap = 65536"

text \<open>A pointer field of a decoded struct: absent or null is \<open>nil\<close>, a value of another type fails.\<close>

fun opt_int :: "json option \<Rightarrow> int option option" where
  "opt_int None = Some None"
| "opt_int (Some JNull) = Some None"
| "opt_int (Some (JInt n)) = (if - (2 ^ 63) \<le> n \<and> n < 2 ^ 63 then Some (Some n) else None)"
| "opt_int _ = None"

fun opt_float :: "json option \<Rightarrow> rat option option" where
  "opt_float None = Some None"
| "opt_float (Some JNull) = Some None"
| "opt_float (Some (JInt n)) = Some (Some (fl64 (of_int n)))"
| "opt_float (Some (JFlt q)) = Some (Some (fl64 q))"
| "opt_float _ = None"

text \<open>
  The members of an object that match a pointer field, in their order: each sets it anew, and one of
  another type makes the decoding fail.
\<close>

fun ptr_field :: "(json option \<Rightarrow> 'a option option) \<Rightarrow> string \<Rightarrow> jobj \<Rightarrow> 'a option \<Rightarrow>
    'a option option" where
  "ptr_field conv k [] acc = Some acc"
| "ptr_field conv k ((n, v) # ob) acc =
     (if fold_key n \<noteq> k then ptr_field conv k ob acc
      else case conv (Some v) of None \<Rightarrow> None | Some x \<Rightarrow> ptr_field conv k ob x)"

text \<open>\<open>split_status\<close> takes the status line apart; \<open>run_outcome\<close> reads \<open>rc\<close> and \<open>dur\<close>.\<close>

definition split_status :: "string \<Rightarrow> int option \<times> string" where
  "split_status out =
     (if HasPrefix out ''HTTP '' then
        (let rest = drop 5 out in
         case IndexByte rest (CHR '' '') of None \<Rightarrow> (None, out)
         | Some sp \<Rightarrow> (case Atoi (take sp rest) of None \<Rightarrow> (None, out)
             | Some code \<Rightarrow> (Some code, drop (sp + 1) rest)))
      else (None, out))"

definition run_outcome :: "(string \<Rightarrow> json option) \<Rightarrow> string \<Rightarrow> (int option \<times> rat option) option" where
  "run_outcome unmarshal body =
     (case IndexByte body (CHR ''{'') of None \<Rightarrow> None
      | Some i \<Rightarrow> (case unmarshal (drop i body) of
          Some (JObj ob) \<Rightarrow> (case (ptr_field opt_int ''rc'' ob None, ptr_field opt_float ''dur'' ob None) of
              (Some rc, Some dur) \<Rightarrow> Some (rc, dur) | _ \<Rightarrow> None)
        | _ \<Rightarrow> None))"

definition ev_captureResult :: "(string \<Rightarrow> json option) \<Rightarrow> string \<Rightarrow> callEvent \<Rightarrow> callEvent" where
  "ev_captureResult unmarshal injectOut e =
     (let (code, body) = split_status injectOut;
          e = (case code of None \<Rightarrow> e | Some c \<Rightarrow> e\<lparr>ev_HTTPStatus := c\<rparr>);
          e = (if auditOutputCap < length body
               then e\<lparr>ev_Output := take auditOutputCap body, ev_Truncated := True\<rparr>
               else e\<lparr>ev_Output := body\<rparr>)
      in case run_outcome unmarshal body of None \<Rightarrow> e
         | Some (rc, dur) \<Rightarrow> (case dur of None \<Rightarrow> e\<lparr>ev_RC := rc\<rparr>
             | Some d \<Rightarrow> e\<lparr>ev_RC := rc, ev_DurMs := trunc (fl64 (d * 1000))\<rparr>))"

lemma split_status_Summary:
  assumes "- (2 ^ 63) \<le> ir_StatusCode r" and "ir_StatusCode r < 2 ^ 63"
  shows "split_status (ir_Summary r) = (Some (ir_StatusCode r), ir_Body r)"
proof -
  let ?c = "Itoa (ir_StatusCode r)"
  have i: "IndexByte (?c @ CHR '' '' # ir_Body r) CHR '' '' = Some (length ?c)"
    by (rule IndexByte_append) (rule Itoa_no_space)
  have a: "Atoi ?c = Some (ir_StatusCode r)" by (rule Atoi_Itoa [OF assms])
  show ?thesis by (simp add: split_status_def ir_Summary_def HasPrefix_def Let_def i a)
qed

lemma ev_captureResult_identity [simp]:
  "ev_RequestID (ev_captureResult um out e) = ev_RequestID e"
  "ev_Phase (ev_captureResult um out e) = ev_Phase e"
  "ev_Status (ev_captureResult um out e) = ev_Status e"
  "ev_Allowed (ev_captureResult um out e) = ev_Allowed e"
  "ev_OID (ev_captureResult um out e) = ev_OID e"
  "ev_SVID (ev_captureResult um out e) = ev_SVID e"
  "ev_Verb (ev_captureResult um out e) = ev_Verb e"
  "ev_UPN (ev_captureResult um out e) = ev_UPN e"
  by (simp_all add: ev_captureResult_def Let_def split: prod.splits option.splits)

text \<open>The audit record of a relayed answer carries the status of the node and the first 64 KiB
  of the body, and is flagged as truncated exactly when the body is longer.\<close>

theorem audit_record_of_answer:
  assumes "- (2 ^ 63) \<le> ir_StatusCode r" and "ir_StatusCode r < 2 ^ 63" and "\<not> ev_Truncated e"
  shows "ev_HTTPStatus (ev_captureResult um (ir_Summary r) e) = ir_StatusCode r \<and>
    ev_Output (ev_captureResult um (ir_Summary r) e) = take auditOutputCap (ir_Body r) \<and>
    (ev_Truncated (ev_captureResult um (ir_Summary r) e) \<longleftrightarrow> auditOutputCap < length (ir_Body r))"
  using split_status_Summary [OF assms(1,2)] assms(3)
  by (auto simp: ev_captureResult_def Let_def split: option.splits prod.splits)

theorem audit_record_of_answer_witness:
  "ev_HTTPStatus (ev_captureResult (\<lambda>_. None)
     (ir_Summary \<lparr>ir_StatusCode = 200, ir_Body = ''ok''\<rparr>) zero_event) = 200 \<and>
   ev_Output (ev_captureResult (\<lambda>_. None)
     (ir_Summary \<lparr>ir_StatusCode = 200, ir_Body = ''ok''\<rparr>) zero_event) = ''ok''"
  using audit_record_of_answer [of "\<lparr>ir_StatusCode = 200, ir_Body = ''ok''\<rparr>" zero_event "\<lambda>_. None"]
  by (simp add: zero_event_def auditOutputCap_def)

section \<open>The interface of a bounded event buffer\<close>

text \<open>
  What a shipper may assume: \<open>contents\<close> is the abstract buffer, every operation keeps at most the
  last \<open>cap\<close> events of what it would hold, and draining empties it.
\<close>

locale event_buffer =
  fixes add :: "'e \<Rightarrow> 'b \<Rightarrow> 'b"
    and drain :: "'b \<Rightarrow> 'e list \<times> 'b"
    and requeue :: "'e list \<Rightarrow> 'b \<Rightarrow> 'b"
    and contents :: "'b \<Rightarrow> 'e list"
    and cap :: "'b \<Rightarrow> nat"
    and invar :: "'b \<Rightarrow> bool"
  assumes invar_add: "invar b \<Longrightarrow> invar (add e b)"
    and invar_drain: "invar b \<Longrightarrow> invar (snd (drain b))"
    and invar_requeue: "invar b \<Longrightarrow> invar (requeue es b)"
    and cap_add: "cap (add e b) = cap b"
    and cap_drain: "cap (snd (drain b)) = cap b"
    and cap_requeue: "cap (requeue es b) = cap b"
    and contents_add: "invar b \<Longrightarrow> contents (add e b) = lastn (cap b) (contents b @ [e])"
    and contents_drain: "fst (drain b) = contents b" "contents (snd (drain b)) = []"
    and contents_requeue: "invar b \<Longrightarrow> contents (requeue es b) = lastn (cap b) (es @ contents b)"
    and bounded: "invar b \<Longrightarrow> length (contents b) \<le> cap b"
begin

lemma add_all:
  "invar b \<Longrightarrow>
    contents (foldl (\<lambda>b e. add e b) b es) = lastn (cap b) (contents b @ es) \<and>
    cap (foldl (\<lambda>b e. add e b) b es) = cap b \<and> invar (foldl (\<lambda>b e. add e b) b es)"
proof (induction es rule: rev_induct)
  case Nil
  then show ?case by (simp add: bounded)
next
  case (snoc e es)
  then show ?case by (simp add: contents_add cap_add invar_add)
qed

text \<open>
  A failed shipment, with any number of events recorded while it was under way, leaves the buffer
  as if the shipment had never been tried: nothing but the oldest events beyond \<open>cap\<close> is lost, and
  the order is that of arrival.
\<close>

lemma failed_shipment:
  assumes "invar b"
  shows "contents (requeue (fst (drain b)) (foldl (\<lambda>b e. add e b) (snd (drain b)) es)) =
    lastn (cap b) (contents b @ es)"
proof -
  let ?z = "foldl (\<lambda>b e. add e b) (snd (drain b)) es"
  have z: "contents ?z = lastn (cap b) es" "cap ?z = cap b" "invar ?z"
    using add_all [OF invar_drain [OF assms], of es] by (simp_all add: contents_drain cap_drain)
  have "contents (requeue (fst (drain b)) ?z) = lastn (cap b) (contents b @ lastn (cap b) es)"
    by (simp add: contents_requeue z contents_drain)
  also have "\<dots> = lastn (cap b) (contents b @ es)"
    by (simp add: lastn_append_lastn)
  finally show ?thesis .
qed

end

interpretation cl: event_buffer cl_Add cl_Drain cl_Requeue cl_buf cl_cap cl_inv
proof unfold_locales
  fix b :: "'e CallLog" and e es
  show "cl_inv b \<Longrightarrow> cl_inv (cl_Add e b)" by (rule cl_inv_Add)
  show "cl_inv b \<Longrightarrow> cl_inv (snd (cl_Drain b))" by (rule cl_inv_Drain)
  show "cl_inv b \<Longrightarrow> cl_inv (cl_Requeue es b)" by (rule cl_inv_Requeue)
  show "cl_inv b \<Longrightarrow> cl_buf (cl_Add e b) = lastn (cl_cap b) (cl_buf b @ [e])" by (rule cl_Add_buf)
  show "fst (cl_Drain b) = cl_buf b" "cl_buf (snd (cl_Drain b)) = []" by (simp_all add: cl_Drain_def)
  show "cl_inv b \<Longrightarrow> cl_buf (cl_Requeue es b) = lastn (cl_cap b) (es @ cl_buf b)"
    by (rule cl_Requeue_buf)
  show "cl_inv b \<Longrightarrow> length (cl_buf b) \<le> cl_cap b"
    by (auto simp: cl_inv_def cl_cap_def le_nat_iff)
qed simp_all

end
