(* ===== verification/Shipping.thy ===== *)
theory Shipping
  imports CallLog
begin

text \<open>
  The two loops of \<open>serve\<close> in \<open>main.go\<close> that empty the audit buffer: the heartbeat, which ships the
  drained batch with its report, and the low-latency shipper. Both put the batch back when the
  tower does not take it. They run beside each other and beside the handlers that record events,
  so the system is a step relation: between a drain and the outcome of its shipment anything may
  happen. \<open>sh_added\<close>, \<open>sh_delivered\<close> and \<open>sh_dropped\<close> are history variables.
\<close>

section \<open>One round of a shipper, undisturbed\<close>

definition fast_ship :: "('e list \<Rightarrow> bool) \<Rightarrow> 'e CallLog \<Rightarrow> 'e list \<times> 'e CallLog" where
  "fast_ship takes c =
     (let (batch, c1) = cl_Drain c in
      if batch = [] then ([], c1)
      else if takes batch then (batch, c1) else ([], cl_Requeue batch c1))"

definition heartbeat_ship :: "('e list \<Rightarrow> bool) \<Rightarrow> 'e CallLog \<Rightarrow> 'e list \<times> 'e CallLog" where
  "heartbeat_ship takes c =
     (let (batch, c1) = cl_Drain c in
      if takes batch then (batch, c1) else ([], cl_Requeue batch c1))"

section \<open>The interleaved system\<close>

datatype shipper = Heartbeat | Fast

record 'e shipping =
  sh_log :: "'e CallLog"
  sh_flight :: "shipper \<Rightarrow> 'e list option"
  sh_added :: "'e list"
  sh_delivered :: "'e list"
  sh_dropped :: "'e list"

definition sh_init :: "int \<Rightarrow> 'e shipping" where
  "sh_init m = \<lparr>sh_log = NewCallLog m, sh_flight = (\<lambda>_. None), sh_added = [],
     sh_delivered = [], sh_dropped = []\<rparr>"

text \<open>What the bound takes away from a list of events.\<close>

definition overflow :: "'e CallLog \<Rightarrow> 'e list \<Rightarrow> 'e list" where
  "overflow c es = take (length es - cl_cap c) es"

inductive ship_step :: "'e shipping \<Rightarrow> 'e shipping \<Rightarrow> bool" where
  record_event: "ship_step s (s\<lparr>sh_log := cl_Add e (sh_log s), sh_added := sh_added s @ [e],
     sh_dropped := sh_dropped s @ overflow (sh_log s) (cl_buf (sh_log s) @ [e])\<rparr>)"
| receive: "cl_Receive (sh_log s) = Some c \<Longrightarrow> ship_step s (s\<lparr>sh_log := c\<rparr>)"
| drain: "sh_flight s w = None \<Longrightarrow> cl_Drain (sh_log s) = (batch, c) \<Longrightarrow>
     ship_step s (s\<lparr>sh_log := c, sh_flight := (sh_flight s)(w := Some batch)\<rparr>)"
| taken: "sh_flight s w = Some batch \<Longrightarrow>
     ship_step s (s\<lparr>sh_flight := (sh_flight s)(w := None), sh_delivered := sh_delivered s @ batch\<rparr>)"
| refused: "sh_flight s w = Some batch \<Longrightarrow>
     ship_step s (s\<lparr>sh_flight := (sh_flight s)(w := None), sh_log := cl_Requeue batch (sh_log s),
       sh_dropped := sh_dropped s @ overflow (sh_log s) (batch @ cl_buf (sh_log s))\<rparr>)"

inductive ship_reachable :: "int \<Rightarrow> 'e shipping \<Rightarrow> bool" for m where
  start: "ship_reachable m (sh_init m)"
| step: "ship_reachable m s \<Longrightarrow> ship_step s t \<Longrightarrow> ship_reachable m t"

inductive_cases ship_stepE: "ship_step s t"

definition in_flight :: "'e shipping \<Rightarrow> shipper \<Rightarrow> 'e list" where
  "in_flight s w = (case sh_flight s w of None \<Rightarrow> [] | Some b \<Rightarrow> b)"

definition outstanding :: "'e shipping \<Rightarrow> 'e multiset" where
  "outstanding s = mset (cl_buf (sh_log s)) + mset (in_flight s Heartbeat) + mset (in_flight s Fast)"

text \<open>The invariant: every recorded event is delivered, dropped by the bound, or still held.\<close>

definition ship_inv :: "'e shipping \<Rightarrow> bool" where
  "ship_inv s \<longleftrightarrow> cl_inv (sh_log s) \<and>
     mset (sh_added s) = mset (sh_delivered s) + mset (sh_dropped s) + outstanding s"

lemma overflow_lastn: "mset es = mset (overflow c es) + mset (lastn (cl_cap c) es)"
  by (metis overflow_def take_lastn mset_append)

lemma cl_Receive_buf: "cl_Receive c = Some c' \<Longrightarrow> cl_buf c' = cl_buf c \<and> (cl_inv c' \<longleftrightarrow> cl_inv c)"
  by (auto simp: cl_Receive_def cl_inv_def split: if_splits)

lemma ship_inv_init [store_inv]: "ship_inv (sh_init m)"
  by (simp add: ship_inv_def sh_init_def outstanding_def in_flight_def) (simp add: NewCallLog_def)

lemma ship_inv_step [store_inv]:
  assumes "ship_step s t" and "ship_inv s"
  shows "ship_inv t"
  using assms
proof (cases rule: ship_step.cases)
  case (record_event e)
  have "mset (cl_buf (sh_log s) @ [e]) =
      mset (overflow (sh_log s) (cl_buf (sh_log s) @ [e])) + mset (cl_buf (cl_Add e (sh_log s)))"
    using assms(2) overflow_lastn by (metis cl_Add_buf ship_inv_def)
  then show ?thesis
    using assms(2) record_event
    by (simp add: ship_inv_def outstanding_def in_flight_def cl_inv_Add ac_simps)
next
  case (receive c)
  then show ?thesis
    using assms(2) cl_Receive_buf [OF receive(2)]
    by (simp add: ship_inv_def outstanding_def in_flight_def)
next
  case (drain w batch c)
  have "cl_inv c" "batch = cl_buf (sh_log s)" "cl_buf c = []"
    using assms(2) drain(3) cl_inv_Drain [of "sh_log s"] cl_Drain_buf [of "sh_log s"]
    by (auto simp: ship_inv_def)
  then show ?thesis
    using assms(2) drain(1,2)
    by (cases w) (auto simp: ship_inv_def outstanding_def in_flight_def)
next
  case (taken w batch)
  then show ?thesis
    using assms(2) by (cases w) (auto simp: ship_inv_def outstanding_def in_flight_def)
next
  case (refused w batch)
  have "mset (batch @ cl_buf (sh_log s)) =
      mset (overflow (sh_log s) (batch @ cl_buf (sh_log s))) +
      mset (cl_buf (cl_Requeue batch (sh_log s)))"
    using assms(2) overflow_lastn by (metis cl_Requeue_buf ship_inv_def)
  then show ?thesis
    using assms(2) refused
    by (cases w) (auto simp: ship_inv_def outstanding_def in_flight_def cl_inv_Requeue ac_simps)
qed

lemma ship_reachable_inv: "ship_reachable m s \<Longrightarrow> ship_inv s"
  by (induction rule: ship_reachable.induct) (auto intro: ship_inv_init ship_inv_step)

text \<open>An undisturbed round is a run of the system.\<close>

lemma fast_ship_steps:
  assumes "sh_flight s Fast = None" and "fast_ship takes (sh_log s) = (batch, c)" and "batch \<noteq> []"
  shows "\<exists>t u. ship_step s t \<and> ship_step t u \<and> sh_log u = c \<and> sh_delivered u = sh_delivered s @ batch"
proof -
  have d: "cl_Drain (sh_log s) = (batch, c)"
    using assms(2,3) by (auto simp: fast_ship_def Let_def split: prod.splits if_splits)
  let ?t = "s\<lparr>sh_log := c, sh_flight := (sh_flight s)(Fast := Some batch)\<rparr>"
  have "ship_step s ?t" using assms(1) d by (rule ship_step.drain)
  moreover have "ship_step ?t (?t\<lparr>sh_flight := (sh_flight ?t)(Fast := None),
      sh_delivered := sh_delivered ?t @ batch\<rparr>)"
    by (rule ship_step.taken) simp
  ultimately show ?thesis by (intro exI [of _ ?t] exI conjI) auto
qed

section \<open>Properties\<close>

lemma overflow_short: "length es \<le> cl_cap c \<Longrightarrow> overflow c es = []"
  by (simp add: overflow_def)

text \<open>C40: Whatever the interleaving of handlers and shippers, every recorded audit event is
  delivered, or was dropped by the bound, or is still in the buffer or in a shipment under way, each
  exactly once, and the buffer never holds more than its capacity.\<close>

theorem audit_events_conserved:
  assumes "ship_reachable m s"
  shows "mset (sh_added s) = mset (sh_delivered s) + mset (sh_dropped s) + outstanding s \<and>
    length (cl_buf (sh_log s)) \<le> cl_cap (sh_log s)"
  using ship_reachable_inv [OF assms] cl.bounded by (auto simp: ship_inv_def)

theorem audit_events_conserved_witness:
  "\<exists>s :: nat shipping. ship_reachable 3 s \<and> sh_added s = [7] \<and>
     mset (sh_added s) = mset (sh_delivered s) + mset (sh_dropped s) + outstanding s"
proof -
  let ?i = "sh_init 3 :: nat shipping"
  let ?s = "?i\<lparr>sh_log := cl_Add 7 (sh_log ?i), sh_added := sh_added ?i @ [7],
     sh_dropped := sh_dropped ?i @ overflow (sh_log ?i) (cl_buf (sh_log ?i) @ [7])\<rparr>"
  have r: "ship_reachable 3 ?s"
    by (rule ship_reachable.step [OF ship_reachable.start]) (rule ship_step.record_event)
  have "sh_added ?s = [7]" by (simp add: sh_init_def)
  with r audit_events_conserved [OF r] show ?thesis by blast
qed

text \<open>Only the bound ever costs an event: a step of the system that starts with fewer events
  outstanding than the capacity drops none, whether it records an event or puts a refused batch
  back.\<close>

theorem no_drop_below_capacity:
  assumes "ship_step s t" and "ship_inv s" and "size (outstanding s) < cl_cap (sh_log s)"
  shows "sh_dropped t = sh_dropped s"
  using assms(1)
proof (cases rule: ship_step.cases)
  case (record_event e)
  have "length (cl_buf (sh_log s) @ [e]) \<le> cl_cap (sh_log s)"
    using assms(3) by (simp add: outstanding_def)
  then show ?thesis using record_event by (simp add: overflow_short)
next
  case (refused w batch)
  have "length (batch @ cl_buf (sh_log s)) \<le> size (outstanding s)"
    using refused(2) by (cases w) (simp_all add: outstanding_def in_flight_def)
  then show ?thesis using refused assms(3) by (simp add: overflow_short)
qed simp_all

theorem no_drop_below_capacity_witness:
  "sh_dropped ((sh_init 3 :: nat shipping)\<lparr>sh_log := cl_Add 7 (sh_log (sh_init 3)),
     sh_added := sh_added (sh_init 3) @ [7],
     sh_dropped := sh_dropped (sh_init 3) @
       overflow (sh_log (sh_init 3)) (cl_buf (sh_log (sh_init 3)) @ [7])\<rparr>) = []"
proof -
  let ?i = "sh_init 3 :: nat shipping"
  have "size (outstanding ?i) < cl_cap (sh_log ?i)"
    by (simp add: sh_init_def outstanding_def in_flight_def NewCallLog_def cl_cap_def)
  from no_drop_below_capacity [OF ship_step.record_event ship_inv_init this, of 7]
  show ?thesis by (simp add: sh_init_def)
qed

text \<open>A shipment the tower refuses is undone: with any events recorded meanwhile, the buffer
  holds what it would hold had the shipment not been tried, in the order of arrival.\<close>

theorem refused_shipment_is_undone:
  assumes "cl_inv c"
  shows "cl_buf (cl_Requeue (fst (cl_Drain c)) (foldl (\<lambda>c e. cl_Add e c) (snd (cl_Drain c)) es)) =
    lastn (cl_cap c) (cl_buf c @ es)"
  by (rule cl.failed_shipment [OF assms])

theorem refused_shipment_is_undone_witness:
  "cl_buf (cl_Requeue (fst (cl_Drain (cl_Add (1::nat) (NewCallLog 2))))
     (foldl (\<lambda>c e. cl_Add e c) (snd (cl_Drain (cl_Add 1 (NewCallLog 2)))) [2, 3])) = [2, 3]"
  using refused_shipment_is_undone [OF cl_inv_Add [OF cl_inv_New], of 1 2 "[2, 3 :: nat]"]
  by (simp add: cl_Add_def NewCallLog_def cl_cap_def lastn_def)

end
