(* ===== verification/Auth.thy ===== *)
theory Auth
  imports Json
begin

text \<open>
  The token check of \<open>caller.go\<close>: \<open>newValidator\<close>, \<open>audienceOK\<close>, \<open>auth\<close> and their helpers. Parsing
  and verifying the signature of a token is the third-party JWT library: an argument \<open>jwt\<close> that
  maps the accepted signing methods and a token to the verified claims.
\<close>

section \<open>Principals and helpers\<close>

record principal =
  pr_UPN :: string
  pr_OID :: string
  pr_TID :: string
  pr_Name :: string
  pr_AppID :: string
  pr_AppName :: string
  pr_Scopes :: "string list"
  pr_Groups :: "string list"
  pr_Raw :: string

definition requiredScope :: string where
  "requiredScope = ''tunnel.invoke''"

definition detailMax :: nat where
  "detailMax = 2000"

text \<open>The ellipsis of \<open>clip\<close> is the three bytes of U+2026.\<close>

definition clip :: "string \<Rightarrow> nat \<Rightarrow> string" where
  "clip s n = (if n < length s then take n s @ [CHR 0xE2, CHR 0x80, CHR 0xA6] else s)"

definition asStr :: "json option \<Rightarrow> string" where
  "asStr v = asString v"

fun firstNonEmpty :: "string list \<Rightarrow> string" where
  "firstNonEmpty [] = []"
| "firstNonEmpty (s # ss) = (if s \<noteq> [] then s else firstNonEmpty ss)"

definition contains :: "string list \<Rightarrow> string \<Rightarrow> bool" where
  "contains ss x = list_ex (\<lambda>s. s = x) ss"

fun strings_in :: "json list \<Rightarrow> string list" where
  "strings_in [] = []"
| "strings_in (JStr s # xs) = s # strings_in xs"
| "strings_in (_ # xs) = strings_in xs"

definition toStrings :: "json option \<Rightarrow> string list" where
  "toStrings v = (case asArr v of None \<Rightarrow> [] | Some xs \<Rightarrow> strings_in xs)"

section \<open>Audience\<close>

definition accepted_audiences :: "string \<Rightarrow> string list" where
  "accepted_audiences want =
     concat (map (\<lambda>w. [w, TrimPrefix w ''api://''])
       (filter (\<lambda>w. w \<noteq> []) (map TrimSpace (Split (CHR '','') want))))"

definition audienceOK :: "json option \<Rightarrow> string \<Rightarrow> bool" where
  "audienceOK aud want =
     (let check = (\<lambda>s. contains (accepted_audiences want) s) in
      case aud of Some (JStr s) \<Rightarrow> check s
      | Some (JArr xs) \<Rightarrow> list_ex check (strings_in xs)
      | _ \<Rightarrow> False)"

section \<open>The validator\<close>

record auth_config =
  au_mode :: string
  au_tenantID :: string
  au_audience :: string
  au_devSecret :: string

definition issuerV2 :: "auth_config \<Rightarrow> string" where
  "issuerV2 c = ''https://login.microsoftonline.com/'' @ au_tenantID c @ ''/v2.0''"

text \<open>
  What \<open>newValidator\<close> fixes when the process starts: \<open>None\<close> is \<open>log.Fatalf\<close>. \<open>jwks_ok\<close> says whether the
  key set of the tenant could be initialised.
\<close>

definition newValidator :: "bool \<Rightarrow> auth_config \<Rightarrow> string list option" where
  "newValidator jwks_ok c =
     (if au_mode c = ''dev'' then
        (if length (au_devSecret c) < 32 then None else Some [''HS256''])
      else if \<not> jwks_ok then None else Some [''RS256''])"

definition principal_of :: "jobj \<Rightarrow> string \<Rightarrow> principal" where
  "principal_of claims tok =
     (let upn = asStr (jget ''preferred_username'' claims);
          upn = (if upn = [] then asStr (jget ''upn'' claims) else upn)
      in \<lparr>pr_UPN = upn, pr_OID = asStr (jget ''oid'' claims), pr_TID = asStr (jget ''tid'' claims),
          pr_Name = asStr (jget ''name'' claims),
          pr_AppID = firstNonEmpty [asStr (jget ''azp'' claims), asStr (jget ''appid'' claims)],
          pr_AppName = asStr (jget ''app_displayname'' claims),
          pr_Scopes = Fields (asStr (jget ''scp'' claims)),
          pr_Groups = toStrings (jget ''groups'' claims), pr_Raw = tok\<rparr>)"

definition validate ::
  "(string list \<Rightarrow> string \<Rightarrow> jobj res) \<Rightarrow> auth_config \<Rightarrow> string list \<Rightarrow> string \<Rightarrow> principal res" where
  "validate jwt c methods tok =
     (case jwt methods tok of
        Inl e \<Rightarrow> Inl (Errorf ''token invalid: %w'' [ArgE e])
      | Inr claims \<Rightarrow>
          (if au_mode c \<noteq> ''dev'' \<and> asStr (jget ''iss'' claims) \<noteq> issuerV2 c then
             Inl (Errorf ''issuer %q is not the tenant v2 issuer %q''
               [ArgS (asStr (jget ''iss'' claims)), ArgS (issuerV2 c)])
           else if \<not> audienceOK (jget ''aud'' claims) (au_audience c) then
             Inl (Errnew ''wrong audience'')
           else if \<not> contains (Fields (asStr (jget ''scp'' claims))) requiredScope then
             Inl (Errorf ''missing scope %q'' [ArgS requiredScope])
           else Inr (principal_of claims tok)))"

text \<open>\<open>auth\<close> reads the \<open>Authorization\<close> header of a request.\<close>

definition bearer :: string where
  "bearer = ''Bearer ''"

definition auth :: "(string \<Rightarrow> principal res) \<Rightarrow> string \<Rightarrow> principal res" where
  "auth val header =
     (if \<not> HasPrefix header bearer then Inl (Errnew ''missing bearer token'')
      else val (TrimPrefix header bearer))"

section \<open>Lemmas\<close>

lemma contains_iff [simp]: "contains ss x \<longleftrightarrow> x \<in> set ss"
  by (auto simp: contains_def list_ex_iff)

lemma strings_in_iff: "s \<in> set (strings_in xs) \<longleftrightarrow> JStr s \<in> set xs"
  by (induction xs rule: strings_in.induct) auto

lemma length_clip: "length (clip s n) \<le> n + 3"
  by (simp add: clip_def)

lemma clip_prefix: "take n (clip s n) = take n s"
  by (auto simp: clip_def)

text \<open>An empty audience setting accepts no token: the door fails closed.\<close>

lemma accepted_audiences_Nil: "accepted_audiences [] = []"
  by (simp add: accepted_audiences_def TrimSpace_def)

lemma audienceOK_Nil: "\<not> audienceOK aud []"
  by (auto simp: audienceOK_def accepted_audiences_Nil list_ex_iff Let_def split: option.splits json.splits)

lemma audienceOK_accepted:
  "audienceOK aud want \<Longrightarrow> \<exists>s \<in> set (accepted_audiences want).
     aud = Some (JStr s) \<or> (\<exists>xs. aud = Some (JArr xs) \<and> JStr s \<in> set xs)"
  by (auto simp: audienceOK_def Let_def list_ex_iff strings_in_iff split: option.splits json.splits)

lemma validate_Inr:
  assumes "validate jwt c methods tok = Inr p"
  obtains claims where "jwt methods tok = Inr claims" and "p = principal_of claims tok"
    and "au_mode c = ''dev'' \<or> asStr (jget ''iss'' claims) = issuerV2 c"
    and "audienceOK (jget ''aud'' claims) (au_audience c)"
    and "requiredScope \<in> set (Fields (asStr (jget ''scp'' claims)))"
  using assms by (auto simp: validate_def split: sum.splits if_splits)

lemma auth_Inr: "auth val header = Inr p \<Longrightarrow> \<exists>tok. header = bearer @ tok \<and> val tok = Inr p"
  using HasPrefixE [of header bearer] by (auto simp: auth_def split: if_splits)

text \<open>C8: A request is taken for a principal only if its header is a bearer token that the JWT
  library verified for the method fixed at start, from the issuer of the tenant (outside dev mode),
  for an accepted audience and with the tunnel scope; the raw token travels with the principal, and
  a dev-mode process whose secret is shorter than 32 bytes does not start.\<close>

theorem authenticated_principal:
  assumes "newValidator jwks_ok c = Some methods"
    and "auth (validate jwt c methods) header = Inr p"
  shows "\<exists>tok claims. header = bearer @ tok \<and> jwt methods tok = Inr claims \<and>
    p = principal_of claims tok \<and> pr_Raw p = tok \<and>
    methods = (if au_mode c = ''dev'' then [''HS256''] else [''RS256'']) \<and>
    (if au_mode c = ''dev'' then 32 \<le> length (au_devSecret c)
     else asStr (jget ''iss'' claims) = issuerV2 c) \<and>
    audienceOK (jget ''aud'' claims) (au_audience c) \<and> au_audience c \<noteq> [] \<and>
    requiredScope \<in> set (pr_Scopes p)"
proof -
  obtain tok where tok: "header = bearer @ tok" "validate jwt c methods tok = Inr p"
    using auth_Inr [OF assms(2)] by blast
  obtain claims where c: "jwt methods tok = Inr claims" "p = principal_of claims tok"
      "au_mode c = ''dev'' \<or> asStr (jget ''iss'' claims) = issuerV2 c"
      "audienceOK (jget ''aud'' claims) (au_audience c)"
      "requiredScope \<in> set (Fields (asStr (jget ''scp'' claims)))"
    using validate_Inr [OF tok(2)] by blast
  have "au_audience c \<noteq> []" using c(4) audienceOK_Nil by metis
  moreover have "pr_Raw p = tok" "pr_Scopes p = Fields (asStr (jget ''scp'' claims))"
    by (simp_all add: c(2) principal_of_def Let_def)
  ultimately show ?thesis
    using assms(1) tok(1) c by (intro exI [of _ tok] exI [of _ claims])
      (auto simp: newValidator_def split: if_splits)
qed

definition example_claims :: jobj where
  "example_claims = [(''iss'', JStr ''https://login.microsoftonline.com/t1/v2.0''),
     (''aud'', JStr ''app''), (''scp'', JStr ''tunnel.invoke''), (''oid'', JStr ''u1''),
     (''tid'', JStr ''t1''), (''azp'', JStr ''agent'')]"

definition example_auth :: auth_config where
  "example_auth = \<lparr>au_mode = ''entra'', au_tenantID = ''t1'', au_audience = ''api://app'',
     au_devSecret = []\<rparr>"

theorem authenticated_principal_witness:
  "\<exists>p. auth (validate (\<lambda>_ t. if t = ''tok'' then Inr example_claims else Inl (Errnew ''bad''))
     example_auth [''RS256'']) ''Bearer tok'' = Inr p \<and> pr_Raw p = ''tok'' \<and>
     requiredScope \<in> set (pr_Scopes p)"
proof -
  let ?jwt = "\<lambda>_ t. if t = ''tok'' then Inr example_claims else Inl (Errnew ''bad'')"
  let ?p = "principal_of example_claims ''tok''"
  have n: "newValidator True example_auth = Some [''RS256'']"
    by (simp add: newValidator_def example_auth_def)
  have "Fields ''tunnel.invoke'' = [''tunnel.invoke'']" "accepted_audiences ''api://app'' = [''api://app'', ''app'']"
    by (simp_all add: Fields_def accepted_audiences_def TrimSpace_def TrimPrefix_def HasPrefix_def
        chunks.simps next_rune_def IsSpace_def)
  then have a: "auth (validate ?jwt example_auth [''RS256'']) ''Bearer tok'' = Inr ?p"
    by (simp add: auth_def bearer_def HasPrefix_def TrimPrefix_def validate_def example_auth_def
        example_claims_def jget_def asStr_def issuerV2_def audienceOK_def requiredScope_def)
  have "pr_Raw ?p = ''tok''" "requiredScope \<in> set (pr_Scopes ?p)"
    using authenticated_principal [OF n a] by (auto simp: bearer_def)
  with a show ?thesis by blast
qed

end
