(* ===== verification/OwnedCache.thy ===== *)
theory OwnedCache
  imports Prelude
begin

text \<open>
  The contract \<open>capture.go\<close> and \<open>desktop.go\<close> share: a bounded in-memory store whose entries belong to
  somebody and die. A caller names an entry by a key, which is only a locator: an entry is handed
  out to its owner, while it is fresh, and to nobody else. The read may record the access, so it
  returns the store as well.
\<close>

locale owned_cache =
  fixes find :: "int \<Rightarrow> string \<Rightarrow> 'who \<Rightarrow> 's \<Rightarrow> 'v option \<times> 's"
    and peek :: "'s \<Rightarrow> string \<Rightarrow> 'v option"
    and owner_of :: "'v \<Rightarrow> 'who"
    and fresh :: "int \<Rightarrow> 'v \<Rightarrow> bool"
    and count :: "'s \<Rightarrow> nat"
    and capacity :: "'s \<Rightarrow> nat"
    and invar :: "'s \<Rightarrow> bool"
  assumes find_peek: "invar s \<Longrightarrow> fst (find now k w s) = Some v \<Longrightarrow>
        \<exists>v0. peek s k = Some v0 \<and> owner_of v0 = w \<and> fresh now v0 \<and> owner_of v = owner_of v0"
    and invar_find: "invar s \<Longrightarrow> invar (snd (find now k w s))"
    and find_grows_not: "invar s \<Longrightarrow> count (snd (find now k w s)) \<le> count s"
    and capacity_find: "invar s \<Longrightarrow> capacity (snd (find now k w s)) = capacity s"
    and bounded: "invar s \<Longrightarrow> count s \<le> capacity s"
begin

lemma isolation:
  "invar s \<Longrightarrow> fst (find now k w s) = Some v \<Longrightarrow> w' \<noteq> w \<Longrightarrow> fst (find now' k w' s) = None"
  using find_peek [of s now k w v] find_peek [of s now' k w']
  by (cases "fst (find now' k w' s)") auto

lemma owner_only: "invar s \<Longrightarrow> fst (find now k w s) = Some v \<Longrightarrow> owner_of v = w"
  using find_peek by force

lemma stale_never:
  "invar s \<Longrightarrow> peek s k = Some v \<Longrightarrow> \<not> fresh now v \<Longrightarrow> fst (find now k w s) = None"
  using find_peek [of s now k w] by (cases "fst (find now k w s)") auto

text \<open>Any number of reads, by anybody, leaves a bounded store bounded.\<close>

lemma reads_bounded:
  "invar s \<Longrightarrow>
    (let z = foldl (\<lambda>s (now, k, w). snd (find now k w s)) s rs
     in invar z \<and> count z \<le> count s \<and> capacity z = capacity s)"
proof (induction rs arbitrary: s)
  case (Cons r rs)
  obtain now k w where r: "r = (now, k, w)" by (cases r)
  show ?case
    using Cons.IH [of "snd (find now k w s)"] Cons.prems find_grows_not [of s now k w]
    by (auto simp: r Let_def invar_find capacity_find)
qed simp

end

end
