(* ===== verification/Capture.thy ===== *)
theory Capture
  imports Auth OwnedCache
begin

text \<open>
  \<open>capture.go\<close>, the store: ephemeral command output, kept in memory under quotas per store and per
  owner, evicted least recently used first, and handed out to its owner only. Times are
  nanoseconds; each \<open>time.Now\<close> of an operation is an argument of it.
\<close>

section \<open>State\<close>

record captureOwner =
  co_TID :: string
  co_OID :: string
  co_AppID :: string

record capturedOutput =
  cp_ID :: string
  cp_Owner :: captureOwner
  cp_Node :: string
  cp_Verb :: string
  cp_RequestID :: string
  cp_CreatedAt :: int
  cp_ExpiresAt :: int
  cp_LastAccess :: int
  cp_Streams :: "(string, string) gomap"
  cp_SourceTruncated :: bool
  cp_Bytes :: int

record captureStoreConfig =
  cc_TTL :: int
  cc_MaxEntries :: int
  cc_MaxBytes :: int
  cc_MaxOwnerEntries :: int
  cc_MaxOwnerBytes :: int
  cc_MaxIndividualBytes :: int

record CaptureStore =
  cs_captures :: "(string, capturedOutput) gomap"
  cs_bytes :: int
  cs_config :: captureStoreConfig

definition defaultCaptureStoreConfig :: captureStoreConfig where
  "defaultCaptureStoreConfig = \<lparr>cc_TTL = 600 * 1000000000, cc_MaxEntries = 128,
     cc_MaxBytes = 67108864, cc_MaxOwnerEntries = 16, cc_MaxOwnerBytes = 16777216,
     cc_MaxIndividualBytes = 4194304\<rparr>"

definition newCaptureStore :: "captureStoreConfig \<Rightarrow> CaptureStore" where
  "newCaptureStore config = \<lparr>cs_captures = [], cs_bytes = 0, cs_config = config\<rparr>"

definition captureOwnerFor :: "principal \<Rightarrow> captureOwner option" where
  "captureOwnerFor p =
     (if pr_TID p = [] \<or> pr_OID p = [] \<or> pr_AppID p = [] then None
      else Some \<lparr>co_TID = pr_TID p, co_OID = pr_OID p, co_AppID = pr_AppID p\<rparr>)"

section \<open>Identifiers\<close>

text \<open>A draw of \<open>rand.Read\<close>: sixteen bytes, or \<open>None\<close> for its error.\<close>

definition mintCaptureID :: "string option \<Rightarrow> string res" where
  "mintCaptureID raw = (case raw of
      None \<Rightarrow> Inl (Errnew ''generate capture id: %w'')
    | Some bs \<Rightarrow> Inr (''cap_'' @ hex_encode bs))"

definition validCaptureID :: "string \<Rightarrow> bool" where
  "validCaptureID i \<longleftrightarrow> length i = 36 \<and> HasPrefix i ''cap_'' \<and> hex_decode (drop 4 i) \<noteq> None"

lemma minted_valid: "length bs = 16 \<Longrightarrow> mintCaptureID (Some bs) = Inr i \<Longrightarrow> validCaptureID i"
  by (auto simp: mintCaptureID_def validCaptureID_def HasPrefix_def hex_decode_encode)

section \<open>Removal, expiry and eviction\<close>

definition removeLocked :: "string \<Rightarrow> CaptureStore \<Rightarrow> CaptureStore" where
  "removeLocked i s = (case gm_load (cs_captures s) i of None \<Rightarrow> s
     | Some c \<Rightarrow> s\<lparr>cs_bytes := cs_bytes s - cp_Bytes c, cs_captures := gm_delete i (cs_captures s)\<rparr>)"

definition reapExpiredLocked :: "int \<Rightarrow> CaptureStore \<Rightarrow> CaptureStore" where
  "reapExpiredLocked now s =
     foldl (\<lambda>s (i, c). if \<not> now < cp_ExpiresAt c then removeLocked i s else s) s (cs_captures s)"

definition ownerCountLocked :: "captureOwner \<Rightarrow> CaptureStore \<Rightarrow> int" where
  "ownerCountLocked w s = int (length (filter (\<lambda>(_, c). cp_Owner c = w) (cs_captures s)))"

definition ownerBytesLocked :: "captureOwner \<Rightarrow> CaptureStore \<Rightarrow> int" where
  "ownerBytesLocked w s =
     sum_list (map (\<lambda>(_, c). cp_Bytes c) (filter (\<lambda>(_, c). cp_Owner c = w) (cs_captures s)))"

definition older :: "capturedOutput \<Rightarrow> capturedOutput \<Rightarrow> bool" where
  "older a b \<longleftrightarrow> cp_LastAccess a < cp_LastAccess b
     \<or> (cp_LastAccess a = cp_LastAccess b \<and> cp_CreatedAt a < cp_CreatedAt b)"

fun oldest_from :: "(capturedOutput \<Rightarrow> bool) \<Rightarrow> capturedOutput option \<Rightarrow> capturedOutput list \<Rightarrow>
    capturedOutput option" where
  "oldest_from p best [] = best"
| "oldest_from p best (c # cs) =
     (if \<not> p c then oldest_from p best cs
      else case best of None \<Rightarrow> oldest_from p (Some c) cs
        | Some b \<Rightarrow> oldest_from p (Some (if older c b then c else b)) cs)"

definition evictOldestLocked :: "(capturedOutput \<Rightarrow> bool) \<Rightarrow> CaptureStore \<Rightarrow> CaptureStore option" where
  "evictOldestLocked p s = (case oldest_from p None (map snd (cs_captures s)) of None \<Rightarrow> None
     | Some c \<Rightarrow> Some (removeLocked (cp_ID c) s))"

text \<open>
  The two eviction loops of \<open>Put\<close>. The result says whether the loop ended with room (\<open>True\<close>) or
  found nothing left to evict; \<open>None\<close> is a loop that does not return.
\<close>

partial_function (option) evict_owner ::
    "captureOwner \<Rightarrow> int \<Rightarrow> CaptureStore \<Rightarrow> (bool \<times> CaptureStore) option" where
  "evict_owner w sz s =
     (if cc_MaxOwnerEntries (cs_config s) \<le> ownerCountLocked w s
         \<or> cc_MaxOwnerBytes (cs_config s) < ownerBytesLocked w s + sz
      then (case evictOldestLocked (\<lambda>c. cp_Owner c = w) s of None \<Rightarrow> Some (False, s)
        | Some s' \<Rightarrow> evict_owner w sz s')
      else Some (True, s))"

partial_function (option) evict_store ::
    "int \<Rightarrow> CaptureStore \<Rightarrow> (bool \<times> CaptureStore) option" where
  "evict_store sz s =
     (if cc_MaxEntries (cs_config s) \<le> int (length (cs_captures s))
         \<or> cc_MaxBytes (cs_config s) < cs_bytes s + sz
      then (case evictOldestLocked (\<lambda>_. True) s of None \<Rightarrow> Some (False, s)
        | Some s' \<Rightarrow> evict_store sz s')
      else Some (True, s))"

section \<open>Put and Get\<close>

fun check_streams :: "(string \<times> string) list \<Rightarrow> int \<Rightarrow> int res" where
  "check_streams [] sz = Inr sz"
| "check_streams ((name, content) # rest) sz =
     (if name \<noteq> ''stdout'' \<and> name \<noteq> ''stderr''
      then Inl (Errorf ''unsupported capture stream %q'' [ArgS name])
      else check_streams rest (sz + int (length content)))"

text \<open>
  The loop that draws identifiers until one is free, over the draws still to come. \<open>None\<close> is a loop
  that outlasts the given draws.
\<close>

fun fresh_id :: "(string, capturedOutput) gomap \<Rightarrow> string \<Rightarrow> string option list \<Rightarrow>
    (string res \<times> string option list) option" where
  "fresh_id m i draws =
     (if gm_load m i = None then Some (Inr i, draws)
      else (case draws of [] \<Rightarrow> None
        | d # ds \<Rightarrow> (case mintCaptureID d of Inl e \<Rightarrow> Some (Inl e, ds)
            | Inr j \<Rightarrow> fresh_id m j ds)))"

declare fresh_id.simps [simp del]

type_synonym put_result = "capturedOutput res \<times> CaptureStore \<times> string option list"

definition cs_Put :: "int \<Rightarrow> string option list \<Rightarrow> captureOwner \<Rightarrow> string \<Rightarrow> string \<Rightarrow> string \<Rightarrow>
    (string, string) gomap \<Rightarrow> bool \<Rightarrow> CaptureStore \<Rightarrow> put_result option" where
  "cs_Put now draws w node verb rid streams truncated s =
     (case check_streams streams 0 of Inl e \<Rightarrow> Some (Inl e, s, draws)
      | Inr sz \<Rightarrow>
        if co_TID w = [] \<or> co_OID w = [] \<or> co_AppID w = [] then
          Some (Inl (Errnew ''capture requires tenant, principal, and agent identities''), s, draws)
        else if cc_MaxIndividualBytes (cs_config s) < sz then
          Some (Inl (Errorf ''output is %d bytes; capture limit is %d''
            [ArgN sz, ArgN (cc_MaxIndividualBytes (cs_config s))]), s, draws)
        else if cc_MaxOwnerBytes (cs_config s) < sz \<or> cc_MaxBytes (cs_config s) < sz then
          Some (Inl (Errnew ''output exceeds capture store quota''), s, draws)
        else (case draws of [] \<Rightarrow> None
        | d # ds \<Rightarrow> (case mintCaptureID d of Inl e \<Rightarrow> Some (Inl e, s, ds)
          | Inr i \<Rightarrow> (case evict_owner w sz (reapExpiredLocked now s) of None \<Rightarrow> None
            | Some (False, s2) \<Rightarrow> Some (Inl (Errnew ''owner capture quota unavailable''), s2, ds)
            | Some (True, s2) \<Rightarrow> (case evict_store sz s2 of None \<Rightarrow> None
              | Some (False, s3) \<Rightarrow> Some (Inl (Errnew ''capture store quota unavailable''), s3, ds)
              | Some (True, s3) \<Rightarrow> (case fresh_id (cs_captures s3) i ds of None \<Rightarrow> None
                | Some (Inl e, ds') \<Rightarrow> Some (Inl e, s3, ds')
                | Some (Inr j, ds') \<Rightarrow>
                  let c = \<lparr>cp_ID = j, cp_Owner = w, cp_Node = node, cp_Verb = verb,
                      cp_RequestID = rid, cp_CreatedAt = now,
                      cp_ExpiresAt = now + cc_TTL (cs_config s), cp_LastAccess = now,
                      cp_Streams = streams, cp_SourceTruncated = truncated, cp_Bytes = sz\<rparr>
                  in Some (Inr c, s3\<lparr>cs_captures := gm_store j c (cs_captures s3),
                       cs_bytes := cs_bytes s3 + sz\<rparr>, ds')))))))"

definition cs_Get :: "int \<Rightarrow> string \<Rightarrow> captureOwner \<Rightarrow> CaptureStore \<Rightarrow>
    capturedOutput option \<times> CaptureStore" where
  "cs_Get now i w s =
     (if \<not> validCaptureID i then (None, s)
      else (let s = reapExpiredLocked now s in
        case gm_load (cs_captures s) i of None \<Rightarrow> (None, s)
        | Some c \<Rightarrow> if cp_Owner c \<noteq> w then (None, s)
            else (let c = c\<lparr>cp_LastAccess := now\<rparr> in
              (Some c, s\<lparr>cs_captures := gm_store i c (cs_captures s)\<rparr>))))"

end
