(* ===== verification/CaptureProps.thy ===== *)
theory CaptureProps
  imports Capture
begin

text \<open>
  The invariants of the capture store and what its operations do: removal and expiry, the eviction
  order, termination of the loops of \<open>Put\<close>, the quotas, ownership and lifetime.
\<close>

section \<open>Invariants\<close>

definition stream_bytes :: "(string, string) gomap \<Rightarrow> int" where
  "stream_bytes m = sum_list (map (\<lambda>p. int (length (snd p))) m)"

definition cap_bytes :: "(string, capturedOutput) gomap \<Rightarrow> int" where
  "cap_bytes m = sum_list (map (\<lambda>p. cp_Bytes (snd p)) m)"

definition owned :: "captureOwner \<Rightarrow> (string, capturedOutput) gomap \<Rightarrow>
    (string, capturedOutput) gomap" where
  "owned w m = filter (\<lambda>p. cp_Owner (snd p) = w) m"

definition capture_ok :: "string \<times> capturedOutput \<Rightarrow> bool" where
  "capture_ok p \<longleftrightarrow> cp_ID (snd p) = fst p \<and> cp_Bytes (snd p) = stream_bytes (cp_Streams (snd p))"

definition cs_inv :: "CaptureStore \<Rightarrow> bool" where
  "cs_inv s \<longleftrightarrow> gm_wf (cs_captures s) \<and> list_all capture_ok (cs_captures s)
     \<and> cs_bytes s = cap_bytes (cs_captures s)"

definition cs_quotas :: "CaptureStore \<Rightarrow> bool" where
  "cs_quotas s \<longleftrightarrow> int (length (cs_captures s)) \<le> cc_MaxEntries (cs_config s)
     \<and> cs_bytes s \<le> cc_MaxBytes (cs_config s)
     \<and> (\<forall>w. ownerCountLocked w s \<le> cc_MaxOwnerEntries (cs_config s)
          \<and> ownerBytesLocked w s \<le> cc_MaxOwnerBytes (cs_config s))
     \<and> (\<forall>p \<in> set (cs_captures s). cp_Bytes (snd p) \<le> cc_MaxIndividualBytes (cs_config s))"

lemma stream_bytes_nonneg [simp]: "0 \<le> stream_bytes m"
  unfolding stream_bytes_def by (rule sum_list_nonneg) auto

lemma capture_ok_nonneg: "capture_ok p \<Longrightarrow> 0 \<le> cp_Bytes (snd p)"
  by (simp add: capture_ok_def)

lemma cap_bytes_nonneg: "list_all capture_ok m \<Longrightarrow> 0 \<le> cap_bytes m"
  unfolding cap_bytes_def by (rule sum_list_nonneg) (force simp: list_all_iff dest: capture_ok_nonneg)

lemma ownerCount_owned: "ownerCountLocked w s = int (length (owned w (cs_captures s)))"
  by (simp add: ownerCountLocked_def owned_def split_beta')

lemma ownerBytes_owned: "ownerBytesLocked w s = cap_bytes (owned w (cs_captures s))"
  by (simp add: ownerBytesLocked_def owned_def cap_bytes_def split_beta')

lemma cap_bytes_append [simp]: "cap_bytes (a @ b) = cap_bytes a + cap_bytes b"
  by (simp add: cap_bytes_def)

lemma cap_bytes_Cons [simp]: "cap_bytes (p # m) = cp_Bytes (snd p) + cap_bytes m"
  by (simp add: cap_bytes_def)

lemma cap_bytes_Nil [simp]: "cap_bytes [] = 0"
  by (simp add: cap_bytes_def)

lemma owned_append [simp]: "owned w (a @ b) = owned w a @ owned w b"
  by (simp add: owned_def)

lemma owned_ok: "list_all capture_ok m \<Longrightarrow> list_all capture_ok (owned w m)"
  by (auto simp: owned_def list_all_iff)

text \<open>Taking entries away keeps every quota.\<close>

lemma length_filter_filter:
  "length (filter P (filter Q m)) \<le> length (filter P m)"
  by (induction m) auto

lemma cap_bytes_filter: "list_all capture_ok m \<Longrightarrow> cap_bytes (filter P m) \<le> cap_bytes m"
  by (induction m) (auto dest: capture_ok_nonneg)

lemma cs_quotas_filter:
  assumes "cs_inv s" and "cs_quotas s" and "cs_captures t = filter P (cs_captures s)"
    and "cs_bytes t = cap_bytes (cs_captures t)" and "cs_config t = cs_config s"
  shows "cs_quotas t"
proof -
  have ok: "list_all capture_ok (cs_captures s)" using assms(1) by (simp add: cs_inv_def)
  have "int (length (cs_captures t)) \<le> cc_MaxEntries (cs_config s)"
    using assms(2) length_filter_le [of P "cs_captures s"] unfolding cs_quotas_def assms(3)
    by linarith
  moreover have "cs_bytes t \<le> cs_bytes s"
    using assms(1,3,4) cap_bytes_filter [OF ok] by (simp add: cs_inv_def)
  moreover have "ownerCountLocked w t \<le> ownerCountLocked w s" for w
    using length_filter_filter by (simp add: ownerCount_owned owned_def assms(3))
  moreover have "ownerBytesLocked w t \<le> ownerBytesLocked w s" for w
    using cap_bytes_filter [OF owned_ok [OF ok]]
    by (simp add: ownerBytes_owned owned_def assms(3) conj_commute)
  ultimately show ?thesis
    using assms(2,3,5) unfolding cs_quotas_def by (auto intro: order_trans)
qed

section \<open>Removal and expiry\<close>

lemma removeLocked_config [simp]: "cs_config (removeLocked i s) = cs_config s"
  by (simp add: removeLocked_def split: option.splits)

lemma removeLocked_captures [simp]: "cs_captures (removeLocked i s) = gm_delete i (cs_captures s)"
proof (cases "gm_load (cs_captures s) i")
  case None
  then have "gm_delete i (cs_captures s) = cs_captures s"
    by (auto simp: gm_delete_def filter_id_conv gm_load_None_iff)
  with None show ?thesis by (simp add: removeLocked_def)
qed (simp add: removeLocked_def)

lemma cap_bytes_delete:
  assumes "gm_wf m" and "gm_load m i = Some c"
  shows "cap_bytes (gm_delete i m) = cap_bytes m - cp_Bytes c"
proof -
  obtain xs ys where "m = xs @ (i, c) # ys" "gm_delete i m = xs @ ys"
    using assms by (rule gm_split)
  then show ?thesis by simp
qed

lemma list_all_delete [simp]: "list_all P m \<Longrightarrow> list_all P (gm_delete i m)"
  by (auto simp: list_all_iff gm_set_delete)

lemma cs_inv_remove [store_inv]: "cs_inv s \<Longrightarrow> cs_inv (removeLocked i s)"
proof (cases "gm_load (cs_captures s) i")
  case None
  assume "cs_inv s"
  with None show ?thesis by (simp add: removeLocked_def)
next
  case (Some c)
  assume i: "cs_inv s"
  then have "cap_bytes (gm_delete i (cs_captures s)) = cs_bytes s - cp_Bytes c"
    using Some by (simp add: cs_inv_def cap_bytes_delete)
  moreover have "cs_bytes (removeLocked i s) = cs_bytes s - cp_Bytes c"
    using Some by (simp add: removeLocked_def)
  ultimately show ?thesis using i by (simp add: cs_inv_def)
qed

lemma gm_delete_head:
  assumes "gm_wf (kept @ (i, c) # xs)"
  shows "gm_delete i (kept @ (i, c) # xs) = kept @ xs"
proof -
  have "\<forall>p \<in> set (kept @ xs). fst p \<noteq> i" using assms by (auto simp: image_iff)
  then show ?thesis by (auto simp: gm_delete_def filter_id_conv)
qed

lemma reap_fold:
  assumes "cs_inv s" and "cs_captures s = kept @ xs"
  shows "(let t = foldl (\<lambda>s (i, c). if \<not> now < cp_ExpiresAt c then removeLocked i s else s) s xs
      in cs_inv t \<and> cs_config t = cs_config s \<and>
         cs_captures t = kept @ filter (\<lambda>p. now < cp_ExpiresAt (snd p)) xs)"
  using assms
proof (induction xs arbitrary: s kept)
  case (Cons p xs)
  obtain i c where p: "p = (i, c)" by force
  show ?case
  proof (cases "now < cp_ExpiresAt c")
    case True
    then show ?thesis using Cons.IH [of s "kept @ [p]"] Cons.prems by (simp add: p Let_def)
  next
    case False
    have "gm_wf (kept @ (i, c) # xs)" using Cons.prems by (simp add: cs_inv_def p)
    then have "cs_captures (removeLocked i s) = kept @ xs"
      using Cons.prems by (simp add: p gm_delete_head)
    then show ?thesis
      using Cons.IH [of "removeLocked i s" kept] cs_inv_remove [OF Cons.prems(1)] False
      by (simp add: p Let_def)
  qed
qed simp

lemma reap_captures:
  "cs_inv s \<Longrightarrow> cs_captures (reapExpiredLocked now s) =
     filter (\<lambda>p. now < cp_ExpiresAt (snd p)) (cs_captures s)"
  using reap_fold [of s "[]" "cs_captures s" now] by (simp add: reapExpiredLocked_def Let_def)

lemma reap_inv [store_inv]: "cs_inv s \<Longrightarrow> cs_inv (reapExpiredLocked now s)"
  using reap_fold [of s "[]" "cs_captures s" now] by (simp add: reapExpiredLocked_def Let_def)

lemma reap_config [simp]: "cs_inv s \<Longrightarrow> cs_config (reapExpiredLocked now s) = cs_config s"
  using reap_fold [of s "[]" "cs_captures s" now] by (simp add: reapExpiredLocked_def Let_def)

lemma cs_inv_bytes: "cs_inv s \<Longrightarrow> cs_bytes s = cap_bytes (cs_captures s)"
  by (simp add: cs_inv_def)

lemma reap_quotas [store_inv]: "cs_inv s \<Longrightarrow> cs_quotas s \<Longrightarrow> cs_quotas (reapExpiredLocked now s)"
  by (rule cs_quotas_filter) (auto simp: reap_captures cs_inv_bytes [OF reap_inv])

lemma reap_load:
  "cs_inv s \<Longrightarrow> gm_load (cs_captures (reapExpiredLocked now s)) i =
     (case gm_load (cs_captures s) i of None \<Rightarrow> None
      | Some c \<Rightarrow> if now < cp_ExpiresAt c then Some c else None)"
  using gm_load_filter [of "cs_captures s" "\<lambda>c. now < cp_ExpiresAt c" i]
  by (simp add: reap_captures cs_inv_def)

section \<open>Eviction\<close>

lemma older_irrefl [simp]: "\<not> older c c"
  by (simp add: older_def)

lemma not_older_trans: "\<not> older a b \<Longrightarrow> \<not> older b c \<Longrightarrow> \<not> older a c"
  by (auto simp: older_def)

lemma older_asym: "older a b \<Longrightarrow> \<not> older b a"
  by (auto simp: older_def)

lemma oldest_from_None:
  "oldest_from p best cs = None \<longleftrightarrow> best = None \<and> (\<forall>d \<in> set cs. \<not> p d)"
  by (induction p best cs rule: oldest_from.induct) (auto split: option.splits)

lemma oldest_from_Some:
  "oldest_from p best cs = Some c \<Longrightarrow>
     (best = Some c \<or> (c \<in> set cs \<and> p c)) \<and> (\<forall>d \<in> set cs. p d \<longrightarrow> \<not> older d c) \<and>
     (\<forall>b. best = Some b \<longrightarrow> \<not> older b c)"
proof (induction p best cs rule: oldest_from.induct)
  case (2 p best c' cs)
  show ?case
  proof (cases "p c'")
    case False
    then show ?thesis using 2 by auto
  next
    case True
    show ?thesis
    proof (cases best)
      case None
      then show ?thesis using 2 True by auto
    next
      case (Some b)
      let ?m = "if older c' b then c' else b"
      have IH: "(?m = c \<or> (c \<in> set cs \<and> p c)) \<and> (\<forall>d \<in> set cs. p d \<longrightarrow> \<not> older d c) \<and> \<not> older ?m c"
        using "2.IH"(3) "2.prems" True Some by auto
      have "\<not> older c' c" "\<not> older b c"
        using IH not_older_trans [of c' b c] not_older_trans [of b c' c] older_asym [of c' b]
        by (auto split: if_splits)
      then show ?thesis using IH True Some by (auto split: if_splits)
    qed
  qed
qed simp

text \<open>One eviction removes the least recently used entry among those that match.\<close>

lemma evictOldest_Some:
  assumes "cs_inv s" and "evictOldestLocked p s = Some s'"
  obtains i c where "(i, c) \<in> set (cs_captures s)" and "p c"
    and "cs_captures s' = gm_delete i (cs_captures s)" and "cs_inv s'"
    and "cs_config s' = cs_config s" and "length (cs_captures s') < length (cs_captures s)"
    and "\<forall>y \<in> set (cs_captures s). p (snd y) \<longrightarrow> \<not> older (snd y) c"
proof -
  obtain c where c: "oldest_from p None (map snd (cs_captures s)) = Some c"
      and s': "s' = removeLocked (cp_ID c) s"
    using assms(2) by (auto simp: evictOldestLocked_def split: option.splits)
  have o: "c \<in> snd ` set (cs_captures s)" "p c"
    "\<forall>y \<in> set (cs_captures s). p (snd y) \<longrightarrow> \<not> older (snd y) c"
    using oldest_from_Some [OF c] by auto
  then have mem: "(cp_ID c, c) \<in> set (cs_captures s)"
    using assms(1) by (auto simp: cs_inv_def list_all_iff capture_ok_def)
  then have "gm_load (cs_captures s) (cp_ID c) = Some c"
    using assms(1) by (simp add: cs_inv_def gm_wf_map_of)
  then have "length (cs_captures s') < length (cs_captures s)" by (simp add: s' gm_delete_less)
  then show ?thesis
    using that [OF mem o(2) _ _ _ _ o(3)] assms(1) by (simp add: s' cs_inv_remove)
qed

lemma evictOldest_None:
  "evictOldestLocked p s = None \<longleftrightarrow> (\<forall>y \<in> set (cs_captures s). \<not> p (snd y))"
  using oldest_from_None [of p None "map snd (cs_captures s)"]
  by (auto simp: evictOldestLocked_def split: option.splits)

text \<open>What any number of such evictions leaves.\<close>

definition lru_evicted :: "(capturedOutput \<Rightarrow> bool) \<Rightarrow> CaptureStore \<Rightarrow> CaptureStore \<Rightarrow> bool" where
  "lru_evicted p s t \<longleftrightarrow> cs_inv t \<and> cs_config t = cs_config s \<and>
     (\<exists>Q. cs_captures t = filter Q (cs_captures s)) \<and>
     (\<forall>x \<in> set (cs_captures s) - set (cs_captures t).
        p (snd x) \<and> (\<forall>y \<in> set (cs_captures t). p (snd y) \<longrightarrow> \<not> older (snd y) (snd x)))"

lemma lru_evicted_refl: "cs_inv s \<Longrightarrow> lru_evicted p s s"
  unfolding lru_evicted_def by (auto intro: exI [of _ "\<lambda>_. True"])

lemma lru_evicted_step:
  assumes "cs_inv s" and "evictOldestLocked p s = Some s'" and "lru_evicted p s' t"
  shows "lru_evicted p s t"
proof -
  obtain i c where e: "(i, c) \<in> set (cs_captures s)" "p c"
      "cs_captures s' = gm_delete i (cs_captures s)" "cs_config s' = cs_config s"
      "\<forall>y \<in> set (cs_captures s). p (snd y) \<longrightarrow> \<not> older (snd y) c"
    using assms(1,2) by (rule evictOldest_Some)
  obtain Q where Q: "cs_captures t = filter Q (cs_captures s')"
    using assms(3) by (auto simp: lru_evicted_def)
  have t: "cs_captures t = filter (\<lambda>x. fst x \<noteq> i \<and> Q x) (cs_captures s)"
    by (simp add: Q e(3) gm_delete_def conj_commute)
  have ne: "fst x \<noteq> i" if "x \<in> set (cs_captures s)" and "x \<noteq> (i, c)" for x
    using eq_key_imp_eq_value [of "cs_captures s" i c "snd x"] that e(1) assms(1)
    by (metis cs_inv_def prod.collapse)
  have "x = (i, c) \<or> x \<in> set (cs_captures s')" if "x \<in> set (cs_captures s)" for x
    using ne [OF that] that by (cases "x = (i, c)") (simp_all add: e(3) gm_set_delete)
  then have rest: "x = (i, c) \<or> x \<in> set (cs_captures s') - set (cs_captures t)"
    if "x \<in> set (cs_captures s) - set (cs_captures t)" for x
    using that by blast
  have sub: "set (cs_captures t) \<subseteq> set (cs_captures s)" by (auto simp: t)
  have first: "p c \<and> (\<forall>y \<in> set (cs_captures t). p (snd y) \<longrightarrow> \<not> older (snd y) c)"
    using e(2,5) sub by blast
  have "p (snd x) \<and> (\<forall>y \<in> set (cs_captures t). p (snd y) \<longrightarrow> \<not> older (snd y) (snd x))"
    if "x \<in> set (cs_captures s) - set (cs_captures t)" for x
    using rest [OF that] assms(3) first unfolding lru_evicted_def by (metis snd_conv)
  then show ?thesis
    using assms(3) e(4) t unfolding lru_evicted_def by metis
qed

lemma evict_owner_ends:
  assumes "cs_inv s"
  shows "\<exists>ok t. evict_owner w sz s = Some (ok, t) \<and> lru_evicted (\<lambda>c. cp_Owner c = w) s t \<and>
    (ok \<longrightarrow> ownerCountLocked w t < cc_MaxOwnerEntries (cs_config s) \<and>
       ownerBytesLocked w t + sz \<le> cc_MaxOwnerBytes (cs_config s)) \<and>
    (\<not> ok \<longrightarrow> cc_MaxOwnerEntries (cs_config s) \<le> 0 \<or> cc_MaxOwnerBytes (cs_config s) < sz)"
  using assms
proof (induction "length (cs_captures s)" arbitrary: s rule: less_induct)
  case less
  let ?full = "cc_MaxOwnerEntries (cs_config s) \<le> ownerCountLocked w s
         \<or> cc_MaxOwnerBytes (cs_config s) < ownerBytesLocked w s + sz"
  show ?case
  proof (cases ?full)
    case False
    then have "evict_owner w sz s = Some (True, s)" by (simp add: evict_owner.simps)
    with False show ?thesis using lru_evicted_refl [OF less.prems] by auto
  next
    case True
    note full = this
    show ?thesis
    proof (cases "evictOldestLocked (\<lambda>c. cp_Owner c = w) s")
      case None
      then have "owned w (cs_captures s) = []"
        by (auto simp: evictOldest_None owned_def filter_empty_conv)
      then have "cc_MaxOwnerEntries (cs_config s) \<le> 0 \<or> cc_MaxOwnerBytes (cs_config s) < sz"
        using full by (simp add: ownerCount_owned ownerBytes_owned)
      moreover have "evict_owner w sz s = Some (False, s)"
        using full None by (subst evict_owner.simps) simp
      ultimately show ?thesis using lru_evicted_refl [OF less.prems] by auto
    next
      case (Some s')
      have s': "cs_inv s'" "cs_config s' = cs_config s"
          "length (cs_captures s') < length (cs_captures s)"
        using evictOldest_Some [OF less.prems Some] by blast+
      have "evict_owner w sz s = evict_owner w sz s'"
        using full Some by (subst evict_owner.simps) simp
      then show ?thesis
        using less.hyps [OF s'(3,1)] lru_evicted_step [OF less.prems Some] by (auto simp: s'(2))
    qed
  qed
qed

lemma evict_store_ends:
  assumes "cs_inv s"
  shows "\<exists>ok t. evict_store sz s = Some (ok, t) \<and> lru_evicted (\<lambda>_. True) s t \<and>
    (ok \<longrightarrow> int (length (cs_captures t)) < cc_MaxEntries (cs_config s) \<and>
       cs_bytes t + sz \<le> cc_MaxBytes (cs_config s)) \<and>
    (\<not> ok \<longrightarrow> cc_MaxEntries (cs_config s) \<le> 0 \<or> cc_MaxBytes (cs_config s) < sz)"
  using assms
proof (induction "length (cs_captures s)" arbitrary: s rule: less_induct)
  case less
  let ?full = "cc_MaxEntries (cs_config s) \<le> int (length (cs_captures s))
         \<or> cc_MaxBytes (cs_config s) < cs_bytes s + sz"
  show ?case
  proof (cases ?full)
    case False
    then have "evict_store sz s = Some (True, s)" by (simp add: evict_store.simps)
    with False show ?thesis using lru_evicted_refl [OF less.prems] by auto
  next
    case True
    note full = this
    show ?thesis
    proof (cases "evictOldestLocked (\<lambda>_. True) s")
      case None
      then have "cs_captures s = []" by (cases "cs_captures s") (auto simp: evictOldest_None)
      then have "cc_MaxEntries (cs_config s) \<le> 0 \<or> cc_MaxBytes (cs_config s) < sz"
        using full less.prems by (simp add: cs_inv_def)
      moreover have "evict_store sz s = Some (False, s)"
        using full None by (subst evict_store.simps) simp
      ultimately show ?thesis using lru_evicted_refl [OF less.prems] by auto
    next
      case (Some s')
      have s': "cs_inv s'" "cs_config s' = cs_config s"
          "length (cs_captures s') < length (cs_captures s)"
        using evictOldest_Some [OF less.prems Some] by blast+
      have "evict_store sz s = evict_store sz s'"
        using full Some by (subst evict_store.simps) simp
      then show ?thesis
        using less.hyps [OF s'(3,1)] lru_evicted_step [OF less.prems Some] by (auto simp: s'(2))
    qed
  qed
qed

section \<open>Put\<close>

lemma lru_evicted_inv: "lru_evicted p s t \<Longrightarrow> cs_inv t \<and> cs_config t = cs_config s"
  by (simp add: lru_evicted_def)

lemma lru_evicted_quotas:
  assumes "lru_evicted p s t" and "cs_inv s" and "cs_quotas s"
  shows "cs_quotas t"
proof -
  obtain Q where "cs_captures t = filter Q (cs_captures s)"
    using assms(1) by (auto simp: lru_evicted_def)
  then show ?thesis
    using cs_quotas_filter [OF assms(2,3)] lru_evicted_inv [OF assms(1)]
    by (simp add: cs_inv_bytes)
qed

lemma check_streams_size: "check_streams m n = Inr sz \<Longrightarrow> sz = n + stream_bytes m"
  by (induction m n rule: check_streams.induct) (auto simp: stream_bytes_def split: if_splits)

lemma check_streams_Inr:
  "(\<forall>p \<in> set m. fst p = ''stdout'' \<or> fst p = ''stderr'') \<Longrightarrow>
     check_streams m n = Inr (n + stream_bytes m)"
  by (induction m n rule: check_streams.induct) (auto simp: stream_bytes_def)

lemma fresh_id_free: "fresh_id m i ds = Some (Inr j, ds') \<Longrightarrow> gm_load m j = None"
proof (induction m i ds rule: fresh_id.induct)
  case (1 m i ds)
  then show ?case
    by (subst (asm) (2) fresh_id.simps) (auto split: if_splits list.splits sum.splits)
qed

text \<open>Everything a successful \<open>Put\<close> did, in order.\<close>

lemma cs_Put_Inr:
  assumes "cs_inv s" and "cs_Put now draws w node verb rid streams tr s = Some (Inr c, s', ds)"
  obtains s2 s3 where "lru_evicted (\<lambda>c. cp_Owner c = w) (reapExpiredLocked now s) s2"
    and "lru_evicted (\<lambda>_. True) s2 s3"
    and "evict_store (stream_bytes streams) s2 = Some (True, s3)"
    and "gm_load (cs_captures s3) (cp_ID c) = None"
    and "ownerCountLocked w s2 < cc_MaxOwnerEntries (cs_config s)"
    and "ownerBytesLocked w s2 + stream_bytes streams \<le> cc_MaxOwnerBytes (cs_config s)"
    and "int (length (cs_captures s3)) < cc_MaxEntries (cs_config s)"
    and "cs_bytes s3 + stream_bytes streams \<le> cc_MaxBytes (cs_config s)"
    and "stream_bytes streams \<le> cc_MaxIndividualBytes (cs_config s)"
    and "s' = s3\<lparr>cs_captures := gm_store (cp_ID c) c (cs_captures s3),
           cs_bytes := cs_bytes s3 + stream_bytes streams\<rparr>"
    and "cp_Owner c = w" "cp_Node c = node" "cp_Verb c = verb" "cp_RequestID c = rid"
    and "cp_Streams c = streams" "cp_Bytes c = stream_bytes streams" "cp_CreatedAt c = now"
    and "cp_ExpiresAt c = now + cc_TTL (cs_config s)" "cp_LastAccess c = now"
proof -
  let ?r = "reapExpiredLocked now s"
  have r: "cs_inv ?r" using assms(1) by (rule reap_inv)
  obtain sz where sz: "check_streams streams 0 = Inr sz"
    using assms(2) by (auto simp: cs_Put_def split: sum.splits)
  then have szb: "sz = stream_bytes streams" using check_streams_size [OF sz] by simp
  obtain ok s2 where o: "evict_owner w sz ?r = Some (ok, s2)"
      "lru_evicted (\<lambda>c. cp_Owner c = w) ?r s2"
      "ok \<longrightarrow> ownerCountLocked w s2 < cc_MaxOwnerEntries (cs_config ?r) \<and>
         ownerBytesLocked w s2 + sz \<le> cc_MaxOwnerBytes (cs_config ?r)"
    using evict_owner_ends [OF r, of w sz] by blast
  obtain ok' s3 where g: "evict_store sz s2 = Some (ok', s3)" "lru_evicted (\<lambda>_. True) s2 s3"
      "ok' \<longrightarrow> int (length (cs_captures s3)) < cc_MaxEntries (cs_config s2) \<and>
         cs_bytes s3 + sz \<le> cc_MaxBytes (cs_config s2)"
    using evict_store_ends [of s2 sz] lru_evicted_inv [OF o(2)] by blast
  show ?thesis
    using assms(2) sz o(1) g(1) that [OF o(2) g(2)] o(3) g(3) lru_evicted_inv [OF o(2)]
      lru_evicted_inv [OF g(2)] assms(1)
    by (auto simp: cs_Put_def Let_def szb split: if_splits list.splits sum.splits option.splits
        bool.splits prod.splits dest!: fresh_id_free)
qed

text \<open>A \<open>Put\<close> that fails changes the store at most by expiry and eviction.\<close>

lemma cs_Put_Inl:
  assumes "cs_inv s" and "cs_Put now draws w node verb rid streams tr s = Some (Inl e, s', ds)"
  obtains "s' = s" | "lru_evicted (\<lambda>c. cp_Owner c = w) (reapExpiredLocked now s) s'"
    | s2 where "lru_evicted (\<lambda>c. cp_Owner c = w) (reapExpiredLocked now s) s2"
      and "lru_evicted (\<lambda>_. True) s2 s'"
proof -
  let ?r = "reapExpiredLocked now s"
  have r: "cs_inv ?r" using assms(1) by (rule reap_inv)
  show ?thesis
  proof (cases "check_streams streams 0")
    case (Inl e')
    then show ?thesis using assms(2) that(1) by (simp add: cs_Put_def)
  next
    case (Inr sz)
    obtain ok s2 where o: "evict_owner w sz ?r = Some (ok, s2)"
        "lru_evicted (\<lambda>c. cp_Owner c = w) ?r s2"
      using evict_owner_ends [OF r, of w sz] by blast
    obtain ok' s3 where g: "evict_store sz s2 = Some (ok', s3)" "lru_evicted (\<lambda>_. True) s2 s3"
      using evict_store_ends [of s2 sz] lru_evicted_inv [OF o(2)] by blast
    show ?thesis
      using assms(2) Inr o(1) g(1) that(1) that(2) [of] that(3) [OF o(2)] o(2) g(2)
      by (auto simp: cs_Put_def Let_def split: if_splits list.splits sum.splits option.splits
          bool.splits prod.splits)
  qed
qed

lemma cs_inv_reap_lru:
  "cs_inv s \<Longrightarrow> lru_evicted p (reapExpiredLocked now s) t \<Longrightarrow> cs_inv t \<and> cs_config t = cs_config s"
  by (simp add: lru_evicted_def)

text \<open>The store with one more entry.\<close>

definition added :: "capturedOutput \<Rightarrow> CaptureStore \<Rightarrow> CaptureStore" where
  "added c s = s\<lparr>cs_captures := gm_store (cp_ID c) c (cs_captures s),
     cs_bytes := cs_bytes s + cp_Bytes c\<rparr>"

lemma added_captures:
  "gm_load (cs_captures s) (cp_ID c) = None \<Longrightarrow> cs_captures (added c s) = cs_captures s @ [(cp_ID c, c)]"
  by (simp add: added_def gm_store_fresh)

lemma added_config [simp]: "cs_config (added c s) = cs_config s"
  by (simp add: added_def)

lemma added_inv:
  assumes "cs_inv s" and "gm_load (cs_captures s) (cp_ID c) = None"
    and "cp_Bytes c = stream_bytes (cp_Streams c)"
  shows "cs_inv (added c s)"
proof -
  have "gm_wf (cs_captures (added c s))" using assms(1) by (simp add: added_def cs_inv_def)
  moreover have "cs_bytes (added c s) = cs_bytes s + cp_Bytes c" by (simp add: added_def)
  ultimately show ?thesis
    using assms by (simp add: cs_inv_def added_captures capture_ok_def)
qed

lemma added_quotas:
  assumes "cs_inv s" and "cs_quotas s" and "gm_load (cs_captures s) (cp_ID c) = None"
    and "ownerCountLocked (cp_Owner c) s < cc_MaxOwnerEntries (cs_config s)"
    and "ownerBytesLocked (cp_Owner c) s + cp_Bytes c \<le> cc_MaxOwnerBytes (cs_config s)"
    and "int (length (cs_captures s)) < cc_MaxEntries (cs_config s)"
    and "cs_bytes s + cp_Bytes c \<le> cc_MaxBytes (cs_config s)"
    and "cp_Bytes c \<le> cc_MaxIndividualBytes (cs_config s)"
  shows "cs_quotas (added c s)"
proof -
  have "ownerCountLocked w (added c s) = ownerCountLocked w s + (if cp_Owner c = w then 1 else 0)"
    and "ownerBytesLocked w (added c s) =
      ownerBytesLocked w s + (if cp_Owner c = w then cp_Bytes c else 0)" for w
    using assms(3) by (simp_all add: ownerCount_owned ownerBytes_owned added_captures owned_def)
  moreover have "cs_bytes (added c s) = cs_bytes s + cp_Bytes c" by (simp add: added_def)
  ultimately show ?thesis
    using assms(2-8) unfolding cs_quotas_def by (auto simp: added_captures)
qed

lemma cs_Put_added:
  assumes "cs_inv s" and "cs_Put now draws w node verb rid streams tr s = Some (Inr c, s', ds)"
  obtains s3 where "s' = added c s3" and "cs_inv s3" and "cs_config s3 = cs_config s"
    and "gm_load (cs_captures s3) (cp_ID c) = None" and "cs_quotas s \<longrightarrow> cs_quotas s'"
    and "cp_Owner c = w" "cp_Streams c = streams" "cp_Bytes c = stream_bytes streams"
    and "cp_ExpiresAt c = now + cc_TTL (cs_config s)" "cp_Verb c = verb" "cp_Node c = node"
    and "cp_RequestID c = rid"
proof -
  obtain s2 s3 where
    e: "lru_evicted (\<lambda>c. cp_Owner c = w) (reapExpiredLocked now s) s2" "lru_evicted (\<lambda>_. True) s2 s3"
    and free: "gm_load (cs_captures s3) (cp_ID c) = None"
    and lim: "ownerCountLocked w s2 < cc_MaxOwnerEntries (cs_config s)"
      "ownerBytesLocked w s2 + stream_bytes streams \<le> cc_MaxOwnerBytes (cs_config s)"
      "int (length (cs_captures s3)) < cc_MaxEntries (cs_config s)"
      "cs_bytes s3 + stream_bytes streams \<le> cc_MaxBytes (cs_config s)"
      "stream_bytes streams \<le> cc_MaxIndividualBytes (cs_config s)"
    and s': "s' = s3\<lparr>cs_captures := gm_store (cp_ID c) c (cs_captures s3),
           cs_bytes := cs_bytes s3 + stream_bytes streams\<rparr>"
    and c: "cp_Owner c = w" "cp_Streams c = streams" "cp_Bytes c = stream_bytes streams"
      "cp_ExpiresAt c = now + cc_TTL (cs_config s)" "cp_Verb c = verb" "cp_Node c = node"
      "cp_RequestID c = rid"
    using assms by (rule cs_Put_Inr)
  have i2: "cs_inv s2" "cs_config s2 = cs_config s" using cs_inv_reap_lru [OF assms(1) e(1)] by auto
  have i3: "cs_inv s3" "cs_config s3 = cs_config s" using lru_evicted_inv [OF e(2)] i2 by auto
  have s'': "s' = added c s3" by (simp add: s' added_def c)
  obtain Q where Q: "cs_captures s3 = filter Q (cs_captures s2)"
    using e(2) by (auto simp: lru_evicted_def)
  have "ownerCountLocked w s3 \<le> ownerCountLocked w s2"
    using length_filter_filter [of "\<lambda>p. cp_Owner (snd p) = w" Q "cs_captures s2"]
    by (simp add: ownerCount_owned owned_def Q)
  moreover have "ownerBytesLocked w s3 \<le> ownerBytesLocked w s2"
    using cap_bytes_filter [OF owned_ok [of "cs_captures s2" w], of Q] i2(1)
    by (simp add: ownerBytes_owned owned_def Q cs_inv_def conj_commute)
  ultimately have "cs_quotas s'" if "cs_quotas s"
    using that lim c(1,3) free i3
      lru_evicted_quotas [OF e(2) i2(1) lru_evicted_quotas [OF e(1) reap_inv reap_quotas]] assms(1)
    unfolding s'' by (intro added_quotas) auto
  with that [OF s'' i3 free] c show ?thesis by blast
qed

lemma cs_Put_keeps [store_inv]:
  assumes "cs_inv s" and "cs_Put now draws w node verb rid streams tr s = Some (r, s', ds)"
  shows "cs_inv s' \<and> cs_config s' = cs_config s \<and> (cs_quotas s \<longrightarrow> cs_quotas s')"
proof (cases r)
  case (Inr c)
  obtain s3 where s3: "s' = added c s3" "cs_inv s3" "cs_config s3 = cs_config s"
      "gm_load (cs_captures s3) (cp_ID c) = None" "cs_quotas s \<longrightarrow> cs_quotas s'"
      "cp_Streams c = streams" "cp_Bytes c = stream_bytes streams"
    using assms cs_Put_added unfolding Inr by blast
  then show ?thesis using added_inv [OF s3(2,4)] by simp
next
  case (Inl e)
  have r: "cs_inv (reapExpiredLocked now s)" using assms(1) by (rule reap_inv)
  have q: "cs_quotas s \<Longrightarrow> cs_quotas (reapExpiredLocked now s)" using assms(1) by (rule reap_quotas)
  from assms(1) assms(2) [unfolded Inl] show ?thesis
  proof (cases rule: cs_Put_Inl)
    case 1
    then show ?thesis using assms(1) by simp
  next
    case 2
    then show ?thesis using cs_inv_reap_lru [OF assms(1)] lru_evicted_quotas [OF _ r q] by blast
  next
    case (3 s2)
    then show ?thesis
      using cs_inv_reap_lru [OF assms(1)] lru_evicted_inv lru_evicted_quotas r q by metis
  qed
qed

section \<open>Get\<close>

text \<open>An access replaces the entry by one that differs in the access time only.\<close>

definition touched :: "int \<Rightarrow> string \<Rightarrow> capturedOutput \<Rightarrow> CaptureStore \<Rightarrow> CaptureStore" where
  "touched now i c s =
     s\<lparr>cs_captures := gm_store i (c\<lparr>cp_LastAccess := now\<rparr>) (cs_captures s)\<rparr>"

lemma gm_store_map:
  "gm_load m i = Some c \<Longrightarrow> g c' = g c \<Longrightarrow>
    map (\<lambda>p. g (snd p)) (gm_store i c' m) = map (\<lambda>p. g (snd p)) m"
  by (induction m) (auto split: if_splits)

lemma cap_bytes_map: "cap_bytes m = sum_list (map (\<lambda>p. cp_Bytes (snd p)) m)"
  by (simp add: cap_bytes_def)

lemma owned_map:
  "length (owned w m) = length (filter (\<lambda>q. fst q = w) (map (\<lambda>p. (cp_Owner (snd p), cp_Bytes (snd p))) m))"
  "cap_bytes (owned w m) =
    sum_list (map snd (filter (\<lambda>q. fst q = w) (map (\<lambda>p. (cp_Owner (snd p), cp_Bytes (snd p))) m)))"
  by (induction m) (auto simp: owned_def cap_bytes_def)

lemma touched_bytes:
  assumes "gm_load (cs_captures s) i = Some c"
  shows "length (cs_captures (touched now i c s)) = length (cs_captures s)"
    and "cap_bytes (cs_captures (touched now i c s)) = cap_bytes (cs_captures s)"
    and "ownerCountLocked w (touched now i c s) = ownerCountLocked w s"
    and "ownerBytesLocked w (touched now i c s) = ownerBytesLocked w s"
    and "cp_Bytes ` snd ` set (cs_captures (touched now i c s)) = cp_Bytes ` snd ` set (cs_captures s)"
proof -
  let ?c' = "c\<lparr>cp_LastAccess := now\<rparr>"
  have b: "map (\<lambda>p. cp_Bytes (snd p)) (gm_store i ?c' (cs_captures s)) =
      map (\<lambda>p. cp_Bytes (snd p)) (cs_captures s)"
    by (rule gm_store_map [OF assms, where g = cp_Bytes]) simp
  have ob: "map (\<lambda>p. (cp_Owner (snd p), cp_Bytes (snd p))) (gm_store i ?c' (cs_captures s)) =
      map (\<lambda>p. (cp_Owner (snd p), cp_Bytes (snd p))) (cs_captures s)"
    by (rule gm_store_map [OF assms, where g = "\<lambda>c. (cp_Owner c, cp_Bytes c)"]) simp
  show "length (cs_captures (touched now i c s)) = length (cs_captures s)"
    using assms by (simp add: touched_def length_gm_store)
  show "cap_bytes (cs_captures (touched now i c s)) = cap_bytes (cs_captures s)"
    by (simp add: touched_def cap_bytes_map b)
  show "ownerCountLocked w (touched now i c s) = ownerCountLocked w s"
    by (simp add: touched_def ownerCount_owned owned_map(1) ob)
  show "ownerBytesLocked w (touched now i c s) = ownerBytesLocked w s"
    by (simp add: touched_def ownerBytes_owned owned_map(2) ob)
  show "cp_Bytes ` snd ` set (cs_captures (touched now i c s)) = cp_Bytes ` snd ` set (cs_captures s)"
    using arg_cong [OF b, of set] by (simp add: touched_def image_image)
qed

lemma touched_config [simp]: "cs_config (touched now i c s) = cs_config s"
  by (simp add: touched_def)

lemma touched_inv:
  assumes "cs_inv s" and "gm_load (cs_captures s) i = Some c"
  shows "cs_inv (touched now i c s)"
proof -
  have "(i, c) \<in> set (cs_captures s)" using assms(2) by (rule gm_load_in_set)
  then have "capture_ok (i, c\<lparr>cp_LastAccess := now\<rparr>)"
    using assms(1) by (auto simp: cs_inv_def list_all_iff capture_ok_def)
  then have "list_all capture_ok (cs_captures (touched now i c s))"
    using assms(1) by (auto simp: cs_inv_def list_all_iff touched_def gm_set_store)
  moreover have "gm_wf (cs_captures (touched now i c s))"
    using assms(1) by (simp add: cs_inv_def touched_def)
  moreover have "cs_bytes (touched now i c s) = cs_bytes s" by (simp add: touched_def)
  ultimately show ?thesis
    using assms(1) touched_bytes(2) [OF assms(2)] by (simp add: cs_inv_def)
qed

lemma touched_quotas:
  assumes "cs_quotas s" and "gm_load (cs_captures s) i = Some c"
  shows "cs_quotas (touched now i c s)"
proof -
  have "cs_bytes (touched now i c s) = cs_bytes s" by (simp add: touched_def)
  moreover have "cp_Bytes (snd p) \<le> cc_MaxIndividualBytes (cs_config s)"
    if "p \<in> set (cs_captures (touched now i c s))" for p
  proof -
    have "cp_Bytes (snd p) \<in> cp_Bytes ` snd ` set (cs_captures s)"
      using that touched_bytes(5) [OF assms(2), of now] by (metis image_eqI)
    then show ?thesis using assms(1) by (auto simp: cs_quotas_def)
  qed
  ultimately show ?thesis
    using assms(1) touched_bytes(1,3,4) [OF assms(2)] by (simp add: cs_quotas_def)
qed

lemma cs_Get_eq:
  assumes "cs_inv s"
  shows "cs_Get now i w s =
    (let r = reapExpiredLocked now s in
     if \<not> validCaptureID i then (None, s)
     else case gm_load (cs_captures s) i of None \<Rightarrow> (None, r)
       | Some c \<Rightarrow> if now < cp_ExpiresAt c \<and> cp_Owner c = w
           then (Some (c\<lparr>cp_LastAccess := now\<rparr>), touched now i c r) else (None, r))"
  by (simp add: cs_Get_def Let_def reap_load [OF assms] touched_def split: option.splits)

lemma cs_Get_keeps [store_inv]:
  assumes "cs_inv s"
  shows "cs_inv (snd (cs_Get now i w s)) \<and> cs_config (snd (cs_Get now i w s)) = cs_config s \<and>
    (cs_quotas s \<longrightarrow> cs_quotas (snd (cs_Get now i w s)))"
  using assms reap_inv [OF assms, of now] reap_quotas [OF assms, of now]
  by (auto simp: cs_Get_eq Let_def reap_load split: option.splits
      intro!: touched_inv touched_quotas)

lemma reap_length: "cs_inv s \<Longrightarrow> length (cs_captures (reapExpiredLocked now s)) \<le> length (cs_captures s)"
  by (simp add: reap_captures)

lemma cs_Get_length:
  assumes "cs_inv s"
  shows "length (cs_captures (snd (cs_Get now i w s))) \<le> length (cs_captures s)"
proof -
  have "length (cs_captures (touched now i c (reapExpiredLocked now s))) \<le> length (cs_captures s)"
    if "gm_load (cs_captures s) i = Some c" "now < cp_ExpiresAt c" for c
    using touched_bytes(1) [of "reapExpiredLocked now s" i c now] reap_length [OF assms, of now] that
    by (simp add: reap_load [OF assms])
  then show ?thesis
    using reap_length [OF assms, of now] by (auto simp: cs_Get_eq [OF assms] Let_def split: option.splits)
qed

text \<open>The store implements the shared contract.\<close>

definition cs_capacity :: "CaptureStore \<Rightarrow> nat" where
  "cs_capacity s = nat (cc_MaxEntries (cs_config s))"

interpretation cs: owned_cache cs_Get "\<lambda>s. gm_load (cs_captures s)" cp_Owner
  "\<lambda>now c. now < cp_ExpiresAt c" "\<lambda>s. length (cs_captures s)" cs_capacity
  "\<lambda>s. cs_inv s \<and> cs_quotas s"
proof unfold_locales
  fix s now k w v
  assume i: "cs_inv s \<and> cs_quotas s"
  show "fst (cs_Get now k w s) = Some v \<Longrightarrow> \<exists>v0. gm_load (cs_captures s) k = Some v0 \<and>
      cp_Owner v0 = w \<and> now < cp_ExpiresAt v0 \<and> cp_Owner v = cp_Owner v0"
    using i by (auto simp: cs_Get_eq Let_def split: option.splits if_splits)
  show "cs_inv (snd (cs_Get now k w s)) \<and> cs_quotas (snd (cs_Get now k w s))"
    using cs_Get_keeps i by blast
  show "length (cs_captures (snd (cs_Get now k w s))) \<le> length (cs_captures s)"
    using cs_Get_length i by blast
  show "length (cs_captures s) \<le> cs_capacity s"
    using i by (auto simp: cs_quotas_def cs_capacity_def le_nat_iff)
  show "cs_capacity (snd (cs_Get now k w s)) = cs_capacity s"
    using cs_Get_keeps i by (simp add: cs_capacity_def)
qed

section \<open>Runs\<close>

text \<open>
  The life of a store: puts, gets and the rounds of \<open>reapLoop\<close>, in any order, by anybody. A \<open>Put\<close> is
  a step when it returns.
\<close>

inductive cs_step :: "CaptureStore \<Rightarrow> CaptureStore \<Rightarrow> bool" where
  put: "cs_Put now draws w node verb rid streams tr s = Some (r, t, ds) \<Longrightarrow> cs_step s t"
| get: "cs_step s (snd (cs_Get now i w s))"
| reap: "cs_step s (reapExpiredLocked now s)"

inductive cs_reachable :: "captureStoreConfig \<Rightarrow> CaptureStore \<Rightarrow> bool" for config where
  start: "cs_reachable config (newCaptureStore config)"
| step: "cs_reachable config s \<Longrightarrow> cs_step s t \<Longrightarrow> cs_reachable config t"

definition config_ok :: "captureStoreConfig \<Rightarrow> bool" where
  "config_ok c \<longleftrightarrow> 0 \<le> cc_MaxEntries c \<and> 0 \<le> cc_MaxBytes c \<and> 0 \<le> cc_MaxOwnerEntries c
     \<and> 0 \<le> cc_MaxOwnerBytes c"

lemma new_store_inv: "cs_inv (newCaptureStore c) \<and> (config_ok c \<longrightarrow> cs_quotas (newCaptureStore c))"
  by (auto simp: cs_inv_def cs_quotas_def newCaptureStore_def config_ok_def ownerCount_owned
      ownerBytes_owned owned_def)

lemma cs_step_keeps [store_inv]:
  "cs_step s t \<Longrightarrow> cs_inv s \<Longrightarrow>
     cs_inv t \<and> cs_config t = cs_config s \<and> (cs_quotas s \<longrightarrow> cs_quotas t)"
  by (induction rule: cs_step.induct)
    (auto dest: cs_Put_keeps simp: cs_Get_keeps reap_inv reap_quotas)

lemma cs_reachable_inv:
  "cs_reachable config s \<Longrightarrow> config_ok config \<Longrightarrow> cs_inv s \<and> cs_quotas s \<and> cs_config s = config"
proof (induction rule: cs_reachable.induct)
  case start
  then show ?case using new_store_inv by (simp add: newCaptureStore_def)
next
  case (step s t)
  then show ?case using cs_step_keeps [of s t] by simp
qed

end
