(* ===== verification/CaptureLife.thy ===== *)
theory CaptureLife
  imports CaptureProps
begin

text \<open>
  What the capture store promises its users over a run: the advertised limits, how long and to whom
  an entry is readable, that a legal output is always taken, and whom an insertion can evict.
\<close>

section \<open>An example store\<close>

definition ex_owner :: captureOwner where
  "ex_owner = \<lparr>co_TID = ''t'', co_OID = ''u'', co_AppID = ''a''\<rparr>"

definition ex_streams :: "(string, string) gomap" where
  "ex_streams = [(''stdout'', ''hi''), (''stderr'', [])]"

definition ex_draw :: string where
  "ex_draw = ''aaaaaaaaaaaaaaaa''"

definition ex_id :: string where
  "ex_id = ''cap_61616161616161616161616161616161''"

definition ex_capture :: capturedOutput where
  "ex_capture = \<lparr>cp_ID = ex_id, cp_Owner = ex_owner, cp_Node = ''n'', cp_Verb = ''run'',
     cp_RequestID = ''r'', cp_CreatedAt = 5, cp_ExpiresAt = 600000000005, cp_LastAccess = 5,
     cp_Streams = ex_streams, cp_SourceTruncated = False, cp_Bytes = 2\<rparr>"

definition ex_store :: CaptureStore where
  "ex_store = \<lparr>cs_captures = [(ex_id, ex_capture)], cs_bytes = 2,
     cs_config = defaultCaptureStoreConfig\<rparr>"

lemma ex_put:
  "cs_Put 5 [Some ex_draw] ex_owner ''n'' ''run'' ''r'' ex_streams False
     (newCaptureStore defaultCaptureStoreConfig) = Some (Inr ex_capture, ex_store, [])"
proof -
  let ?s = "newCaptureStore defaultCaptureStoreConfig"
  have m: "mintCaptureID (Some ex_draw) = Inr ex_id"
    by code_simp
  have e: "evict_owner ex_owner 2 ?s = Some (True, ?s)" "evict_store 2 ?s = Some (True, ?s)"
    by (simp_all add: evict_owner.simps evict_store.simps newCaptureStore_def
        defaultCaptureStoreConfig_def ownerCountLocked_def ownerBytesLocked_def)
  have r: "reapExpiredLocked 5 ?s = ?s" by (simp add: reapExpiredLocked_def newCaptureStore_def)
  show ?thesis
    by (simp add: cs_Put_def ex_streams_def m r e fresh_id.simps ex_owner_def [symmetric]
        ex_capture_def ex_store_def)
      (simp add: ex_owner_def defaultCaptureStoreConfig_def newCaptureStore_def ex_streams_def Let_def)
qed

lemma ex_reachable: "cs_reachable defaultCaptureStoreConfig ex_store"
  by (rule cs_reachable.step [OF cs_reachable.start cs_step.put [OF ex_put]])

section \<open>Properties\<close>

text \<open>C31: In every reachable state of the store the advertised limits hold: at most 128 captures
  and 64 MiB in all, 16 captures and 16 MiB for each owner, and 4 MiB for each capture, and the byte
  counter is the number of bytes really held.\<close>

theorem capture_quotas:
  assumes "cs_reachable defaultCaptureStoreConfig s"
  shows "length (cs_captures s) \<le> 128 \<and> cs_bytes s \<le> 64 * 2 ^ 20 \<and>
    ownerCountLocked w s \<le> 16 \<and> ownerBytesLocked w s \<le> 16 * 2 ^ 20 \<and>
    (\<forall>p \<in> set (cs_captures s). stream_bytes (cp_Streams (snd p)) \<le> 4 * 2 ^ 20) \<and>
    cs_bytes s = sum_list (map (\<lambda>p. stream_bytes (cp_Streams (snd p))) (cs_captures s))"
proof -
  have ok: "config_ok defaultCaptureStoreConfig"
    by (simp add: config_ok_def defaultCaptureStoreConfig_def)
  have i: "cs_inv s" and q: "cs_quotas s" and c: "cs_config s = defaultCaptureStoreConfig"
    using cs_reachable_inv [OF assms ok] by auto
  have b: "cp_Bytes (snd p) = stream_bytes (cp_Streams (snd p))" if "p \<in> set (cs_captures s)" for p
    using i that by (auto simp: cs_inv_def list_all_iff capture_ok_def)
  then have "map (\<lambda>p. cp_Bytes (snd p)) (cs_captures s) =
      map (\<lambda>p. stream_bytes (cp_Streams (snd p))) (cs_captures s)" by simp
  then have "cs_bytes s = sum_list (map (\<lambda>p. stream_bytes (cp_Streams (snd p))) (cs_captures s))"
    by (simp only: cs_inv_bytes [OF i] cap_bytes_map)
  then show ?thesis
    using q b unfolding cs_quotas_def c defaultCaptureStoreConfig_def by auto
qed

theorem capture_quotas_witness:
  "cs_bytes ex_store \<le> 64 * 2 ^ 20 \<and> ownerCountLocked ex_owner ex_store \<le> 16 \<and>
   cs_captures ex_store \<noteq> []"
  using capture_quotas [OF ex_reachable, of ex_owner] by (simp add: ex_store_def)

text \<open>Identifiers of new entries are well-formed when the draws have their sixteen bytes.\<close>

definition draws_ok :: "string option list \<Rightarrow> bool" where
  "draws_ok ds \<longleftrightarrow> list_all (\<lambda>d. d = None \<or> (\<exists>bs. d = Some bs \<and> length bs = 16)) ds"

lemma fresh_id_valid:
  "fresh_id m i ds = Some (Inr j, ds') \<Longrightarrow> validCaptureID i \<Longrightarrow> draws_ok ds \<Longrightarrow> validCaptureID j"
proof (induction m i ds rule: fresh_id.induct)
  case (1 m i ds)
  show ?case
  proof (cases "gm_load m i = None")
    case True
    then show ?thesis using "1.prems" by (simp add: fresh_id.simps [of m i])
  next
    case False
    then obtain d ds0 k where d: "ds = d # ds0" "mintCaptureID d = Inr k"
        "fresh_id m k ds0 = Some (Inr j, ds')"
      using "1.prems"(1) by (auto simp: fresh_id.simps [of m i ds] split: list.splits sum.splits)
    have "validCaptureID k" "draws_ok ds0"
      using d(1,2) "1.prems"(3) minted_valid
      by (auto simp: draws_ok_def mintCaptureID_def split: option.splits)
    then show ?thesis using "1.IH" [OF False d(1) d(2) d(3)] by blast
  qed
qed

lemma cs_Put_valid:
  assumes "cs_Put now draws w node verb rid streams tr s = Some (Inr c, s', ds)" and "draws_ok draws"
  shows "validCaptureID (cp_ID c)"
proof -
  obtain d ds0 i m ds' where d: "draws = d # ds0" "mintCaptureID d = Inr i"
      "fresh_id m i ds0 = Some (Inr (cp_ID c), ds')"
    using assms(1) by (auto simp: cs_Put_def Let_def split: if_splits list.splits sum.splits
        option.splits bool.splits prod.splits)
  have "validCaptureID i" "draws_ok ds0"
    using d(1,2) assms(2) minted_valid
    by (auto simp: draws_ok_def mintCaptureID_def split: option.splits)
  then show ?thesis using fresh_id_valid [OF d(3)] by blast
qed

text \<open>Reads before the expiry leave an entry in place; only its access time moves.\<close>

definition same_capture :: "capturedOutput \<Rightarrow> capturedOutput \<Rightarrow> bool" where
  "same_capture a b \<longleftrightarrow> a\<lparr>cp_LastAccess := 0\<rparr> = b\<lparr>cp_LastAccess := 0\<rparr>"

lemma same_captureD:
  "same_capture a b \<Longrightarrow> cp_Owner a = cp_Owner b \<and> cp_ExpiresAt a = cp_ExpiresAt b
     \<and> cp_Streams a = cp_Streams b \<and> cp_Verb a = cp_Verb b \<and> cp_Node a = cp_Node b
     \<and> cp_RequestID a = cp_RequestID b \<and> cp_ID a = cp_ID b"
  by (cases a; cases b) (simp add: same_capture_def)

lemma same_capture_touch [simp]: "same_capture (a\<lparr>cp_LastAccess := t\<rparr>) b = same_capture a b"
  by (simp add: same_capture_def)

lemma cs_Get_stays:
  assumes "cs_inv s" and "gm_load (cs_captures s) i = Some c" and "now < cp_ExpiresAt c"
  shows "\<exists>c'. gm_load (cs_captures (snd (cs_Get now k w s))) i = Some c' \<and> same_capture c' c"
  using assms
  by (auto simp: cs_Get_eq Let_def reap_load touched_def same_capture_def split: option.splits)

lemma reads_stay:
  assumes "cs_inv s" and "gm_load (cs_captures s) i = Some c"
    and "\<forall>(t, k, w) \<in> set rs. t < cp_ExpiresAt c"
  shows "(let z = foldl (\<lambda>s (t, k, w). snd (cs_Get t k w s)) s rs
     in cs_inv z \<and> (\<exists>c'. gm_load (cs_captures z) i = Some c' \<and> same_capture c' c))"
  using assms
proof (induction rs arbitrary: s c)
  case Nil
  then show ?case by (auto simp: same_capture_def)
next
  case (Cons r rs)
  obtain t k w where r: "r = (t, k, w)" by (cases r)
  then have "t < cp_ExpiresAt c" using Cons.prems(3) by simp
  then obtain c' where c': "gm_load (cs_captures (snd (cs_Get t k w s))) i = Some c'"
      "same_capture c' c"
    using cs_Get_stays [OF Cons.prems(1,2)] by blast
  have "\<forall>(t, k, w) \<in> set rs. t < cp_ExpiresAt c'"
    using Cons.prems(3) same_captureD [OF c'(2)] by auto
  then show ?case
    using Cons.IH [OF _ c'(1)] cs_Get_keeps [OF Cons.prems(1)] c'(2)
    by (auto simp: r Let_def same_capture_def)
qed



section \<open>Insertion always succeeds\<close>

lemma hex_encode_inj: "hex_encode a = hex_encode b \<Longrightarrow> a = b"
  by (metis hex_decode_encode option.inject)

text \<open>One free identifier among the draws is enough for the loop to end with success.\<close>

lemma fresh_id_finds:
  assumes "\<exists>bs \<in> set raws. gm_load m (''cap_'' @ hex_encode bs) = None"
  shows "\<exists>j ds. fresh_id m i (map Some raws) = Some (Inr j, ds)"
  using assms
proof (induction raws arbitrary: i)
  case (Cons b raws)
  show ?case
  proof (cases "gm_load m i = None")
    case True
    then show ?thesis by (auto simp: fresh_id.simps [of m i])
  next
    case False
    have step: "fresh_id m i (map Some (b # raws)) = fresh_id m (''cap_'' @ hex_encode b) (map Some raws)"
      using False
      by (subst fresh_id.simps [of m i "map Some (b # raws)"]) (auto simp: mintCaptureID_def)
    show ?thesis
    proof (cases "gm_load m (''cap_'' @ hex_encode b) = None")
      case True
      then have "fresh_id m (''cap_'' @ hex_encode b) (map Some raws) =
          Some (Inr (''cap_'' @ hex_encode b), map Some raws)"
        by (subst fresh_id.simps) (simp only: if_True simp_thms)
      then show ?thesis unfolding step by blast
    next
      case False
      then have "\<exists>bs \<in> set raws. gm_load m (''cap_'' @ hex_encode bs) = None"
        using Cons.prems by auto
      then show ?thesis unfolding step by (rule Cons.IH)
    qed
  qed
qed simp

text \<open>More distinct draws than entries leave one free: the pigeonhole.\<close>

lemma distinct_draws_free:
  assumes "distinct raws" and "length m < length raws"
  shows "\<exists>bs \<in> set raws. gm_load m (''cap_'' @ hex_encode bs) = None"
proof (rule ccontr)
  assume "\<not> ?thesis"
  then have "(\<lambda>bs. ''cap_'' @ hex_encode bs) ` set raws \<subseteq> fst ` set m"
    by (auto simp: gm_load_None_iff)
  then have "card ((\<lambda>bs. ''cap_'' @ hex_encode bs) ` set raws) \<le> card (fst ` set m)"
    by (intro card_mono) auto
  also have "\<dots> \<le> length m" using card_image_le [of "set m" fst] card_length [of m] by simp
  finally have "card ((\<lambda>bs. ''cap_'' @ hex_encode bs) ` set raws) \<le> length m" .
  moreover have "inj_on (\<lambda>bs. ''cap_'' @ hex_encode bs) (set raws)"
    by (auto simp: inj_on_def dest: hex_encode_inj)
  ultimately show False
    using assms by (simp add: card_image distinct_card)
qed

lemma cs_Put_succeeds:
  assumes "cs_inv s" and "\<forall>p \<in> set streams. fst p = ''stdout'' \<or> fst p = ''stderr''"
    and "co_TID w \<noteq> []" "co_OID w \<noteq> []" "co_AppID w \<noteq> []"
    and "0 < cc_MaxEntries (cs_config s)" "0 < cc_MaxOwnerEntries (cs_config s)"
    and "stream_bytes streams \<le> cc_MaxIndividualBytes (cs_config s)"
    and "stream_bytes streams \<le> cc_MaxOwnerBytes (cs_config s)"
    and "stream_bytes streams \<le> cc_MaxBytes (cs_config s)"
    and "distinct raws" "Suc (length (cs_captures s)) < length raws"
  shows "\<exists>c s' ds. cs_Put now (map Some raws) w node verb rid streams tr s = Some (Inr c, s', ds)"
proof -
  let ?sz = "stream_bytes streams" and ?r = "reapExpiredLocked now s"
  obtain b raws' where raws: "raws = b # raws'" using assms(12) by (cases raws) auto
  have r: "cs_inv ?r" "cs_config ?r = cs_config s" using assms(1) by (simp_all add: reap_inv)
  obtain s2 where o: "evict_owner w ?sz ?r = Some (True, s2)" "lru_evicted (\<lambda>c. cp_Owner c = w) ?r s2"
    using evict_owner_ends [OF r(1), of w ?sz] assms(7,9) by (auto simp: r(2))
  have s2: "cs_inv s2" "cs_config s2 = cs_config s" using cs_inv_reap_lru [OF assms(1) o(2)] by auto
  obtain s3 where g: "evict_store ?sz s2 = Some (True, s3)" "lru_evicted (\<lambda>_. True) s2 s3"
    using evict_store_ends [OF s2(1), of ?sz] assms(6,10) by (auto simp: s2(2))
  have "length (cs_captures s3) \<le> length (cs_captures s)"
  proof -
    have "length (cs_captures t) \<le> length (cs_captures u)" if "lru_evicted p u t" for p u t
      using that by (auto simp: lru_evicted_def)
    from this [OF g(2)] this [OF o(2)] reap_length [OF assms(1), of now] show ?thesis by linarith
  qed
  then have free: "\<exists>bs \<in> set raws'. gm_load (cs_captures s3) (''cap_'' @ hex_encode bs) = None"
    using assms(11,12) by (intro distinct_draws_free) (auto simp: raws)
  define i0 where "i0 = ''cap_'' @ hex_encode b"
  obtain j ds where f: "fresh_id (cs_captures s3) i0 (map Some raws') = Some (Inr j, ds)"
    using fresh_id_finds [OF free] by blast
  have m: "mintCaptureID (Some b) = Inr i0" by (simp add: mintCaptureID_def i0_def)
  show ?thesis
    using assms(3-5,8-10) check_streams_Inr [OF assms(2), of 0]
    by (simp add: cs_Put_def raws m o(1) g(1) f Let_def)
qed

text \<open>C32: In every reachable state of the store an output of at most 4 MiB of a fully identified
  caller is taken: the eviction loops make room, and 130 distinct random draws are enough to find a
  free identifier. No quota ever makes a legal output be refused.\<close>

theorem legal_output_is_always_captured:
  assumes "cs_reachable defaultCaptureStoreConfig s"
    and "\<forall>p \<in> set streams. fst p = ''stdout'' \<or> fst p = ''stderr''"
    and "stream_bytes streams \<le> 4 * 2 ^ 20"
    and "captureOwnerFor p = Some w"
    and "distinct raws" and "130 \<le> length raws"
  shows "\<exists>c s' ds. cs_Put now (map Some raws) w node verb rid streams tr s = Some (Inr c, s', ds)"
proof -
  have ok: "config_ok defaultCaptureStoreConfig"
    by (simp add: config_ok_def defaultCaptureStoreConfig_def)
  have i: "cs_inv s" "cs_quotas s" "cs_config s = defaultCaptureStoreConfig"
    using cs_reachable_inv [OF assms(1) ok] by auto
  then have "length (cs_captures s) \<le> 128" by (simp add: cs_quotas_def defaultCaptureStoreConfig_def)
  moreover have "co_TID w \<noteq> []" "co_OID w \<noteq> []" "co_AppID w \<noteq> []"
    using assms(4) by (auto simp: captureOwnerFor_def split: if_splits)
  ultimately show ?thesis
    using i(1,3) assms(2,3,5,6)
    by (intro cs_Put_succeeds) (auto simp: defaultCaptureStoreConfig_def)
qed

definition ex_raws :: "string list" where
  "ex_raws = map (\<lambda>n. nat_digits n) [0..<130]"

definition ex_principal :: principal where
  "ex_principal = \<lparr>pr_UPN = ''u@x'', pr_OID = ''u'', pr_TID = ''t'', pr_Name = [], pr_AppID = ''a'',
     pr_AppName = [], pr_Scopes = [], pr_Groups = [], pr_Raw = ''tok''\<rparr>"

theorem legal_output_is_always_captured_witness:
  "\<exists>c s' ds. cs_Put 7 (map Some ex_raws) ex_owner ''n'' ''run'' ''r'' ex_streams False ex_store =
     Some (Inr c, s', ds)"
proof (rule legal_output_is_always_captured [OF ex_reachable])
  show "captureOwnerFor ex_principal = Some ex_owner"
    by (simp add: captureOwnerFor_def ex_principal_def ex_owner_def)
  have "inj_on nat_digits {0..<130}" by (auto simp: inj_on_def dest: nat_digits_inj)
  then show "distinct ex_raws" by (simp add: ex_raws_def distinct_map)
qed (auto simp: ex_streams_def ex_raws_def stream_bytes_def)

section \<open>Whom an insertion evicts\<close>

lemma in_reap: "cs_inv s \<Longrightarrow> x \<in> set (cs_captures s) \<Longrightarrow> now < cp_ExpiresAt (snd x) \<Longrightarrow>
    x \<in> set (cs_captures (reapExpiredLocked now s))"
  by (simp add: reap_captures)

text \<open>An insertion takes a live entry of somebody else only when the store as a whole is full,
  and it always takes the least recently used ones: an entry that goes was not accessed later than
  any entry of its owner that stays.\<close>

theorem insertion_evicts_least_recently_used:
  assumes "cs_inv s" and "cs_Put now draws w node verb rid streams tr s = Some (Inr c, s', ds)"
    and "x \<in> set (cs_captures s)" and "now < cp_ExpiresAt (snd x)" and "x \<notin> set (cs_captures s')"
  shows "(cp_Owner (snd x) = w \<or> cc_MaxEntries (cs_config s) \<le> int (length (cs_captures s)) \<or>
        cc_MaxBytes (cs_config s) < cs_bytes s + stream_bytes streams) \<and>
    (\<forall>y \<in> set (cs_captures s'). cp_Owner (snd y) = cp_Owner (snd x) \<and> fst y \<noteq> cp_ID c \<longrightarrow>
        \<not> older (snd y) (snd x))"
proof -
  obtain s2 s3 where
    e: "lru_evicted (\<lambda>c. cp_Owner c = w) (reapExpiredLocked now s) s2" "lru_evicted (\<lambda>_. True) s2 s3"
    and ev: "evict_store (stream_bytes streams) s2 = Some (True, s3)"
    and free: "gm_load (cs_captures s3) (cp_ID c) = None"
    and s': "s' = s3\<lparr>cs_captures := gm_store (cp_ID c) c (cs_captures s3),
           cs_bytes := cs_bytes s3 + stream_bytes streams\<rparr>"
    using assms(1,2) by (rule cs_Put_Inr)
  have cap: "cs_captures s' = cs_captures s3 @ [(cp_ID c, c)]" using free by (simp add: s' gm_store_fresh)
  have x: "x \<in> set (cs_captures (reapExpiredLocked now s))" "x \<notin> set (cs_captures s3)"
    using in_reap [OF assms(1,3,4)] assms(5) by (auto simp: cap)
  have sub: "set (cs_captures s3) \<subseteq> set (cs_captures s2)" using e(2) by (auto simp: lru_evicted_def)
  have lru: "\<not> older (snd y) (snd x)"
    if y: "y \<in> set (cs_captures s3)" "cp_Owner (snd y) = cp_Owner (snd x)" for y
  proof (cases "x \<in> set (cs_captures s2)")
    case True
    then show ?thesis using x(2) y(1) e(2) unfolding lru_evicted_def by blast
  next
    case False
    then have "x \<in> set (cs_captures (reapExpiredLocked now s)) - set (cs_captures s2)"
      using x(1) by simp
    then have own: "cp_Owner (snd x) = w" and old: "\<forall>y \<in> set (cs_captures s2).
        cp_Owner (snd y) = w \<longrightarrow> \<not> older (snd y) (snd x)"
      using e(1) unfolding lru_evicted_def by blast+
    show ?thesis using old y own sub by auto
  qed
  have "cc_MaxEntries (cs_config s) \<le> int (length (cs_captures s)) \<or>
      cc_MaxBytes (cs_config s) < cs_bytes s + stream_bytes streams" if "cp_Owner (snd x) \<noteq> w"
  proof (rule ccontr)
    assume room: "\<not> ?thesis"
    have x2: "x \<in> set (cs_captures s2)" using that x(1) e(1) unfolding lru_evicted_def by blast
    have i2: "cs_inv s2" "cs_config s2 = cs_config s" using cs_inv_reap_lru [OF assms(1) e(1)] by auto
    obtain Q0 where "cs_captures s2 = filter Q0 (cs_captures (reapExpiredLocked now s))"
      using e(1) by (auto simp: lru_evicted_def)
    then obtain Q where Q: "cs_captures s2 = filter Q (cs_captures s)"
      using that by (simp add: reap_captures [OF assms(1)])
    have "length (cs_captures s2) \<le> length (cs_captures s)" by (simp add: Q)
    moreover have "cs_bytes s2 \<le> cs_bytes s"
      using cap_bytes_filter [of "cs_captures s" Q] assms(1) i2(1) by (simp add: cs_inv_def Q)
    ultimately have "evict_store (stream_bytes streams) s2 = Some (True, s2)"
      using room i2(2) by (subst evict_store.simps) simp
    then have "s3 = s2" using ev by simp
    then show False using x2 x(2) by simp
  qed
  then show ?thesis using lru by (auto simp: cap)
qed

definition ex_full :: CaptureStore where
  "ex_full = ex_store\<lparr>cs_config := defaultCaptureStoreConfig\<lparr>cc_MaxOwnerEntries := 1\<rparr>\<rparr>"

lemma ex_full_inv: "cs_inv ex_full"
  by (simp add: ex_full_def ex_store_def cs_inv_def cap_bytes_def capture_ok_def ex_capture_def
      ex_streams_def stream_bytes_def)

definition ex_draw2 :: string where
  "ex_draw2 = ''bbbbbbbbbbbbbbbb''"

definition ex_id2 :: string where
  "ex_id2 = ''cap_62626262626262626262626262626262''"

definition ex_capture2 :: capturedOutput where
  "ex_capture2 = ex_capture\<lparr>cp_ID := ex_id2, cp_CreatedAt := 7, cp_ExpiresAt := 600000000007,
     cp_LastAccess := 7\<rparr>"

lemma ex_full_put:
  "cs_Put 7 [Some ex_draw2] ex_owner ''n'' ''run'' ''r'' ex_streams False ex_full =
     Some (Inr ex_capture2, ex_full\<lparr>cs_captures := [(ex_id2, ex_capture2)]\<rparr>, [])"
proof -
  let ?e = "ex_full\<lparr>cs_captures := [], cs_bytes := 0\<rparr>"
  have m: "mintCaptureID (Some ex_draw2) = Inr ex_id2" by code_simp
  have r: "reapExpiredLocked 7 ex_full = ex_full"
    by (simp add: reapExpiredLocked_def ex_full_def ex_store_def ex_capture_def)
  have ev: "evictOldestLocked (\<lambda>c. cp_Owner c = ex_owner) ex_full = Some ?e"
    by (simp add: evictOldestLocked_def ex_full_def ex_store_def ex_capture_def removeLocked_def
        gm_delete_def)
  have e0: "evict_owner ex_owner 2 ?e = Some (True, ?e)"
    by (subst evict_owner.simps)
      (simp add: ex_full_def ex_store_def defaultCaptureStoreConfig_def ownerCountLocked_def
        ownerBytesLocked_def)
  have e1: "evict_owner ex_owner 2 ex_full = Some (True, ?e)"
    by (subst evict_owner.simps, subst ev)
      (simp add: e0, simp add: ex_full_def ex_store_def ownerCountLocked_def ex_capture_def)
  have e2: "evict_store 2 ?e = Some (True, ?e)"
    by (subst evict_store.simps) (simp add: ex_full_def defaultCaptureStoreConfig_def)
  have s: "check_streams ex_streams 0 = Inr 2" by (simp add: ex_streams_def)
  show ?thesis
    by (simp add: cs_Put_def s m r e1 e2 Let_def fresh_id.simps)
      (simp add: ex_full_def ex_store_def ex_owner_def ex_capture2_def ex_capture_def
        defaultCaptureStoreConfig_def)
qed

theorem insertion_evicts_least_recently_used_witness:
  "cp_Owner ex_capture = ex_owner \<or> 128 \<le> int (length (cs_captures ex_full)) \<or>
     67108864 < cs_bytes ex_full + stream_bytes ex_streams"
  using insertion_evicts_least_recently_used [OF ex_full_inv ex_full_put, of "(ex_id, ex_capture)"]
  by (auto simp: ex_full_def ex_store_def ex_capture_def defaultCaptureStoreConfig_def ex_id_def
      ex_id2_def)

end
