(* ===== verification/CaptureRead.thy ===== *)
theory CaptureRead
  imports CaptureProps "HOL-Library.List_Lexorder" "HOL-Library.Char_ord"
begin

text \<open>
  \<open>capture.go\<close>, reading: pages, tails and searches of a stored output
  (\<open>normalizeOutputReadRequest\<close>, \<open>readCapturedOutput\<close>, \<open>searchCapturedOutput\<close>). A result is the
  \<open>map[string]any\<close> of the source, a list of named JSON values.
\<close>

section \<open>Requests\<close>

record outputReadRequest =
  or_CaptureID :: string
  or_Stream :: string
  or_Mode :: string
  or_Offset :: int
  or_Limit :: int
  or_Pattern :: string
  or_StartLine :: int
  or_Context :: int
  or_MaxMatches :: int

definition with_defaults :: "outputReadRequest \<Rightarrow> outputReadRequest" where
  "with_defaults r =
     (let r = (if or_Stream r = [] then r\<lparr>or_Stream := ''stdout''\<rparr> else r);
          r = (if or_Mode r = [] then r\<lparr>or_Mode := ''page''\<rparr> else r);
          r = (if or_Limit r = 0 then r\<lparr>or_Limit := 12000\<rparr> else r)
      in if or_MaxMatches r = 0 then r\<lparr>or_MaxMatches := 20\<rparr> else r)"

text \<open>The default of \<open>MaxMatches\<close> is set between two checks that do not read it.\<close>

definition normalizeOutputReadRequest :: "outputReadRequest \<Rightarrow> outputReadRequest res" where
  "normalizeOutputReadRequest raw =
     (let r = with_defaults raw in
      if or_Limit r < 1 \<or> 64000 < or_Limit r then
        Inl (Errorf ''limit must be between 1 and %d characters'' [ArgN 64000])
      else if or_Offset r < 0 then Inl (Errnew ''offset must be zero or greater'')
      else if or_StartLine r < 0 then Inl (Errnew ''start_line must be zero or greater'')
      else if or_Context r < 0 \<or> 10 < or_Context r then
        Inl (Errorf ''context must be between 0 and %d lines'' [ArgN 10])
      else if or_MaxMatches r < 1 \<or> 100 < or_MaxMatches r then
        Inl (Errorf ''max_matches must be between 1 and %d'' [ArgN 100])
      else if or_Mode r = ''page'' \<or> or_Mode r = ''tail'' then
        (if or_Pattern r \<noteq> [] then Inl (Errnew ''pattern is only valid in search mode'') else Inr r)
      else if or_Mode r = ''search'' then
        (if or_Pattern r = [] then Inl (Errnew ''pattern is required in search mode'')
         else if 256 < int (length (or_Pattern r)) then
           Inl (Errorf ''pattern is longer than %d bytes'' [ArgN 256])
         else Inr r)
      else Inl (Errnew ''mode must be page, tail, or search''))"

section \<open>Search\<close>

definition splitOutputLines :: "string \<Rightarrow> string list" where
  "splitOutputLines content =
     (if content = [] then []
      else let lines = Split (CHR 0x0A) content in
        if HasSuffix content [CHR 0x0A] then take (length lines - 1) lines else lines)"

record search_state =
  ss_builder :: string
  ss_matchLines :: "int list"
  ss_nextStart :: int
  ss_lastEmitted :: int
  ss_written :: int
  ss_truncated :: bool

text \<open>One line of the answer, as \<open>Fprintf\<close> writes it.\<close>

definition numbered :: "string list \<Rightarrow> int \<Rightarrow> string" where
  "numbered lines k = Itoa (k + 1) @ '':'' @ lines ! nat k @ [CHR 0x0A]"

definition block_of :: "string list \<Rightarrow> int \<Rightarrow> int \<Rightarrow> string" where
  "block_of lines a b = concat (map (numbered lines) [a..b - 1])"

text \<open>
  The loop over the lines from \<open>lineIndex\<close> on, which \<open>rest\<close> lists.
\<close>

fun search_loop :: "(string \<Rightarrow> bool) \<Rightarrow> outputReadRequest \<Rightarrow> string list \<Rightarrow> int \<Rightarrow> string list \<Rightarrow>
    search_state \<Rightarrow> search_state" where
  "search_loop matches r lines lineIndex [] st = st"
| "search_loop matches r lines lineIndex (l # rest) st =
     (if \<not> matches l then search_loop matches r lines (lineIndex + 1) rest st
      else
        let blockStart = lineIndex - or_Context r;
            blockStart = (if blockStart < 0 then 0 else blockStart);
            blockStart = (if blockStart \<le> ss_lastEmitted st then ss_lastEmitted st + 1 else blockStart);
            blockEnd = lineIndex + or_Context r + 1;
            blockEnd = (if int (length lines) < blockEnd then int (length lines) else blockEnd);
            blockRunes = runes (block_of lines blockStart blockEnd);
            remaining = or_Limit r - ss_written st
        in if remaining < int (length blockRunes) then
             (if ss_matchLines st = [] \<and> 0 < remaining
              then st\<lparr>ss_builder := ss_builder st @ string_of (take (nat remaining) blockRunes),
                     ss_matchLines := ss_matchLines st @ [lineIndex + 1],
                     ss_nextStart := lineIndex + 1, ss_truncated := True\<rparr>
              else st\<lparr>ss_nextStart := lineIndex, ss_truncated := True\<rparr>)
           else
             let st' = st\<lparr>ss_builder := ss_builder st @ string_of blockRunes,
                         ss_written := ss_written st + int (length blockRunes),
                         ss_matchLines := ss_matchLines st @ [lineIndex + 1],
                         ss_lastEmitted := blockEnd - 1, ss_nextStart := lineIndex + 1\<rparr>
             in if or_MaxMatches r \<le> int (length (ss_matchLines st'))
                then st'\<lparr>ss_truncated := (ss_nextStart st' < int (length lines))\<rparr>
                else search_loop matches r lines (lineIndex + 1) rest st')"

definition searchCapturedOutput :: "golib \<Rightarrow> string \<Rightarrow> outputReadRequest \<Rightarrow> jobj res" where
  "searchCapturedOutput lib content r =
     (case gl_compile lib (or_Pattern r) of
        Inl e \<Rightarrow> Inl (Errorf ''invalid RE2 pattern: %w'' [ArgE e])
      | Inr matches \<Rightarrow>
        (let lines = splitOutputLines content; n = int (length lines);
             r = (if n < or_StartLine r then r\<lparr>or_StartLine := n\<rparr> else r);
             st = search_loop matches r lines (or_StartLine r) (drop (nat (or_StartLine r)) lines)
               \<lparr>ss_builder = [], ss_matchLines = [], ss_nextStart = n, ss_lastEmitted = - 1,
                ss_written = 0, ss_truncated = False\<rparr>;
             nextStart = (if \<not> ss_truncated st then n else ss_nextStart st)
         in Inr [(''pattern'', JStr (or_Pattern r)), (''start_line'', JInt (or_StartLine r)),
              (''next_start_line'', JInt nextStart), (''total_lines'', JInt n),
              (''match_lines'', JArr (map JInt (ss_matchLines st))),
              (''match_count'', JInt (int (length (ss_matchLines st)))),
              (''max_matches'', JInt (or_MaxMatches r)), (''context'', JInt (or_Context r)),
              (''content'', JStr (ss_builder st)),
              (''content_truncated'', JBool (ss_truncated st)), (''eof'', JBool (n \<le> nextStart))]))"

section \<open>Pages and tails\<close>

definition readCapturedOutput :: "golib \<Rightarrow> capturedOutput \<Rightarrow> outputReadRequest \<Rightarrow> jobj res" where
  "readCapturedOutput lib cap raw =
     (case normalizeOutputReadRequest raw of
        Inl e \<Rightarrow> Inl e
      | Inr r \<Rightarrow>
        (case gm_load (cp_Streams cap) (or_Stream r) of
           None \<Rightarrow> Inl (Errorf ''stream %q is not available; choose one of %s''
             [ArgS (or_Stream r), ArgS (Join '', '' (sort (map fst (cp_Streams cap))))])
         | Some content \<Rightarrow>
           (let result = [(''capture_id'', JStr (cp_ID cap)), (''stream'', JStr (or_Stream r)),
                  (''mode'', JStr (or_Mode r)),
                  (''expires_at'', JStr (gl_rfc3339 lib (cp_ExpiresAt cap))),
                  (''source_truncated'', JBool (cp_SourceTruncated cap))]
            in if or_Mode r = ''search'' then
                 (case searchCapturedOutput lib content r of Inl e \<Rightarrow> Inl e
                  | Inr sr \<Rightarrow> Inr (foldl (\<lambda>m (k, v). jput k v m) result sr))
               else
                 let rs = runes content; n = int (length rs);
                     start = (if or_Mode r = ''tail''
                       then (let s = n - or_Limit r in if s < 0 then 0 else s)
                       else if n < or_Offset r then n else or_Offset r);
                     e = start + or_Limit r;
                     e = (if n < e then n else e)
                 in Inr (result @ [(''offset'', JInt start), (''next_offset'', JInt e),
                      (''limit'', JInt (or_Limit r)), (''total_chars'', JInt n),
                      (''eof'', JBool (e = n)),
                      (''content'', JStr (string_of (drop (nat start) (take (nat e) rs))))]))))"

end
