(* ===== verification/ReadProps.thy ===== *)
theory ReadProps
  imports CaptureRead
begin

text \<open>
  What a reader of a stored output can rely on: paging reassembles it, every answer is bounded, and
  a search reports every matching line once.
\<close>

section \<open>Normalised requests\<close>

lemma normalize_Inr:
  "normalizeOutputReadRequest raw = Inr r \<Longrightarrow>
     r = with_defaults raw \<and> 1 \<le> or_Limit r \<and> or_Limit r \<le> 64000 \<and> 0 \<le> or_Offset r \<and>
     0 \<le> or_StartLine r \<and> 0 \<le> or_Context r \<and> or_Context r \<le> 10 \<and> 1 \<le> or_MaxMatches r \<and>
     or_MaxMatches r \<le> 100 \<and> or_Mode r \<in> {''page'', ''tail'', ''search''}"
  by (auto simp: normalizeOutputReadRequest_def Let_def split: if_splits)

lemma with_defaults_id:
  "or_Stream r \<noteq> [] \<Longrightarrow> or_Mode r \<noteq> [] \<Longrightarrow> or_Limit r \<noteq> 0 \<Longrightarrow> or_MaxMatches r \<noteq> 0 \<Longrightarrow>
     with_defaults r = r"
  by (simp add: with_defaults_def Let_def)

section \<open>Paging\<close>

text \<open>A reader that follows \<open>next_offset\<close> until \<open>eof\<close>, for at most \<open>n\<close> requests.\<close>

definition page_request :: "string \<Rightarrow> int \<Rightarrow> int \<Rightarrow> outputReadRequest" where
  "page_request stream limit off = \<lparr>or_CaptureID = [], or_Stream = stream, or_Mode = ''page'',
     or_Offset = off, or_Limit = limit, or_Pattern = [], or_StartLine = 0, or_Context = 0,
     or_MaxMatches = 0\<rparr>"

fun page_walk :: "golib \<Rightarrow> capturedOutput \<Rightarrow> string \<Rightarrow> int \<Rightarrow> nat \<Rightarrow> int \<Rightarrow> string list option" where
  "page_walk lib cap stream limit 0 off = None"
| "page_walk lib cap stream limit (Suc n) off =
     (case readCapturedOutput lib cap (page_request stream limit off) of Inl e \<Rightarrow> None
      | Inr res \<Rightarrow>
        (if is_bool True (jget ''eof'' res) then Some [asString (jget ''content'' res)]
         else case jget ''next_offset'' res of
             Some (JInt k) \<Rightarrow> map_option ((#) (asString (jget ''content'' res)))
               (page_walk lib cap stream limit n k)
           | _ \<Rightarrow> None))"

text \<open>What a request for a page or a tail answers, in terms of the runes of the stream.\<close>

definition page_answer :: "golib \<Rightarrow> capturedOutput \<Rightarrow> outputReadRequest \<Rightarrow> nat list \<Rightarrow> nat \<Rightarrow> nat \<Rightarrow> jobj" where
  "page_answer lib cap r rs start e =
     [(''capture_id'', JStr (cp_ID cap)), (''stream'', JStr (or_Stream r)), (''mode'', JStr (or_Mode r)),
      (''expires_at'', JStr (gl_rfc3339 lib (cp_ExpiresAt cap))),
      (''source_truncated'', JBool (cp_SourceTruncated cap)),
      (''offset'', JInt (int start)), (''next_offset'', JInt (int e)), (''limit'', JInt (or_Limit r)),
      (''total_chars'', JInt (int (length rs))), (''eof'', JBool (e = length rs)),
      (''content'', JStr (string_of (take (e - start) (drop start rs))))]"

lemma page_answer_get:
  "jget ''next_offset'' (page_answer lib cap r rs start e) = Some (JInt (int e))"
  "jget ''eof'' (page_answer lib cap r rs start e) = Some (JBool (e = length rs))"
  "jget ''content'' (page_answer lib cap r rs start e) = Some (JStr (string_of (take (e - start) (drop start rs))))"
  by (simp_all add: page_answer_def jget_def)

lemma read_page_tail:
  assumes "normalizeOutputReadRequest raw = Inr r" and "or_Mode r \<noteq> ''search''"
    and "gm_load (cp_Streams cap) (or_Stream r) = Some content"
  shows "\<exists>start e. readCapturedOutput lib cap raw = Inr (page_answer lib cap r (runes content) start e) \<and>
     e = min (start + nat (or_Limit r)) (length (runes content)) \<and> start \<le> length (runes content) \<and>
     start = (if or_Mode r = ''tail'' then length (runes content) - nat (or_Limit r)
       else min (nat (or_Offset r)) (length (runes content)))"
proof -
  let ?n = "length (runes content)"
  let ?start = "if or_Mode r = ''tail'' then ?n - nat (or_Limit r) else min (nat (or_Offset r)) ?n"
  let ?e = "min (?start + nat (or_Limit r)) ?n"
  have lim: "1 \<le> or_Limit r" "0 \<le> or_Offset r" using normalize_Inr [OF assms(1)] by auto
  have a: "(if or_Mode r = ''tail'' then (let s = int ?n - or_Limit r in if s < 0 then 0 else s)
      else if int ?n < or_Offset r then int ?n else or_Offset r) = int ?start"
    using lim by (auto simp: Let_def min_def)
  have b: "(if int ?n < int ?start + or_Limit r then int ?n else int ?start + or_Limit r) = int ?e"
    using lim by (auto simp: min_def)
  have c: "drop ?start (take ?e (runes content)) = take (?e - ?start) (drop ?start (runes content))"
    by (rule drop_take)
  have "readCapturedOutput lib cap raw = Inr (page_answer lib cap r (runes content) ?start ?e)"
    unfolding readCapturedOutput_def assms(1) sum.case assms(3) option.case
    by (simp only: Let_def [of "runes content"] Let_def [of "int ?n"] assms(2) if_False a)
      (simp add: Let_def b c page_answer_def)
  then show ?thesis by (intro exI [of _ ?start] exI [of _ ?e]) simp
qed

lemma page_request_ok:
  "stream \<noteq> [] \<Longrightarrow> 1 \<le> limit \<Longrightarrow> limit \<le> 64000 \<Longrightarrow>
    normalizeOutputReadRequest (page_request stream limit (int k)) =
      Inr ((page_request stream limit (int k))\<lparr>or_MaxMatches := 20\<rparr>)"
  by (simp add: normalizeOutputReadRequest_def with_defaults_def page_request_def Let_def)

lemma read_page:
  assumes "gm_load (cp_Streams cap) stream = Some content" "stream \<noteq> []" "1 \<le> limit" "limit \<le> 64000"
    and "k \<le> length (runes content)"
  shows "\<exists>res. readCapturedOutput lib cap (page_request stream limit (int k)) = Inr res \<and>
     jget ''next_offset'' res = Some (JInt (int (min (k + nat limit) (length (runes content))))) \<and>
     is_bool True (jget ''eof'' res) = (length (runes content) \<le> k + nat limit) \<and>
     asString (jget ''content'' res) = string_of (take (nat limit) (drop k (runes content)))"
proof -
  let ?r = "(page_request stream limit (int k))\<lparr>or_MaxMatches := 20\<rparr>" and ?rs = "runes content"
  let ?e = "min (k + nat limit) (length ?rs)"
  have "or_Mode ?r \<noteq> ''search''" "gm_load (cp_Streams cap) (or_Stream ?r) = Some content"
    "or_Limit ?r = limit" "or_Mode ?r \<noteq> ''tail''" "or_Offset ?r = int k"
    by (simp_all add: page_request_def assms(1))
  then have "readCapturedOutput lib cap (page_request stream limit (int k)) =
      Inr (page_answer lib cap ?r ?rs k ?e)"
    using read_page_tail [OF page_request_ok [OF assms(2-4)], of k cap content lib] assms(5) by auto
  moreover have "take (?e - k) (drop k ?rs) = take (nat limit) (drop k ?rs)"
    using assms(5) by (auto simp: min_def)
  ultimately show ?thesis by (auto simp: page_answer_get is_bool_def)
qed

lemma page_walk_from:
  assumes "gm_load (cp_Streams cap) stream = Some content" "stream \<noteq> []" "1 \<le> limit" "limit \<le> 64000"
  shows "k \<le> length (runes content) \<Longrightarrow> length (runes content) < k + n * nat limit \<Longrightarrow>
    \<exists>parts. page_walk lib cap stream limit n (int k) = Some parts \<and>
      concat parts = string_of (drop k (runes content)) \<and>
      (\<forall>p \<in> set parts. int (length (runes p)) \<le> limit)"
proof (induction n arbitrary: k)
  case (Suc n)
  let ?rs = "runes content"
  obtain res where res: "readCapturedOutput lib cap (page_request stream limit (int k)) = Inr res"
     "jget ''next_offset'' res = Some (JInt (int (min (k + nat limit) (length ?rs))))"
     "is_bool True (jget ''eof'' res) = (length ?rs \<le> k + nat limit)"
     "asString (jget ''content'' res) = string_of (take (nat limit) (drop k ?rs))"
    using read_page [OF assms Suc.prems(1)] by blast
  have "list_all scalar (take (nat limit) (drop k ?rs))"
    using runes_scalar [of content] by (auto simp: list_all_iff dest!: in_set_takeD in_set_dropD)
  then have "int (length (runes (string_of (take (nat limit) (drop k ?rs))))) \<le> limit"
    using assms(3) by (simp add: runes_string_of)
  moreover have "string_of (take (nat limit) (drop k ?rs)) @ string_of (drop (k + nat limit) ?rs) =
      string_of (drop k ?rs)"
    by (metis append_take_drop_id drop_drop add.commute string_of_append)
  ultimately have len: "int (length (runes (asString (jget ''content'' res)))) \<le> limit"
    and cat: "asString (jget ''content'' res) @ string_of (drop (k + nat limit) ?rs) = string_of (drop k ?rs)"
    by (simp_all add: res(4))
  show ?case
  proof (cases "length ?rs \<le> k + nat limit")
    case True
    then have "page_walk lib cap stream limit (Suc n) (int k) = Some [asString (jget ''content'' res)]"
      by (simp add: res(1,3))
    moreover have "concat [asString (jget ''content'' res)] = string_of (drop k ?rs)"
      using cat True by simp
    ultimately show ?thesis using len by (metis empty_iff empty_set set_ConsD)
  next
    case False
    have "length ?rs < k + nat limit + n * nat limit" using Suc.prems(2) by simp
    then obtain parts where parts: "page_walk lib cap stream limit n (int (k + nat limit)) = Some parts"
        "concat parts = string_of (drop (k + nat limit) ?rs)"
        "\<forall>p \<in> set parts. int (length (runes p)) \<le> limit"
      using Suc.IH [of "k + nat limit"] False by auto
    have "min (k + nat limit) (length ?rs) = k + nat limit" using False by simp
    note next_offset = res(2) [unfolded this]
    have "page_walk lib cap stream limit (Suc n) (int k) =
        Some (asString (jget ''content'' res) # parts)"
      by (simp only: page_walk.simps res(1) sum.case res(3) False if_False next_offset option.case
          json.case parts(1) option.map)
    moreover have "concat (asString (jget ''content'' res) # parts) = string_of (drop k ?rs)"
      by (simp only: concat.simps parts(2) cat)
    moreover have "\<forall>p \<in> set (asString (jget ''content'' res) # parts). int (length (runes p)) \<le> limit"
      using len parts(3) by (simp only: set_simps) blast
    ultimately show ?thesis by blast
  qed
qed simp

text \<open>C33: A reader that pages through a stream by following the answered offset ends after the
  number of requests its length and its limit call for, no page has more characters than the limit,
  and the pages put together are the stored stream, byte for byte when it is valid UTF-8 and with
  U+FFFD for each invalid byte otherwise.\<close>

theorem paging_reassembles_the_stream:
  assumes "gm_load (cp_Streams cap) stream = Some content" and "stream \<noteq> []"
    and "1 \<le> limit" and "limit \<le> 64000" and "length (runes content) < n * nat limit"
  shows "\<exists>parts. page_walk lib cap stream limit n 0 = Some parts \<and>
    concat parts = string_of (runes content) \<and> (ValidString content \<longrightarrow> concat parts = content) \<and>
    (\<forall>p \<in> set parts. int (RuneCount p) \<le> limit)"
  using page_walk_from [OF assms(1-4), of 0 n lib] assms(5) string_of_runes [of content]
  by (auto simp: RuneCount_def)

definition ex_lib :: golib where
  "ex_lib = \<lparr>gl_sha256 = (\<lambda>s. s), gl_rfc3339 = Itoa, gl_compile = (\<lambda>p. Inr (\<lambda>s. Contains s p)),
     gl_unmarshal = (\<lambda>s. None), gl_marshal = (\<lambda>j. None),
     gl_url_path = (\<lambda>s. None), gl_parse_time = (\<lambda>s. None)\<rparr>"

definition ex_output :: capturedOutput where
  "ex_output = \<lparr>cp_ID = ''cap_x'', cp_Owner = \<lparr>co_TID = ''t'', co_OID = ''u'', co_AppID = ''a''\<rparr>,
     cp_Node = ''n'', cp_Verb = ''run'', cp_RequestID = ''r'', cp_CreatedAt = 5, cp_ExpiresAt = 9,
     cp_LastAccess = 5, cp_Streams = [(''stdout'', ''abcde'')], cp_SourceTruncated = False,
     cp_Bytes = 5\<rparr>"

theorem paging_reassembles_the_stream_witness:
  "\<exists>parts. page_walk ex_lib ex_output ''stdout'' 2 3 0 = Some parts \<and> concat parts = ''abcde''"
proof -
  have "runes ''abcde'' = [97, 98, 99, 100, 101]" "ValidString ''abcde''"
    by (simp_all add: runes_def ValidString_def chunks.simps next_rune_def RuneError_def)
  then show ?thesis
    using paging_reassembles_the_stream [of ex_output "''stdout''" "''abcde''" 2 3 ex_lib]
    by (auto simp: ex_output_def)
qed

section \<open>Search\<close>

lemma upto_snoc: "a \<le> b \<Longrightarrow> [a..b] = [a..b - 1] @ [b]"
  for a b :: int by (rule upto_rec2)

lemma drop_Cons_nth: "drop k xs = x # ys \<Longrightarrow> xs ! k = x \<and> drop (Suc k) xs = ys \<and> k < length xs"
  by (metis Cons_nth_drop_Suc drop_all linorder_not_le list.distinct(1) list.inject)

text \<open>
  Between two rounds of the loop, before line \<open>i\<close>: the matching lines from \<open>s\<close> on have been reported,
  the lines written are those near a reported one, in order, and what is written fits the limit.
\<close>

definition matching :: "(string \<Rightarrow> bool) \<Rightarrow> string list \<Rightarrow> int \<Rightarrow> int \<Rightarrow> int list" where
  "matching m lines s e = filter (\<lambda>k. m (lines ! nat k)) [s..e - 1]"

definition near :: "int \<Rightarrow> int list \<Rightarrow> int \<Rightarrow> bool" where
  "near c ms k \<longleftrightarrow> (\<exists>j \<in> set ms. \<bar>k - j\<bar> \<le> c)"

definition report_ok :: "(string \<Rightarrow> bool) \<Rightarrow> outputReadRequest \<Rightarrow> string list \<Rightarrow> int \<Rightarrow> int \<Rightarrow>
    search_state \<Rightarrow> bool" where
  "report_ok m r lines s e st \<longleftrightarrow>
     ss_matchLines st = map (\<lambda>k. k + 1) (matching m lines s e) \<and>
     (\<exists>bs. list_all scalar bs \<and> ss_builder st = string_of bs \<and> int (length bs) \<le> or_Limit r)"

definition round_ok :: "(string \<Rightarrow> bool) \<Rightarrow> outputReadRequest \<Rightarrow> string list \<Rightarrow> int \<Rightarrow> int \<Rightarrow>
    search_state \<Rightarrow> bool" where
  "round_ok m r lines s i st \<longleftrightarrow>
     ss_matchLines st = map (\<lambda>k. k + 1) (matching m lines s i) \<and>
     (\<exists>bs. list_all scalar bs \<and> ss_builder st = string_of bs \<and> int (length bs) = ss_written st) \<and>
     ss_written st \<le> or_Limit r \<and> (ss_matchLines st = [] \<longrightarrow> ss_written st = 0) \<and>
     int (length (ss_matchLines st)) < or_MaxMatches r \<and> \<not> ss_truncated st \<and> 0 \<le> s \<and> s \<le> i"

lemma matching_step:
  "s \<le> i \<Longrightarrow> matching m lines s (i + 1) =
     matching m lines s i @ (if m (lines ! nat i) then [i] else [])"
  by (simp add: matching_def upto_snoc [of s i])

lemma matching_empty: "matching m lines s s = []"
  by (simp add: matching_def)

declare search_loop.simps [simp del]

lemma search_loop_ok:
  assumes "1 \<le> or_Limit r" and "drop (nat i) lines = rest" and "i \<le> int (length lines)"
    and "round_ok m r lines s i st"
  shows "(let z = search_loop m r lines i rest st;
       e = (if ss_truncated z then ss_nextStart z else int (length lines))
     in report_ok m r lines s e z \<and> s \<le> e \<and> e \<le> int (length lines) \<and>
       (e < int (length lines) \<longrightarrow> s < e) \<and> int (length (ss_matchLines z)) \<le> or_MaxMatches r)"
  using assms
proof (induction m r lines i rest st rule: search_loop.induct)
  case (1 m r lines i st)
  then have "i = int (length lines)" by (auto simp: round_ok_def)
  then show ?case using 1 by (auto simp: Let_def report_ok_def round_ok_def search_loop.simps(1))
next
  case (2 m r lines i l rest st)
  note r = "2.prems"(4) [unfolded round_ok_def]
  obtain bs where bs: "list_all scalar bs" "ss_builder st = string_of bs" "int (length bs) = ss_written st"
    using r by blast
  have i: "0 \<le> i" "s \<le> i" using r by auto
  have l: "lines ! nat i = l" "drop (nat (i + 1)) lines = rest" "i + 1 \<le> int (length lines)"
    using drop_Cons_nth [OF "2.prems"(2)] i by (auto simp: nat_add_distrib)
  show ?case
  proof (cases "m l")
    case False
    have "round_ok m r lines s (i + 1) st"
      using r False i by (auto simp: round_ok_def matching_step l(1))
    moreover have "search_loop m r lines i (l # rest) st = search_loop m r lines (i + 1) rest st"
      using False by (simp add: search_loop.simps(2))
    ultimately show ?thesis using "2.IH"(1) [OF False "2.prems"(1) l(2,3)] by simp
  next
    case True
    let ?b = "if i - or_Context r < 0 then 0 else i - or_Context r"
    let ?bb = "if ?b \<le> ss_lastEmitted st then ss_lastEmitted st + 1 else ?b"
    let ?ee = "if int (length lines) < i + or_Context r + 1 then int (length lines) else i + or_Context r + 1"
    define blk where "blk = runes (block_of lines ?bb ?ee)"
    let ?rem = "or_Limit r - ss_written st"
    let ?st' = "st\<lparr>ss_builder := ss_builder st @ string_of blk,
        ss_written := ss_written st + int (length blk), ss_matchLines := ss_matchLines st @ [i + 1],
        ss_lastEmitted := ?ee - 1, ss_nextStart := i + 1\<rparr>"
    have sc: "list_all scalar blk" by (simp add: blk_def)
    have ms: "map (\<lambda>k. k + 1) (matching m lines s (i + 1)) = ss_matchLines st @ [i + 1]"
      using r True i by (simp add: matching_step l(1))
    have step: "search_loop m r lines i (l # rest) st =
       (if ?rem < int (length blk) then
             (if ss_matchLines st = [] \<and> 0 < ?rem
              then st\<lparr>ss_builder := ss_builder st @ string_of (take (nat ?rem) blk),
                     ss_matchLines := ss_matchLines st @ [i + 1],
                     ss_nextStart := i + 1, ss_truncated := True\<rparr>
              else st\<lparr>ss_nextStart := i, ss_truncated := True\<rparr>)
        else if or_MaxMatches r \<le> int (length (ss_matchLines ?st'))
             then ?st'\<lparr>ss_truncated := (ss_nextStart ?st' < int (length lines))\<rparr>
             else search_loop m r lines (i + 1) rest ?st')"
      using True by (simp only: search_loop.simps Let_def blk_def not_True_eq_False if_False)
    have cnt: "int (length (ss_matchLines st)) < or_MaxMatches r" using r by blast
    consider (first) "?rem < int (length blk)" "ss_matchLines st = []"
      | (full) "?rem < int (length blk)" "ss_matchLines st \<noteq> []"
      | (most) "\<not> ?rem < int (length blk)" "or_MaxMatches r \<le> int (length (ss_matchLines st)) + 1"
      | (more) "\<not> ?rem < int (length blk)" "\<not> or_MaxMatches r \<le> int (length (ss_matchLines st)) + 1"
      by blast
    then show ?thesis
    proof cases
      case first
      let ?cut = "take (nat ?rem) blk"
      have "list_all scalar (bs @ ?cut)" using bs(1) sc by (auto simp: list_all_iff dest: in_set_takeD)
      moreover have "int (length (bs @ ?cut)) \<le> or_Limit r" using bs(3) r by (auto simp: min_def)
      moreover have "ss_builder st @ string_of ?cut = string_of (bs @ ?cut)" by (simp add: bs(2))
      ultimately have "\<exists>bs'. list_all scalar bs' \<and> ss_builder st @ string_of ?cut = string_of bs' \<and>
          int (length bs') \<le> or_Limit r" by blast
      moreover have "0 < ?rem" using r first(2) "2.prems"(1) by simp
      ultimately show ?thesis
        using first ms i l(3) cnt unfolding step by (simp add: Let_def report_ok_def)
    next
      case full
      have "matching m lines s i \<noteq> []" using r full(2) by auto
      then have "s < i" using i(2) matching_empty [of m lines s] by (cases "s = i") auto
      moreover have "report_ok m r lines s i (st\<lparr>ss_nextStart := i, ss_truncated := True\<rparr>)"
        using r bs by (auto simp: report_ok_def)
      ultimately show ?thesis
        using full l(3) cnt unfolding step by (simp add: Let_def)
    next
      case most
      have "list_all scalar (bs @ blk)" "string_of (bs @ blk) = ss_builder st @ string_of blk"
        "int (length (bs @ blk)) \<le> or_Limit r" using bs sc most(1) by simp_all
      then have "\<exists>bs'. list_all scalar bs' \<and> ss_builder st @ string_of blk = string_of bs' \<and>
          int (length bs') \<le> or_Limit r" by metis
      then have ok: "report_ok m r lines s (i + 1) (?st'\<lparr>ss_truncated := b\<rparr>)" for b
        using ms by (simp add: report_ok_def)
      have z: "search_loop m r lines i (l # rest) st =
          ?st'\<lparr>ss_truncated := (i + 1 < int (length lines))\<rparr>"
        unfolding step using most by simp
      show ?thesis
      proof (cases "i + 1 < int (length lines)")
        case True
        then show ?thesis using ok [of True] i cnt unfolding z by (simp add: Let_def)
      next
        case False
        then have "int (length lines) = i + 1" using l(3) by simp
        then show ?thesis using ok [of False] i cnt unfolding z by (simp add: Let_def)
      qed
    next
      case more
      have "list_all scalar (bs @ blk)" "string_of (bs @ blk) = ss_builder st @ string_of blk"
        "int (length (bs @ blk)) = ss_written st + int (length blk)" using bs sc by simp_all
      then have "\<exists>bs'. list_all scalar bs' \<and> ss_builder st @ string_of blk = string_of bs' \<and>
          int (length bs') = ss_written st + int (length blk)" by metis
      then have "round_ok m r lines s (i + 1) ?st'"
        using ms more i r by (simp add: round_ok_def)
      then show ?thesis
        using "2.IH"(2) [OF _ refl refl refl refl refl refl refl, folded blk_def] True more "2.prems"(1) l(2,3)
        unfolding step by (simp add: blk_def Let_def)
    qed
  qed
qed

text \<open>The lines a search writes: those near a reported line, in increasing order and once each.\<close>

definition written_lines :: "string list \<Rightarrow> (int \<times> int) list \<Rightarrow> string" where
  "written_lines lines bl = concat (map (\<lambda>(a, b). string_of (runes (block_of lines a b))) bl)"

definition line_numbers :: "(int \<times> int) list \<Rightarrow> int list" where
  "line_numbers bl = concat (map (\<lambda>(a, b). [a..b - 1]) bl)"

definition exact_context :: "int \<Rightarrow> string list \<Rightarrow> search_state \<Rightarrow> (int \<times> int) list \<Rightarrow> bool" where
  "exact_context c lines st bl \<longleftrightarrow>
     ss_builder st = written_lines lines bl \<and> sorted_wrt (<) (line_numbers bl) \<and>
     set (line_numbers bl) = {k. 0 \<le> k \<and> k < int (length lines) \<and> near c (ss_matchLines st) (k + 1)}"

definition context_round :: "int \<Rightarrow> string list \<Rightarrow> int \<Rightarrow> search_state \<Rightarrow> bool" where
  "context_round c lines i st \<longleftrightarrow>
     (\<exists>bl. exact_context c lines st bl \<and> (\<forall>k \<in> set (line_numbers bl). k \<le> ss_lastEmitted st)) \<and>
     - 1 \<le> ss_lastEmitted st \<and> ss_lastEmitted st < int (length lines) \<and>
     (ss_matchLines st = [] \<longrightarrow> ss_lastEmitted st = - 1) \<and>
     (ss_matchLines st \<noteq> [] \<longrightarrow> (\<exists>j \<in> set (ss_matchLines st). ss_lastEmitted st \<le> j - 1 + c)) \<and>
     (\<forall>j \<in> set (ss_matchLines st). j \<le> i)"

lemma line_numbers_snoc: "line_numbers (bl @ [(a, b)]) = line_numbers bl @ [a..b - 1]"
  by (simp add: line_numbers_def)

lemma written_lines_snoc:
  "written_lines lines (bl @ [(a, b)]) = written_lines lines bl @ string_of (runes (block_of lines a b))"
  by (simp add: written_lines_def)

lemma sorted_upto: "sorted_wrt (<) [a..b]" for a b :: int
proof (induction a b rule: upto.induct)
  case (1 a b)
  then show ?case by (cases "a \<le> b") (auto simp: upto.simps [of a b])
qed

lemma context_round_step:
  assumes "context_round c lines i st" and "0 \<le> c" "0 \<le> i" "i < int (length lines)"
    and "bb = max (max 0 (i - c)) (ss_lastEmitted st + 1)" "ee = min (int (length lines)) (i + c + 1)"
    and "ss_builder st' = ss_builder st @ string_of (runes (block_of lines bb ee))"
    and "ss_matchLines st' = ss_matchLines st @ [i + 1]" "ss_lastEmitted st' = ee - 1"
  shows "context_round c lines (i + 1) st'"
proof -
  let ?n = "int (length lines)" and ?ml = "ss_matchLines st" and ?last = "ss_lastEmitted st"
  obtain bl where bl: "exact_context c lines st bl" "\<forall>k \<in> set (line_numbers bl). k \<le> ?last"
    using assms(1) by (auto simp: context_round_def)
  have last: "- 1 \<le> ?last" "?last < ?n" "?ml = [] \<Longrightarrow> ?last = - 1"
      "?ml \<noteq> [] \<Longrightarrow> \<exists>j \<in> set ?ml. ?last \<le> j - 1 + c" "\<forall>j \<in> set ?ml. j \<le> i"
    using assms(1) by (auto simp: context_round_def)
  have le: "?last \<le> ee - 1"
  proof (cases "?ml = []")
    case True
    then show ?thesis using last(3) assms(2-4,6) by simp
  next
    case False
    then obtain j where "?last \<le> j - 1 + c" "j \<le> i" using last(4,5) by blast
    then show ?thesis using last(2) assms(6) by simp
  qed
  have near': "near c (?ml @ [i + 1]) (k + 1) \<longleftrightarrow> near c ?ml (k + 1) \<or> \<bar>k - i\<bar> \<le> c" for k
    by (auto simp: near_def)
  have old: "near c ?ml (k + 1)" if "\<bar>k - i\<bar> \<le> c" "0 \<le> k" "k < bb" for k
  proof -
    have k: "k \<le> ?last" using that assms(5) by auto
    then have "?ml \<noteq> []" using last(3) that(2) by auto
    then obtain j where j: "j \<in> set ?ml" "?last \<le> j - 1 + c" "j \<le> i" using last(4,5) by blast
    then have "\<bar>k + 1 - j\<bar> \<le> c" using that(1) k by (simp add: abs_le_iff)
    then show ?thesis using j(1) by (auto simp: near_def)
  qed
  have new: "set [bb..ee - 1] \<subseteq> {k. 0 \<le> k \<and> k < ?n \<and> \<bar>k - i\<bar> \<le> c}"
    using assms(5,6) by auto
  have "set (line_numbers (bl @ [(bb, ee)])) =
      {k. 0 \<le> k \<and> k < ?n \<and> near c (ss_matchLines st') (k + 1)}"
  proof -
    have "k \<in> set [bb..ee - 1] \<or> near c ?ml (k + 1)" if k: "\<bar>k - i\<bar> \<le> c" "0 \<le> k" "k < ?n" for k
    proof (cases "k < bb")
      case True
      then show ?thesis using old k by blast
    next
      case False
      have "k < ee" using k unfolding assms(6) by (simp add: abs_le_iff)
      then show ?thesis using False by simp
    qed
    then have "set [bb..ee - 1] \<union> {k. 0 \<le> k \<and> k < ?n \<and> near c ?ml (k + 1)} =
        {k. 0 \<le> k \<and> k < ?n \<and> (near c ?ml (k + 1) \<or> \<bar>k - i\<bar> \<le> c)}"
      using new by blast
    then show ?thesis
      using bl(1) by (simp add: line_numbers_snoc exact_context_def assms(8) near' Un_commute)
  qed
  moreover have "sorted_wrt (<) (line_numbers (bl @ [(bb, ee)]))"
  proof -
    have "?last < bb" by (simp add: assms(5))
    then have "x < y" if "x \<in> set (line_numbers bl)" "y \<in> set [bb..ee - 1]" for x y
      using bl(2) that by fastforce
    then show ?thesis
      using bl(1) by (simp only: line_numbers_snoc exact_context_def sorted_wrt_append sorted_upto)
        blast
  qed
  moreover have "ss_builder st' = written_lines lines (bl @ [(bb, ee)])"
    using bl(1) by (simp add: assms(7) written_lines_snoc exact_context_def)
  ultimately have "exact_context c lines st' (bl @ [(bb, ee)])" by (simp add: exact_context_def)
  moreover have "\<forall>k \<in> set (line_numbers (bl @ [(bb, ee)])). k \<le> ee - 1"
    using bl(2) le by (auto simp: line_numbers_snoc)
  moreover have "ee - 1 < ?n" "- 1 \<le> ee - 1" using assms(2-4,6) by auto
  moreover have "\<exists>j \<in> set (ss_matchLines st'). ss_lastEmitted st' \<le> j - 1 + c"
    by (rule bexI [of _ "i + 1"]) (simp_all add: assms(6,8,9))
  moreover have "\<forall>j \<in> set (ss_matchLines st'). j \<le> i + 1" using last(5) by (auto simp: assms(8))
  moreover have "ss_matchLines st' \<noteq> []" by (simp add: assms(8))
  ultimately show ?thesis unfolding context_round_def assms(9) by blast
qed

lemma search_loop_context:
  assumes "0 \<le> or_Context r" and "drop (nat i) lines = rest" and "0 \<le> i"
    and "context_round (or_Context r) lines i st" and "\<not> ss_truncated (search_loop m r lines i rest st)"
  shows "\<exists>bl. exact_context (or_Context r) lines (search_loop m r lines i rest st) bl"
  using assms
proof (induction m r lines i rest st rule: search_loop.induct)
  case (1 m r lines i st)
  then show ?case by (auto simp: context_round_def search_loop.simps(1))
next
  case (2 m r lines i l rest st)
  have l: "lines ! nat i = l" "drop (nat (i + 1)) lines = rest" "i < int (length lines)" "0 \<le> i + 1"
    using drop_Cons_nth [OF "2.prems"(2)] "2.prems"(3) by (auto simp: nat_add_distrib)
  show ?case
  proof (cases "m l")
    case False
    have "context_round (or_Context r) lines (i + 1) st"
      using "2.prems"(4) by (force simp: context_round_def)
    moreover have "search_loop m r lines i (l # rest) st = search_loop m r lines (i + 1) rest st"
      using False by (simp add: search_loop.simps(2))
    ultimately show ?thesis
      using "2.IH"(1) [OF False "2.prems"(1) l(2,4)] "2.prems"(5) by simp
  next
    case True
    let ?b = "if i - or_Context r < 0 then 0 else i - or_Context r"
    let ?bb = "if ?b \<le> ss_lastEmitted st then ss_lastEmitted st + 1 else ?b"
    let ?ee = "if int (length lines) < i + or_Context r + 1 then int (length lines) else i + or_Context r + 1"
    define blk where "blk = runes (block_of lines ?bb ?ee)"
    let ?rem = "or_Limit r - ss_written st"
    let ?st' = "st\<lparr>ss_builder := ss_builder st @ string_of blk,
        ss_written := ss_written st + int (length blk), ss_matchLines := ss_matchLines st @ [i + 1],
        ss_lastEmitted := ?ee - 1, ss_nextStart := i + 1\<rparr>"
    have step: "search_loop m r lines i (l # rest) st =
       (if ?rem < int (length blk) then
             (if ss_matchLines st = [] \<and> 0 < ?rem
              then st\<lparr>ss_builder := ss_builder st @ string_of (take (nat ?rem) blk),
                     ss_matchLines := ss_matchLines st @ [i + 1],
                     ss_nextStart := i + 1, ss_truncated := True\<rparr>
              else st\<lparr>ss_nextStart := i, ss_truncated := True\<rparr>)
        else if or_MaxMatches r \<le> int (length (ss_matchLines ?st'))
             then ?st'\<lparr>ss_truncated := (ss_nextStart ?st' < int (length lines))\<rparr>
             else search_loop m r lines (i + 1) rest ?st')"
      using True by (simp only: search_loop.simps Let_def blk_def not_True_eq_False if_False)
    have bb: "?bb = max (max 0 (i - or_Context r)) (ss_lastEmitted st + 1)"
      and ee: "?ee = min (int (length lines)) (i + or_Context r + 1)"
      by (auto simp: max_def min_def)
    have ctx: "context_round (or_Context r) lines (i + 1) ?st'"
      by (rule context_round_step [OF "2.prems"(4,1,3) l(3) bb ee]) (simp_all add: blk_def)
    have fits: "\<not> ?rem < int (length blk)" using "2.prems"(5) unfolding step by (auto split: if_splits)
    show ?thesis
    proof (cases "or_MaxMatches r \<le> int (length (ss_matchLines ?st'))")
      case most: True
      have "\<exists>bl. exact_context (or_Context r) lines (?st'\<lparr>ss_truncated := b\<rparr>) bl" for b
        using ctx by (auto simp: context_round_def exact_context_def)
      then show ?thesis unfolding step using fits most by simp
    next
      case False
      then show ?thesis
        using "2.IH"(2) [OF _ refl refl refl refl refl refl refl, folded blk_def] True fits
          "2.prems"(1,5) l(2,4) ctx
        unfolding step by (simp add: blk_def Let_def)
    qed
  qed
qed

definition search_answer :: "outputReadRequest \<Rightarrow> int \<Rightarrow> int \<Rightarrow> int \<Rightarrow> search_state \<Rightarrow> jobj" where
  "search_answer r s e n st =
     [(''pattern'', JStr (or_Pattern r)), (''start_line'', JInt s), (''next_start_line'', JInt e),
      (''total_lines'', JInt n), (''match_lines'', JArr (map JInt (ss_matchLines st))),
      (''match_count'', JInt (int (length (ss_matchLines st)))),
      (''max_matches'', JInt (or_MaxMatches r)), (''context'', JInt (or_Context r)),
      (''content'', JStr (ss_builder st)),
      (''content_truncated'', JBool (ss_truncated st)), (''eof'', JBool (n \<le> e))]"

lemma search_answer_get:
  "jget ''next_start_line'' (search_answer r s e n st) = Some (JInt e)"
  "jget ''match_lines'' (search_answer r s e n st) = Some (JArr (map JInt (ss_matchLines st)))"
  "jget ''content'' (search_answer r s e n st) = Some (JStr (ss_builder st))"
  "jget ''content_truncated'' (search_answer r s e n st) = Some (JBool (ss_truncated st))"
  "jget ''eof'' (search_answer r s e n st) = Some (JBool (n \<le> e))"
  by (simp_all add: search_answer_def jget_def)

lemma search_run:
  assumes "1 \<le> or_Limit r" "0 \<le> or_StartLine r" "0 \<le> or_Context r" "1 \<le> or_MaxMatches r"
    and "gl_compile lib (or_Pattern r) = Inr m"
  shows "\<exists>s e st. (let lines = splitOutputLines content; n = int (length lines) in
     searchCapturedOutput lib content r = Inr (search_answer r s e n st) \<and>
     s = min (or_StartLine r) n \<and> report_ok m r lines s e st \<and> s \<le> e \<and> e \<le> n \<and> (e < n \<longrightarrow> s < e) \<and>
     int (length (ss_matchLines st)) \<le> or_MaxMatches r \<and>
     (\<not> ss_truncated st \<longrightarrow> (\<exists>bl. exact_context (or_Context r) lines st bl)))"
proof -
  define lines where "lines = splitOutputLines content"
  define s where "s = min (or_StartLine r) (int (length lines))"
  let ?n = "int (length lines)" and ?r = "r\<lparr>or_StartLine := s\<rparr>"
  let ?st0 = "\<lparr>ss_builder = [], ss_matchLines = [], ss_nextStart = ?n, ss_lastEmitted = - 1,
                ss_written = 0, ss_truncated = False\<rparr>"
  define st where "st = search_loop m ?r lines s (drop (nat s) lines) ?st0"
  let ?e = "if ss_truncated st then ss_nextStart st else ?n"
  have s: "0 \<le> s" "s \<le> ?n" using assms(2) by (auto simp: s_def)
  have "round_ok m ?r lines s s ?st0"
    using s assms(1,4) by (simp add: round_ok_def matching_empty)
  then have ok: "report_ok m r lines s ?e st \<and> s \<le> ?e \<and> ?e \<le> ?n \<and> (?e < ?n \<longrightarrow> s < ?e) \<and>
      int (length (ss_matchLines st)) \<le> or_MaxMatches r"
    using search_loop_ok [of ?r s lines "drop (nat s) lines" m s ?st0] s assms(1)
    unfolding st_def [symmetric] by (auto simp: Let_def report_ok_def)
  have "exact_context (or_Context r) lines ?st0 []"
    by (auto simp: exact_context_def written_lines_def line_numbers_def near_def)
  then have "context_round (or_Context ?r) lines s ?st0"
    by (auto simp: context_round_def line_numbers_def)
  then have ctx: "\<not> ss_truncated st \<longrightarrow> (\<exists>bl. exact_context (or_Context r) lines st bl)"
    using search_loop_context [of ?r s lines "drop (nat s) lines" ?st0 m] assms(3) s(1)
    unfolding st_def [symmetric] by auto
  have r: "(if ?n < or_StartLine r then r\<lparr>or_StartLine := ?n\<rparr> else r) = ?r"
    by (auto simp: s_def min_def)
  have st: "search_loop m ?r lines (or_StartLine ?r) (drop (nat (or_StartLine ?r)) lines) ?st0 = st"
    by (simp add: st_def)
  have e: "(if \<not> ss_truncated st then ?n else ss_nextStart st) = ?e" by simp
  have "searchCapturedOutput lib content r = Inr (search_answer r s ?e ?n st)"
    unfolding searchCapturedOutput_def assms(5) sum.case lines_def [symmetric] Let_def r st e
    by (simp add: search_answer_def)
  then show ?thesis using ok ctx unfolding Let_def lines_def [symmetric]
    by (intro exI [of _ s] exI [of _ ?e] exI [of _ st]) (simp add: s_def)
qed

text \<open>A search answers the matching lines of a range that begins at the requested line and ends
  before the answered next line: all of them, in order, once each. It makes progress unless it is at
  the end, stays within \<open>max_matches\<close> and the character limit, and when nothing was cut its text is
  exactly the lines within the context distance of a reported line, in order and once each.\<close>

theorem search_reports_its_range:
  assumes "normalizeOutputReadRequest raw = Inr r" and "gl_compile lib (or_Pattern r) = Inr m"
    and "lines = splitOutputLines content"
  shows "\<exists>res s e. searchCapturedOutput lib content r = Inr res \<and>
     s = min (or_StartLine r) (int (length lines)) \<and> s \<le> e \<and> e \<le> int (length lines) \<and>
     jget ''next_start_line'' res = Some (JInt e) \<and>
     jget ''eof'' res = Some (JBool (e = int (length lines))) \<and> (e < int (length lines) \<longrightarrow> s < e) \<and>
     jget ''match_lines'' res = Some (JArr (map (\<lambda>k. JInt (k + 1)) (matching m lines s e))) \<and>
     int (length (matching m lines s e)) \<le> or_MaxMatches r \<and>
     int (RuneCount (asString (jget ''content'' res))) \<le> or_Limit r \<and>
     (is_bool False (jget ''content_truncated'' res) \<longrightarrow>
       (\<exists>bl. asString (jget ''content'' res) = written_lines lines bl \<and>
         sorted_wrt (<) (line_numbers bl) \<and>
         set (line_numbers bl) = {k. 0 \<le> k \<and> k < int (length lines) \<and>
           near (or_Context r) (matching m lines s e) k}))"
proof -
  have n: "1 \<le> or_Limit r" "0 \<le> or_StartLine r" "0 \<le> or_Context r" "1 \<le> or_MaxMatches r"
    using normalize_Inr [OF assms(1)] by auto
  obtain s e st where st: "searchCapturedOutput lib content r =
        Inr (search_answer r s e (int (length lines)) st)"
      "s = min (or_StartLine r) (int (length lines))" "report_ok m r lines s e st" "s \<le> e"
      "e \<le> int (length lines)" "e < int (length lines) \<longrightarrow> s < e"
      "int (length (ss_matchLines st)) \<le> or_MaxMatches r"
      "\<not> ss_truncated st \<longrightarrow> (\<exists>bl. exact_context (or_Context r) lines st bl)"
    using search_run [OF n assms(2), of content] unfolding assms(3) [symmetric] Let_def by blast
  let ?ms = "matching m lines s e" and ?res = "search_answer r s e (int (length lines)) st"
  have ms: "ss_matchLines st = map (\<lambda>k. k + 1) ?ms" using st(3) by (simp add: report_ok_def)
  have "near (or_Context r) (ss_matchLines st) (k + 1) = near (or_Context r) ?ms k" for k
    by (auto simp: near_def ms)
  then have ctx: "\<not> ss_truncated st \<longrightarrow> (\<exists>bl. ss_builder st = written_lines lines bl \<and>
       sorted_wrt (<) (line_numbers bl) \<and> set (line_numbers bl) =
         {k. 0 \<le> k \<and> k < int (length lines) \<and> near (or_Context r) ?ms k})"
    using st(8) by (auto simp: exact_context_def)
  have "int (RuneCount (ss_builder st)) \<le> or_Limit r"
    using st(3) by (auto simp: report_ok_def RuneCount_def runes_string_of)
  then have size_ok: "int (length ?ms) \<le> or_MaxMatches r"
      "int (RuneCount (asString (jget ''content'' ?res))) \<le> or_Limit r"
    using st(7) by (simp_all add: ms search_answer_get)
  have fields: "jget ''next_start_line'' ?res = Some (JInt e)"
      "jget ''eof'' ?res = Some (JBool (e = int (length lines)))"
      "jget ''match_lines'' ?res = Some (JArr (map (\<lambda>k. JInt (k + 1)) ?ms))"
    using st(5) by (auto simp: search_answer_get ms)
  have text_ok: "is_bool False (jget ''content_truncated'' ?res) \<longrightarrow>
      (\<exists>bl. asString (jget ''content'' ?res) = written_lines lines bl \<and>
         sorted_wrt (<) (line_numbers bl) \<and>
         set (line_numbers bl) = {k. 0 \<le> k \<and> k < int (length lines) \<and> near (or_Context r) ?ms k})"
    using ctx by (simp add: search_answer_get is_bool_def)
  show ?thesis
    by (rule exI [of _ ?res], rule exI [of _ s], rule exI [of _ e], intro conjI)
      (rule st(1) st(2) st(4) st(5) st(6) fields size_ok text_ok)+
qed

definition search_request :: "string \<Rightarrow> string \<Rightarrow> int \<Rightarrow> int \<Rightarrow> outputReadRequest" where
  "search_request stream pattern limit start = \<lparr>or_CaptureID = [], or_Stream = stream,
     or_Mode = ''search'', or_Offset = 0, or_Limit = limit, or_Pattern = pattern,
     or_StartLine = start, or_Context = 0, or_MaxMatches = 20\<rparr>"

lemma search_request_ok:
  "stream \<noteq> [] \<Longrightarrow> pattern \<noteq> [] \<Longrightarrow> length pattern \<le> 256 \<Longrightarrow> 1 \<le> limit \<Longrightarrow> limit \<le> 64000 \<Longrightarrow> 0 \<le> start \<Longrightarrow>
    normalizeOutputReadRequest (search_request stream pattern limit start) =
      Inr (search_request stream pattern limit start)"
  by (simp add: normalizeOutputReadRequest_def with_defaults_def search_request_def Let_def)

theorem search_reports_its_range_witness:
  "\<exists>res. searchCapturedOutput ex_lib ''ab'' (search_request ''stdout'' ''b'' 100 0) = Inr res \<and>
     jget ''match_lines'' res = Some (JArr [JInt 1]) \<and> jget ''next_start_line'' res = Some (JInt 1)"
proof -
  have r: "normalizeOutputReadRequest (search_request ''stdout'' ''b'' 100 0) =
      Inr (search_request ''stdout'' ''b'' 100 0)"
    by (rule search_request_ok) simp_all
  have c: "gl_compile ex_lib (or_Pattern (search_request ''stdout'' ''b'' 100 0)) =
      Inr (\<lambda>s. Contains s ''b'')" by (simp add: ex_lib_def search_request_def)
  have l: "[''ab''] = splitOutputLines ''ab''" by (simp add: splitOutputLines_def HasSuffix_def)
  have s: "or_StartLine (search_request ''stdout'' ''b'' 100 0) = 0" by (simp add: search_request_def)
  obtain res s e where w: "searchCapturedOutput ex_lib ''ab'' (search_request ''stdout'' ''b'' 100 0) = Inr res"
      "s = 0" "s \<le> e" "e \<le> 1" "jget ''next_start_line'' res = Some (JInt e)" "e < 1 \<longrightarrow> s < e"
      "jget ''match_lines'' res =
        Some (JArr (map (\<lambda>k. JInt (k + 1)) (matching (\<lambda>s. Contains s ''b'') [''ab''] s e)))"
    using search_reports_its_range [OF r c l] unfolding s by auto
  then have "e = 1" by simp
  then show ?thesis using w by (auto simp: matching_def)
qed

text \<open>A reader that follows \<open>next_start_line\<close> until \<open>eof\<close>, for at most \<open>n\<close> requests.\<close>

fun search_walk :: "golib \<Rightarrow> string \<Rightarrow> outputReadRequest \<Rightarrow> nat \<Rightarrow> int \<Rightarrow> json list option" where
  "search_walk lib content raw 0 start = None"
| "search_walk lib content raw (Suc n) start =
     (case normalizeOutputReadRequest (raw\<lparr>or_StartLine := start\<rparr>) of Inl e \<Rightarrow> None
      | Inr r \<Rightarrow> (case searchCapturedOutput lib content r of Inl e \<Rightarrow> None
        | Inr res \<Rightarrow>
          (case (jget ''next_start_line'' res, asArr (jget ''match_lines'' res)) of
             (Some (JInt k), Some ms) \<Rightarrow>
               (if is_bool True (jget ''eof'' res) then Some ms
                else map_option ((@) ms) (search_walk lib content raw n k))
           | _ \<Rightarrow> None)))"

lemma normalize_start:
  assumes "normalizeOutputReadRequest raw = Inr r" and "0 \<le> start"
  shows "normalizeOutputReadRequest (raw\<lparr>or_StartLine := start\<rparr>) = Inr (r\<lparr>or_StartLine := start\<rparr>)"
proof -
  have w: "with_defaults (raw\<lparr>or_StartLine := start\<rparr>) = (with_defaults raw)\<lparr>or_StartLine := start\<rparr>"
    by (simp add: with_defaults_def Let_def)
  show ?thesis
    using assms unfolding normalizeOutputReadRequest_def w by (auto simp: Let_def split: if_splits)
qed

lemma matching_split:
  assumes "0 \<le> s" "s \<le> e" "e \<le> n"
  shows "matching m lines s e @ matching m lines e n = matching m lines s n"
proof -
  have "[s..n - 1] = [s..e - 1] @ [e..n - 1]"
    using upto_split1 [of s e "n - 1"] assms by (cases "e \<le> n - 1") auto
  then show ?thesis by (simp add: matching_def)
qed

lemma search_walk_from:
  assumes "normalizeOutputReadRequest raw = Inr r" and "gl_compile lib (or_Pattern r) = Inr m"
    and "lines = splitOutputLines content"
  shows "0 \<le> start \<Longrightarrow> start \<le> int (length lines) \<Longrightarrow> int (length lines) < start + int n \<Longrightarrow>
    search_walk lib content raw n start =
      Some (map (\<lambda>k. JInt (k + 1)) (matching m lines start (int (length lines))))"
proof (induction n arbitrary: start)
  case (Suc n)
  let ?r = "r\<lparr>or_StartLine := start\<rparr>"
  have r: "normalizeOutputReadRequest (raw\<lparr>or_StartLine := start\<rparr>) = Inr ?r"
    using assms(1) Suc.prems(1) by (rule normalize_start)
  have c: "gl_compile lib (or_Pattern ?r) = Inr m" using assms(2) by simp
  obtain st e where w: "searchCapturedOutput lib content ?r = Inr (search_answer ?r start e (int (length lines)) st)"
     "report_ok m ?r lines start e st" "start \<le> e" "e \<le> int (length lines)"
     "e < int (length lines) \<longrightarrow> start < e"
  proof -
    have "1 \<le> or_Limit ?r" "0 \<le> or_StartLine ?r" "0 \<le> or_Context ?r" "1 \<le> or_MaxMatches ?r"
      using normalize_Inr [OF r] by blast+
    moreover have "min (or_StartLine ?r) (int (length lines)) = start" using Suc.prems(2) by simp
    ultimately show ?thesis
      using search_run [of ?r lib m content] c that unfolding Let_def assms(3) [symmetric] by metis
  qed
  let ?res = "search_answer ?r start e (int (length lines)) st"
  let ?ms = "map (\<lambda>k. JInt (k + 1)) (matching m lines start e)"
  have ms: "asArr (jget ''match_lines'' ?res) = Some ?ms"
    using w(2) by (simp add: search_answer_get report_ok_def)
  have n: "jget ''next_start_line'' ?res = Some (JInt e)"
    and eof: "is_bool True (jget ''eof'' ?res) = (int (length lines) \<le> e)"
    by (simp_all add: search_answer_get is_bool_def)
  have step: "search_walk lib content raw (Suc n) start =
      (if int (length lines) \<le> e then Some ?ms else map_option ((@) ?ms) (search_walk lib content raw n e))"
    by (simp only: search_walk.simps r w(1) sum.case n ms eof prod.case option.case json.case)
  show ?case
  proof (cases "int (length lines) \<le> e")
    case True
    then have "e = int (length lines)" using w(4) by simp
    then show ?thesis unfolding step by simp
  next
    case False
    then have ih: "search_walk lib content raw n e =
        Some (map (\<lambda>k. JInt (k + 1)) (matching m lines e (int (length lines))))"
      using w(3-5) Suc.prems by (intro Suc.IH) auto
    show ?thesis
      unfolding step ih matching_split [OF Suc.prems(1) w(3,4), of m lines, symmetric]
      using False by simp
  qed
qed simp

text \<open>C34: A reader that repeats a search from the answered next line ends after at most one request
  for each line, plus one, and the answers together name every matching line of the stream exactly
  once and in order, whatever the limits cut each answer to.\<close>

theorem search_walk_finds_every_match:
  assumes "normalizeOutputReadRequest raw = Inr r" and "gl_compile lib (or_Pattern r) = Inr m"
    and "lines = splitOutputLines content" and "length lines < n"
  shows "search_walk lib content raw n 0 =
    Some (map (\<lambda>k. JInt (k + 1)) (filter (\<lambda>k. m (lines ! nat k)) [0..int (length lines) - 1]))"
  using search_walk_from [OF assms(1-3), of 0 n] assms(4) by (simp add: matching_def)

theorem search_walk_finds_every_match_witness:
  "search_walk ex_lib ''ab'' (search_request ''stdout'' ''b'' 1 0) 2 0 = Some [JInt 1]"
proof -
  have r: "normalizeOutputReadRequest (search_request ''stdout'' ''b'' 1 0) =
      Inr (search_request ''stdout'' ''b'' 1 0)"
    by (rule search_request_ok) simp_all
  have c: "gl_compile ex_lib (or_Pattern (search_request ''stdout'' ''b'' 1 0)) =
      Inr (\<lambda>s. Contains s ''b'')" by (simp add: ex_lib_def search_request_def)
  have l: "[''ab''] = splitOutputLines ''ab''" by (simp add: splitOutputLines_def HasSuffix_def)
  show ?thesis using search_walk_finds_every_match [OF r c l, of 2] by simp
qed

section \<open>Bounds of every answer\<close>

text \<open>Whatever a reader asks for, in whatever mode, an answer carries at most the requested
  number of characters (12,000 when none is requested), and never more than 64,000.\<close>

theorem answer_is_bounded:
  assumes "readCapturedOutput lib cap raw = Inr res"
  shows "int (RuneCount (asString (jget ''content'' res))) \<le>
      (if or_Limit raw = 0 then 12000 else or_Limit raw) \<and>
    int (RuneCount (asString (jget ''content'' res))) \<le> 64000 \<and>
    or_Mode raw \<in> {[], ''page'', ''tail'', ''search''}"
proof -
  obtain r where r: "normalizeOutputReadRequest raw = Inr r"
    using assms by (auto simp: readCapturedOutput_def split: sum.splits)
  note n = normalize_Inr [OF r]
  have lim: "or_Limit r = (if or_Limit raw = 0 then 12000 else or_Limit raw)"
    and mode: "or_Mode raw \<in> {[], ''page'', ''tail'', ''search''}"
    using n by (auto simp: with_defaults_def Let_def split: if_splits)
  obtain content where c: "gm_load (cp_Streams cap) (or_Stream r) = Some content"
    using assms by (auto simp: readCapturedOutput_def r split: option.splits)
  have "int (RuneCount (asString (jget ''content'' res))) \<le> or_Limit r"
  proof (cases "or_Mode r = ''search''")
    case True
    obtain sr where sr: "searchCapturedOutput lib content r = Inr sr"
      using assms True by (auto simp: readCapturedOutput_def r c Let_def split: sum.splits)
    then obtain m where m: "gl_compile lib (or_Pattern r) = Inr m"
      by (auto simp: searchCapturedOutput_def split: sum.splits)
    obtain s e k st where st: "sr = search_answer r s e k st"
        "report_ok m r (splitOutputLines content) s e st"
      using search_run [OF _ _ _ _ m, of content] n sr by (auto simp: Let_def)
    have "jget ''content'' res = Some (JStr (ss_builder st))"
      using assms True by (auto simp: readCapturedOutput_def r c Let_def sr st(1) jget_foldl_jput
          search_answer_get)
    then show ?thesis using st(2) by (auto simp: report_ok_def RuneCount_def runes_string_of)
  next
    case False
    obtain start e where a: "res = page_answer lib cap r (runes content) start e"
        "e = min (start + nat (or_Limit r)) (length (runes content))"
      using read_page_tail [OF r False c, of lib] assms by auto
    have "list_all scalar (take (e - start) (drop start (runes content)))"
      using runes_scalar [of content] by (auto simp: list_all_iff dest!: in_set_takeD in_set_dropD)
    then show ?thesis
      using a(2) n by (auto simp: a(1) page_answer_get RuneCount_def runes_string_of min_def)
  qed
  then show ?thesis using lim mode n by auto
qed

theorem answer_is_bounded_witness:
  "\<exists>res. readCapturedOutput ex_lib ex_output (page_request ''stdout'' 3 0) = Inr res \<and>
     int (RuneCount (asString (jget ''content'' res))) \<le> 3"
proof -
  have "gm_load (cp_Streams ex_output) ''stdout'' = Some ''abcde''" by (simp add: ex_output_def)
  then obtain res where res: "readCapturedOutput ex_lib ex_output (page_request ''stdout'' 3 0) = Inr res"
    using read_page [of ex_output "''stdout''" "''abcde''" 3 0 ex_lib] by auto
  then show ?thesis using answer_is_bounded [OF res] by (auto simp: page_request_def)
qed

end
