(* ===== verification/RunResult.thy ===== *)
theory RunResult
  imports CaptureLife CaptureRead CallLog
begin

text \<open>
  \<open>capture.go\<close>, \<open>prepareRunResult\<close>: the answer of a node to a run is passed on as it is, or its output
  is put in the capture store and replaced by a preview and a descriptor.
\<close>

section \<open>Previews and descriptors\<close>

definition outputLineCount :: "string \<Rightarrow> int" where
  "outputLineCount v =
     (if v = [] then 0
      else let n = int (length (filter (\<lambda>c. c = CHR 0x0A) v))
        in if \<not> HasSuffix v [CHR 0x0A] then n + 1 else n)"

definition prefixRunes :: "string \<Rightarrow> nat \<Rightarrow> string \<times> bool" where
  "prefixRunes v limit =
     (let rs = runes v in if length rs \<le> limit then (v, False) else (string_of (take limit rs), True))"

definition capturePreviewChars :: nat where
  "capturePreviewChars = 2048"

definition stream_metadata :: "golib \<Rightarrow> string \<Rightarrow> json" where
  "stream_metadata lib content = JObj
     [(''bytes'', JInt (int (length content))), (''chars'', JInt (int (RuneCount content))),
      (''lines'', JInt (outputLineCount content)),
      (''sha256'', JStr (hex_encode (gl_sha256 lib content))),
      (''preview_truncated'', JBool (snd (prefixRunes content capturePreviewChars)))]"

definition descriptor :: "golib \<Rightarrow> capturedOutput \<Rightarrow> jobj" where
  "descriptor lib c =
     [(''captured'', JBool True), (''capture_id'', JStr (cp_ID c)),
      (''reader_tool'', JStr ''read_command_output''),
      (''available_streams'', JArr (map JStr (sort (map fst (cp_Streams c))))),
      (''streams'', JObj (map (\<lambda>(name, content). (name, stream_metadata lib content)) (cp_Streams c))),
      (''total_bytes'', JInt (cp_Bytes c)),
      (''created_at'', JStr (gl_rfc3339 lib (cp_CreatedAt c))),
      (''expires_at'', JStr (gl_rfc3339 lib (cp_ExpiresAt c))),
      (''source_truncated'', JBool (cp_SourceTruncated c)), (''ephemeral'', JBool True)]"

section \<open>prepareRunResult\<close>

text \<open>\<open>payload["stdout"].(string)\<close> with its second result.\<close>

fun as_string :: "json option \<Rightarrow> string \<times> bool" where
  "as_string (Some (JStr s)) = (s, True)"
| "as_string _ = ([], False)"

definition captureInlineThreshold :: int where
  "captureInlineThreshold = 32768"

definition prepareRunResult :: "golib \<Rightarrow> int \<Rightarrow> string option list \<Rightarrow> principal \<Rightarrow> string \<Rightarrow> string \<Rightarrow>
    string \<Rightarrow> injectResult \<Rightarrow> bool \<Rightarrow> CaptureStore \<Rightarrow>
    (string res \<times> CaptureStore \<times> string option list) option" where
  "prepareRunResult lib now draws p node verb rid response forceCapture store =
     (let summary = ir_Summary response; plain = Some (Inr summary, store, draws) in
      if ir_StatusCode response < 200 \<or> 300 \<le> ir_StatusCode response then plain
      else case decode_map lib (ir_Body response) of
        None \<Rightarrow> plain
      | Some payload \<Rightarrow>
        (let (stdout, stdoutOK) = as_string (jget ''stdout'' payload);
             (stderr, stderrOK) = as_string (jget ''stderr'' payload)
         in if \<not> stdoutOK \<and> \<not> stderrOK then plain
            else if \<not> forceCapture \<and>
                int (length stdout) + int (length stderr) \<le> captureInlineThreshold then plain
            else case captureOwnerFor p of
              None \<Rightarrow> Some (Inl (Errnew ''validated identity lacks tenant, principal, or agent id required for capture''),
                store, draws)
            | Some w \<Rightarrow>
              (case cs_Put now draws w node verb rid [(''stdout'', stdout), (''stderr'', stderr)]
                  (asBool (jget ''truncated'' payload)) store of
                 None \<Rightarrow> None
               | Some (Inl e, store', ds) \<Rightarrow> Some (Inl e, store', ds)
               | Some (Inr c, store', ds) \<Rightarrow>
                 (let payload = jput ''stdout'' (JStr (fst (prefixRunes stdout capturePreviewChars))) payload;
                      payload = jput ''stderr'' (JStr (fst (prefixRunes stderr capturePreviewChars))) payload;
                      payload = jput ''output_captured'' (JBool True) payload;
                      payload = jput ''output_capture'' (JObj (descriptor lib c)) payload
                  in case gl_marshal lib (JObj payload) of
                       None \<Rightarrow> Some (Inl (Errnew ''encode captured response: %w''), store', ds)
                     | Some body \<Rightarrow> Some (Inr (ir_Summary \<lparr>ir_StatusCode = ir_StatusCode response,
                         ir_Body = body\<rparr>), store', ds)))))"

section \<open>Lemmas\<close>

text \<open>The output of an answer: its two streams, if it has any.\<close>

definition run_streams :: "golib \<Rightarrow> injectResult \<Rightarrow> (jobj \<times> string \<times> string) option" where
  "run_streams lib response =
     (if ir_StatusCode response < 200 \<or> 300 \<le> ir_StatusCode response then None
      else case decode_map lib (ir_Body response) of None \<Rightarrow> None
        | Some payload \<Rightarrow>
            (let so = as_string (jget ''stdout'' payload); se = as_string (jget ''stderr'' payload)
             in if snd so \<or> snd se then Some (payload, fst so, fst se) else None))"

definition preview :: "string \<Rightarrow> string" where
  "preview s = fst (prefixRunes s capturePreviewChars)"

lemma preview_short: "length (runes s) \<le> 2048 \<Longrightarrow> preview s = s"
  by (simp add: preview_def prefixRunes_def capturePreviewChars_def Let_def)

lemma preview_runes: "runes (preview s) = take 2048 (runes s)"
proof -
  have "list_all scalar (take 2048 (runes s))"
    using runes_scalar [of s] by (auto simp: list_all_iff dest: in_set_takeD)
  then show ?thesis
    by (simp add: preview_def prefixRunes_def capturePreviewChars_def Let_def runes_string_of)
qed

lemma prepare_plain:
  "run_streams lib response = None \<Longrightarrow>
     prepareRunResult lib now draws p node verb rid response force store =
       Some (Inr (ir_Summary response), store, draws)"
  by (auto simp: run_streams_def prepareRunResult_def Let_def split: if_splits option.splits prod.splits)

lemma prepare_short:
  "run_streams lib response = Some (payload, so, se) \<Longrightarrow> \<not> force \<Longrightarrow>
     int (length so) + int (length se) \<le> captureInlineThreshold \<Longrightarrow>
     prepareRunResult lib now draws p node verb rid response force store =
       Some (Inr (ir_Summary response), store, draws)"
  by (auto simp: run_streams_def prepareRunResult_def Let_def split: if_splits option.splits prod.splits)

lemma prepare_captured:
  assumes "run_streams lib response = Some (payload, so, se)"
    and "force \<or> captureInlineThreshold < int (length so) + int (length se)"
    and "prepareRunResult lib now draws p node verb rid response force store = Some (Inr text, store', ds)"
  shows "\<exists>w c body ob. captureOwnerFor p = Some w \<and>
     cs_Put now draws w node verb rid [(''stdout'', so), (''stderr'', se)]
       (asBool (jget ''truncated'' payload)) store = Some (Inr c, store', ds) \<and>
     gl_marshal lib (JObj ob) = Some body \<and>
     text = ir_Summary \<lparr>ir_StatusCode = ir_StatusCode response, ir_Body = body\<rparr> \<and>
     jget ''output_capture'' ob = Some (JObj (descriptor lib c)) \<and>
     jget ''stdout'' ob = Some (JStr (preview so)) \<and> jget ''stderr'' ob = Some (JStr (preview se)) \<and>
     (\<forall>k. k \<notin> {''stdout'', ''stderr'', ''output_captured'', ''output_capture''} \<longrightarrow>
        jget k ob = jget k payload)"
proof -
  have p: "\<not> (ir_StatusCode response < 200 \<or> 300 \<le> ir_StatusCode response)"
    "decode_map lib (ir_Body response) = Some payload"
    "so = fst (as_string (jget ''stdout'' payload))" "se = fst (as_string (jget ''stderr'' payload))"
    "snd (as_string (jget ''stdout'' payload)) \<or> snd (as_string (jget ''stderr'' payload))"
    using assms(1) by (auto simp: run_streams_def Let_def split: if_splits option.splits)
  let ?ob = "\<lambda>c. jput ''output_capture'' (JObj (descriptor lib c)) (jput ''output_captured'' (JBool True)
    (jput ''stderr'' (JStr (preview se)) (jput ''stdout'' (JStr (preview so)) payload)))"
  obtain w where w: "captureOwnerFor p = Some w"
    using assms(2,3) p by (auto simp: prepareRunResult_def Let_def split_beta split: option.splits if_splits)
  obtain c body where c: "cs_Put now draws w node verb rid [(''stdout'', so), (''stderr'', se)]
       (asBool (jget ''truncated'' payload)) store = Some (Inr c, store', ds)"
    "gl_marshal lib (JObj (?ob c)) = Some body"
    "text = ir_Summary \<lparr>ir_StatusCode = ir_StatusCode response, ir_Body = body\<rparr>"
    using assms(2,3) p
    by (auto simp: prepareRunResult_def Let_def split_beta w preview_def
        split: option.splits if_splits sum.splits prod.splits)
  show ?thesis using w c by (intro exI [of _ w] exI [of _ c] exI [of _ body] exI [of _ "?ob c"]) auto
qed

lemma put_then_get:
  assumes "cs_inv s" and "draws_ok draws"
    and "cs_Put now draws w node verb rid streams tr s = Some (Inr c, s', ds)"
    and "t < now + cc_TTL (cs_config s)"
  shows "fst (cs_Get t (cp_ID c) w s') = Some (c\<lparr>cp_LastAccess := t\<rparr>) \<and> cp_Streams c = streams"
proof -
  obtain s3 where s3: "s' = added c s3" "cp_Owner c = w" "cp_Streams c = streams"
      "cp_ExpiresAt c = now + cc_TTL (cs_config s)"
    using assms(1,3) by (rule cs_Put_added)
  have inv: "cs_inv s'" using cs_Put_keeps [OF assms(1,3)] by blast
  have "gm_load (cs_captures s') (cp_ID c) = Some c" by (simp add: s3(1) added_def)
  then show ?thesis
    using cs_Put_valid [OF assms(3,2)] assms(4) s3(2-4) by (simp add: cs_Get_eq [OF inv] Let_def)
qed

section \<open>Properties\<close>


text \<open>An answer with a short output whose capture the caller asked for.\<close>

definition ex_answer_lib :: golib where
  "ex_answer_lib = \<lparr>gl_sha256 = (\<lambda>s. s), gl_rfc3339 = Itoa, gl_compile = (\<lambda>p. Inr (\<lambda>s. False)),
     gl_unmarshal = (\<lambda>_. Some (JObj [(''stdout'', JStr ''hi''), (''rc'', JInt 0)])),
     gl_marshal = (\<lambda>_. Some ''{}''),
     gl_url_path = (\<lambda>_. None), gl_parse_time = (\<lambda>_. None)\<rparr>"


end
