(* ===== verification/Control.thy ===== *)
theory Control
  imports AllowList Auth CallLog
begin

text \<open>
  \<open>control.go\<close>: the link up to the tower. A call is a method and a JSON body; what comes back is an
  \<open>http_reply\<close>. The TLS layer that pins the tower's identity is not modelled: a reply is what
  \<open>http.Client.Post\<close> returned over it.
\<close>

section \<open>One call\<close>

text \<open>
  The two results of \<open>callWithLimit\<close>, which may both be set: an error status returns the decoded body
  beside the error. The body \<open>None\<close> is the nil map.
\<close>

type_synonym call_result = "jobj option \<times> goerror option"

definition controlResponseLimit :: int where
  "controlResponseLimit = 1048576"

definition updateResponseLimit :: int where
  "updateResponseLimit = 16777216"

definition member :: "string \<Rightarrow> jobj option \<Rightarrow> json option" where
  "member k out = (case out of None \<Rightarrow> None | Some ob \<Rightarrow> jget k ob)"

definition decode_out :: "golib \<Rightarrow> string \<Rightarrow> jobj option option" where
  "decode_out lib data = (case gl_unmarshal lib data of
      Some (JObj ob) \<Rightarrow> Some (Some (jmap ob)) | Some JNull \<Rightarrow> Some None | _ \<Rightarrow> None)"

text \<open>Of \<open>out["error"]\<close>, which \<open>%v\<close> prints into the error, only a string is kept here.\<close>

definition callWithLimit :: "golib \<Rightarrow> string \<Rightarrow> int \<Rightarrow> http_reply \<Rightarrow> call_result" where
  "callWithLimit lib method limit reply = (case reply of
      NetError e \<Rightarrow> (None, Some (Errnew e))
    | ReadError code e \<Rightarrow>
        (None, Some (Errorf ''control %s: read response: %w'' [ArgS method, ArgE (Errnew e)]))
    | Reply code body \<Rightarrow>
        (case read_bounded limit body of
           None \<Rightarrow> (None, Some (Errorf ''control %s: response exceeds %d-byte limit''
             [ArgS method, ArgN limit]))
         | Some data \<Rightarrow>
             (case decode_out lib data of
                None \<Rightarrow> (None, Some (Errorf ''control %s: invalid JSON response: %w'' [ArgS method]))
              | Some out \<Rightarrow>
                  (if 400 \<le> code
                   then (out, Some (Errorf ''control %s -> HTTP %d: %v''
                     [ArgS method, ArgN code, ArgS (asString (member ''error'' out))]))
                   else (out, None)))))"

definition call :: "golib \<Rightarrow> string \<Rightarrow> http_reply \<Rightarrow> call_result" where
  "call lib method reply = callWithLimit lib method controlResponseLimit reply"

section \<open>The allow-list snapshot\<close>

definition tenantOf :: "golib \<Rightarrow> string \<Rightarrow> string" where
  "tenantOf lib svid = (case gl_url_path lib svid of None \<Rightarrow> []
     | Some p \<Rightarrow> (case Split (CHR ''/'') (TrimByte (CHR ''/'') p) of [] \<Rightarrow> [] | q # qs \<Rightarrow> q))"

definition node_entry :: "jobj \<Rightarrow> NodeEntry" where
  "node_entry m = \<lparr>ne_SVID = asString (jget ''svid'' m),
     ne_SPKIFingerprint = asString (jget ''spki_fingerprint'' m),
     ne_BoundName = asString (jget ''bound_name'' m), ne_Description = asString (jget ''description'' m),
     ne_NotAfter = asString (jget ''not_after'' m)\<rparr>"

fun read_nodes :: "golib \<Rightarrow> string \<Rightarrow> string list \<Rightarrow> json list \<Rightarrow> NodeEntry list res" where
  "read_nodes lib tenant seen [] = Inr []"
| "read_nodes lib tenant seen (item # raw) = (case asObj (Some item) of
      None \<Rightarrow> Inl (Errnew ''invalid allow-list node'')
    | Some m \<Rightarrow>
      (let svid = asString (jget ''svid'' m); key = asString (jget ''spki_fingerprint'' m) in
       if svid = [] \<or> key = [] \<or> tenantOf lib svid \<noteq> tenant
       then Inl (Errnew ''invalid allow-list node'')
       else if key \<in> set seen then Inl (Errnew ''duplicate allow-list node key'')
       else case read_nodes lib tenant (key # seen) raw of Inl e \<Rightarrow> Inl e
         | Inr nodes \<Rightarrow> Inr (node_entry m # nodes)))"

definition fetchAllowList :: "golib \<Rightarrow> string \<Rightarrow> http_reply \<Rightarrow> (string \<times> NodeEntry list) res" where
  "fetchAllowList lib expectedTenant reply =
     (case call lib ''/control/v1/allowlist'' reply of
        (_, Some e) \<Rightarrow> Inl e
      | (out, None) \<Rightarrow>
        (let tenant = asString (member ''tenant'' out) in
         if tenant = [] \<or> (expectedTenant \<noteq> [] \<and> tenant \<noteq> expectedTenant)
         then Inl (Errorf ''invalid allow-list tenant %q'' [ArgS tenant])
         else case (asArr (member ''nodes'' out), asFloat (member ''count'' out)) of
           (Some raw, Some n) \<Rightarrow>
             (if n \<noteq> fl64 (of_nat (length raw)) then Inl (Errnew ''invalid allow-list nodes/count'')
              else case read_nodes lib tenant [] raw of Inl e \<Rightarrow> Inl e
                | Inr nodes \<Rightarrow> Inr (tenant, nodes))
         | _ \<Rightarrow> Inl (Errnew ''invalid allow-list nodes/count'')))"

section \<open>The other calls\<close>

text \<open>The identity block of a request. A nil slice, as \<open>toStrings\<close> leaves it, is written as \<open>null\<close>.\<close>

definition groups_json :: "string list \<Rightarrow> json" where
  "groups_json gs = (if gs = [] then JNull else JArr (map JStr gs))"

definition principalBody :: "principal \<Rightarrow> jobj" where
  "principalBody p =
     [(''principal_upn'', JStr (pr_UPN p)), (''principal_oid'', JStr (pr_OID p)),
      (''principal_tid'', JStr (pr_TID p)), (''principal_name'', JStr (pr_Name p)),
      (''principal_groups'', groups_json (pr_Groups p)), (''principal_app'', JStr (pr_AppID p)),
      (''principal_token'', JStr (pr_Raw p))]"

definition authorize_body :: "principal \<Rightarrow> string \<Rightarrow> jobj" where
  "authorize_body p verb = jput ''verb'' (JStr verb) (principalBody p)"

definition authorize :: "golib \<Rightarrow> http_reply \<Rightarrow> (bool \<times> string) res" where
  "authorize lib reply = (case call lib ''/control/v1/authorize'' reply of
      (_, Some e) \<Rightarrow> Inl e
    | (out, None) \<Rightarrow> Inr (asBool (member ''allowed'' out), asString (member ''reason'' out)))"

text \<open>The bodies and the answers of the other calls a handler makes.\<close>

definition knowledge_search_body :: "principal \<Rightarrow> string \<Rightarrow> string \<Rightarrow> jobj" where
  "knowledge_search_body p svid q = jput ''query'' (JStr q) (jput ''svid'' (JStr svid) (principalBody p))"

definition knowledge_append_body :: "principal \<Rightarrow> string \<Rightarrow> string \<Rightarrow> jobj" where
  "knowledge_append_body p svid content =
     jput ''content'' (JStr content) (jput ''svid'' (JStr svid) (principalBody p))"

definition knowledgeSearch :: "golib \<Rightarrow> http_reply \<Rightarrow> call_result" where
  "knowledgeSearch lib reply = call lib ''/control/v1/knowledge/search'' reply"

definition knowledgeAppend :: "golib \<Rightarrow> http_reply \<Rightarrow> call_result" where
  "knowledgeAppend lib reply = call lib ''/control/v1/knowledge/append'' reply"

definition whoami :: "golib \<Rightarrow> http_reply \<Rightarrow> call_result" where
  "whoami lib reply = call lib ''/control/v1/whoami'' reply"

text \<open>A field tagged \<open>omitempty\<close> is left out when it is zero.\<close>

definition omitempty :: "string \<Rightarrow> bool \<Rightarrow> json \<Rightarrow> jobj" where
  "omitempty k zero v = (if zero then [] else [(k, v)])"

definition event_json :: "callEvent \<Rightarrow> jobj" where
  "event_json e =
     omitempty ''phase'' (ev_Phase e = []) (JStr (ev_Phase e)) @
     omitempty ''rid'' (ev_RequestID e = []) (JStr (ev_RequestID e)) @
     [(''ts'', JStr (ev_TS e)), (''upn'', JStr (ev_UPN e)), (''oid'', JStr (ev_OID e)),
      (''tid'', JStr (ev_TID e))] @
     omitempty ''app'' (ev_App e = []) (JStr (ev_App e)) @
     omitempty ''app_name'' (ev_AppName e = []) (JStr (ev_AppName e)) @
     [(''verb'', JStr (ev_Verb e)), (''node'', JStr (ev_Node e)), (''svid'', JStr (ev_SVID e)),
      (''allowed'', JBool (ev_Allowed e)), (''reason'', JStr (ev_Reason e)),
      (''status'', JStr (ev_Status e)), (''detail'', JStr (ev_Detail e))] @
     omitempty ''http_status'' (ev_HTTPStatus e = 0) (JInt (ev_HTTPStatus e)) @
     (case ev_RC e of None \<Rightarrow> [] | Some n \<Rightarrow> [(''rc'', JInt n)]) @
     omitempty ''dur_ms'' (ev_DurMs e = 0) (JInt (ev_DurMs e)) @
     omitempty ''output'' (ev_Output e = []) (JStr (ev_Output e)) @
     omitempty ''output_truncated'' (\<not> ev_Truncated e) (JBool (ev_Truncated e))"

definition report_body :: "string \<Rightarrow> jobj list \<Rightarrow> callEvent list \<Rightarrow> jobj" where
  "report_body instanceID tunnels calls =
     [(''tunnels'', if tunnels = [] then JNull else JArr (map JObj tunnels)),
      (''instance_id'', JStr instanceID)] @
     (if calls = [] then [] else [(''calls'', JArr (map (\<lambda>e. JObj (event_json e)) calls))])"

definition reportTunnels :: "golib \<Rightarrow> http_reply \<Rightarrow> string list res" where
  "reportTunnels lib reply = (case call lib ''/control/v1/report'' reply of
      (_, Some e) \<Rightarrow> Inl e
    | (out, None) \<Rightarrow> Inr (case asArr (member ''pending_nudges'' out) of None \<Rightarrow> []
        | Some raw \<Rightarrow> filter (\<lambda>s. s \<noteq> []) (strings_in raw)))"

definition shipCalls :: "golib \<Rightarrow> callEvent list \<Rightarrow> http_reply \<Rightarrow> goerror option" where
  "shipCalls lib calls reply =
     (if calls = [] then None else snd (call lib ''/control/v1/calllog'' reply))"

definition updateFor :: "golib \<Rightarrow> http_reply \<Rightarrow> call_result" where
  "updateFor lib reply = callWithLimit lib ''/control/v1/update_for'' updateResponseLimit reply"

definition signRenew :: "golib \<Rightarrow> http_reply \<Rightarrow> call_result" where
  "signRenew lib reply = call lib ''/control/v1/sign'' reply"

definition revCount :: "golib \<Rightarrow> http_reply \<Rightarrow> int res" where
  "revCount lib reply = (case call lib ''/control/v1/revstate'' reply of
      (_, Some e) \<Rightarrow> Inl e
    | (out, None) \<Rightarrow> Inr (trunc (number (member ''revoked'' out))))"

section \<open>Lemmas\<close>

lemma callWithLimit_ok:
  assumes "callWithLimit lib m limit reply = (out, None)" and "0 \<le> limit"
  shows "\<exists>code body. reply = Reply code body \<and> code < 400 \<and> int (length body) \<le> limit \<and>
    decode_out lib body = Some out"
  using assms by (auto simp: callWithLimit_def read_bounded_eq split: http_reply.splits option.splits if_splits)

lemma call_ok:
  "call lib m reply = (out, None) \<Longrightarrow>
     \<exists>code body. reply = Reply code body \<and> code < 400 \<and> int (length body) \<le> 1048576 \<and>
       decode_out lib body = Some out"
  using callWithLimit_ok [of lib m controlResponseLimit reply out]
  by (simp add: call_def controlResponseLimit_def)

lemma asBool_True: "asBool j \<longleftrightarrow> j = Some (JBool True)"
  by (cases j rule: asBool.cases) auto

lemma read_nodes_Inr:
  "read_nodes lib tenant seen raw = Inr nodes \<Longrightarrow>
     (\<exists>ms. raw = map JObj ms \<and> nodes = map node_entry ms) \<and>
     distinct (map ne_SPKIFingerprint nodes) \<and>
     (\<forall>n \<in> set nodes. ne_SVID n \<noteq> [] \<and> ne_SPKIFingerprint n \<noteq> [] \<and>
        tenantOf lib (ne_SVID n) = tenant \<and> ne_SPKIFingerprint n \<notin> set seen)"
proof (induction raw arbitrary: seen nodes)
  case (Cons item raw)
  obtain m where m: "item = JObj m"
    using Cons.prems by (auto simp: asObj_Some split: option.splits)
  obtain ns where ns: "read_nodes lib tenant (asString (jget ''spki_fingerprint'' m) # seen) raw = Inr ns"
     "nodes = node_entry m # ns" "asString (jget ''svid'' m) \<noteq> []"
     "asString (jget ''spki_fingerprint'' m) \<noteq> []" "tenantOf lib (asString (jget ''svid'' m)) = tenant"
     "asString (jget ''spki_fingerprint'' m) \<notin> set seen"
    using Cons.prems by (auto simp: m Let_def split: sum.splits if_splits)
  obtain ms where ms: "raw = map JObj ms" "ns = map node_entry ms" using Cons.IH [OF ns(1)] by blast
  have "\<exists>ms. item # raw = map JObj ms \<and> nodes = map node_entry ms"
    by (rule exI [of _ "m # ms"]) (simp add: m ms ns(2))
  moreover have "distinct (map ne_SPKIFingerprint nodes)"
    using Cons.IH [OF ns(1)] by (auto simp: ns(2) node_entry_def)
  moreover have "ne_SVID n \<noteq> [] \<and> ne_SPKIFingerprint n \<noteq> [] \<and> tenantOf lib (ne_SVID n) = tenant \<and>
      ne_SPKIFingerprint n \<notin> set seen" if "n \<in> set nodes" for n
    using that Cons.IH [OF ns(1)] ns(3-6) by (auto simp: ns(2) node_entry_def)
  ultimately show ?case by blast
qed simp

lemma fetchAllowList_Inr:
  assumes "fetchAllowList lib expected reply = Inr (tenant, nodes)"
  obtains out raw where "call lib ''/control/v1/allowlist'' reply = (out, None)"
    and "tenant = asString (member ''tenant'' out)" "tenant \<noteq> []"
    and "expected = [] \<or> tenant = expected"
    and "member ''nodes'' out = Some (JArr raw)"
    and "asFloat (member ''count'' out) = Some (fl64 (of_nat (length raw)))"
    and "read_nodes lib tenant [] raw = Inr nodes"
proof -
  obtain out where c: "call lib ''/control/v1/allowlist'' reply = (out, None)"
    using assms by (auto simp: fetchAllowList_def split: prod.splits option.splits)
  let ?t = "asString (member ''tenant'' out)"
  have t: "?t \<noteq> []" "expected = [] \<or> ?t = expected"
    using assms by (auto simp: fetchAllowList_def c Let_def split: if_splits)
  obtain raw where raw: "member ''nodes'' out = Some (JArr raw)"
      "asFloat (member ''count'' out) = Some (fl64 (of_nat (length raw)))"
      "read_nodes lib ?t [] raw = Inr nodes" "tenant = ?t"
    using assms t by (auto simp: fetchAllowList_def c Let_def asArr_Some split: option.splits if_splits sum.splits)
  show ?thesis using that [OF c] t raw by blast
qed

lemma authorize_Inr:
  assumes "authorize lib reply = Inr (True, reason)"
  obtains code body ob where "reply = Reply code body" and "code < 400"
    and "int (length body) \<le> 1048576" and "gl_unmarshal lib body = Some (JObj ob)"
    and "jget ''allowed'' ob = Some (JBool True)"
proof -
  obtain out where c: "call lib ''/control/v1/authorize'' reply = (out, None)"
     "asBool (member ''allowed'' out)"
    using assms by (auto simp: authorize_def split: prod.splits option.splits)
  obtain code body where r: "reply = Reply code body" "code < 400" "int (length body) \<le> 1048576"
      "decode_out lib body = Some out" using call_ok [OF c(1)] by blast
  have "member ''allowed'' out = Some (JBool True)" using c(2) by (simp add: asBool_True)
  then obtain ob where "gl_unmarshal lib body = Some (JObj ob)" "jget ''allowed'' ob = Some (JBool True)"
    using r(4) by (auto simp: decode_out_def member_def split: option.splits json.splits)
  with r that show ?thesis by blast
qed

section \<open>Properties\<close>

text \<open>C35: A snapshot of the allow-list is accepted only whole: from a success status, a body within
  the limit that is one JSON document, for the expected tenant, with as many nodes as it counts, each
  with an identity of that tenant and a key of its own. Every other answer of the tower, an error, a
  cut or foreign list or one bad node, is an error, so it can never pass for an empty list.\<close>

theorem snapshot_accepted_only_whole:
  assumes "fetchAllowList lib expected reply = Inr (tenant, nodes)"
  shows "\<exists>code body ob ms. reply = Reply code body \<and> code < 400 \<and> int (length body) \<le> 1048576 \<and>
    gl_unmarshal lib body = Some (JObj ob) \<and>
    jget ''tenant'' ob = Some (JStr tenant) \<and> tenant \<noteq> [] \<and> (expected = [] \<or> tenant = expected) \<and>
    jget ''nodes'' ob = Some (JArr (map JObj ms)) \<and> nodes = map node_entry ms \<and>
    asFloat (jget ''count'' ob) = Some (fl64 (of_nat (length nodes))) \<and>
    distinct (map ne_SPKIFingerprint nodes) \<and>
    (\<forall>n \<in> set nodes. ne_SVID n \<noteq> [] \<and> ne_SPKIFingerprint n \<noteq> [] \<and> tenantOf lib (ne_SVID n) = tenant)"
proof -
  obtain out raw where c: "call lib ''/control/v1/allowlist'' reply = (out, None)"
    "tenant = asString (member ''tenant'' out)" "tenant \<noteq> []" "expected = [] \<or> tenant = expected"
    "member ''nodes'' out = Some (JArr raw)"
    "asFloat (member ''count'' out) = Some (fl64 (of_nat (length raw)))"
    "read_nodes lib tenant [] raw = Inr nodes"
    using assms by (rule fetchAllowList_Inr)
  obtain ms where ms: "raw = map JObj ms" "nodes = map node_entry ms"
    using read_nodes_Inr [OF c(7)] by blast
  obtain code body where r: "reply = Reply code body" "code < 400" "int (length body) \<le> 1048576"
      "decode_out lib body = Some out" using call_ok [OF c(1)] by blast
  obtain ob where ob: "gl_unmarshal lib body = Some (JObj ob)" "\<And>k. member k out = jget k ob"
    using r(4) c(5) by (auto simp: decode_out_def member_def split: option.splits json.splits)
  have t: "jget ''tenant'' ob = Some (JStr tenant)"
    using c(2,3) unfolding ob(2) by (cases "jget ''tenant'' ob" rule: asString.cases) auto
  have n: "length nodes = length raw" by (simp add: ms)
  show ?thesis
    using r ob(1) t c(3-6) ms read_nodes_Inr [OF c(7)] unfolding ob(2) n
    by (intro exI [of _ code] exI [of _ body] exI [of _ ob] exI [of _ ms]) auto
qed

text \<open>A tower that lists one node.\<close>

definition ex_list_doc :: jobj where
  "ex_list_doc = [(''tenant'', JStr ''t1''), (''count'', JInt 1), (''nodes'', JArr [JObj
     [(''svid'', JStr ''spiffe://x/t1/node/a''), (''spki_fingerprint'', JStr ''k1'')]])]"

definition ex_control_lib :: golib where
  "ex_control_lib = \<lparr>gl_sha256 = (\<lambda>s. s), gl_rfc3339 = Itoa, gl_compile = (\<lambda>p. Inr (\<lambda>s. False)),
     gl_unmarshal = (\<lambda>s. if s = ''list'' then Some (JObj ex_list_doc) else None),
     gl_marshal = (\<lambda>_. Some ''{}''), gl_url_path = (\<lambda>s. Some (drop 10 s)),
     gl_parse_time = (\<lambda>_. None)\<rparr>"

definition ex_list_node :: NodeEntry where
  "ex_list_node = \<lparr>ne_SVID = ''spiffe://x/t1/node/a'', ne_SPKIFingerprint = ''k1'', ne_BoundName = [],
     ne_Description = [], ne_NotAfter = []\<rparr>"

lemma ex_fetch: "fetchAllowList ex_control_lib ''t1'' (Reply 200 ''list'') = Inr (''t1'', [ex_list_node])"
proof -
  have u: "gl_unmarshal ex_control_lib ''list'' = Some (JObj ex_list_doc)" by (simp add: ex_control_lib_def)
  have j: "jmap ex_list_doc = ex_list_doc" by (simp add: ex_list_doc_def jmap_def jput_def)
  have c: "call ex_control_lib m (Reply 200 ''list'') = (Some ex_list_doc, None)" for m
    by (simp add: call_def callWithLimit_def controlResponseLimit_def read_bounded_eq decode_out_def u j)
  have t: "tenantOf ex_control_lib ''spiffe://x/t1/node/a'' = ''t1''"
    by (simp add: tenantOf_def ex_control_lib_def TrimByte_def TrimRightByte_def)
  have f: "fl64 1 = 1" using fl64_int [of 1] by simp
  have m: "member ''tenant'' (Some ex_list_doc) = Some (JStr ''t1'')"
    "member ''count'' (Some ex_list_doc) = Some (JInt 1)"
    "member ''nodes'' (Some ex_list_doc) = Some (JArr [JObj
      [(''svid'', JStr ''spiffe://x/t1/node/a''), (''spki_fingerprint'', JStr ''k1'')]])"
    by (simp_all add: member_def ex_list_doc_def jget_def)
  have g: "jget ''svid'' [(''svid'', JStr ''spiffe://x/t1/node/a''), (''spki_fingerprint'', JStr ''k1'')] =
      Some (JStr ''spiffe://x/t1/node/a'')"
    "jget ''spki_fingerprint'' [(''svid'', JStr ''spiffe://x/t1/node/a''), (''spki_fingerprint'', JStr ''k1'')] =
      Some (JStr ''k1'')"
    by (simp_all add: jget_def)
  have g': "jget k [(''svid'', JStr ''spiffe://x/t1/node/a''), (''spki_fingerprint'', JStr ''k1'')] = None"
    if "k \<in> {''bound_name'', ''description'', ''not_after''}" for k
    using that by (auto simp: jget_def)
  show ?thesis
    by (simp add: fetchAllowList_def c m f Let_def g g' t node_entry_def ex_list_node_def)
qed

theorem snapshot_accepted_only_whole_witness:
  "\<exists>nodes. fetchAllowList ex_control_lib ''t1'' (Reply 200 ''list'') = Inr (''t1'', nodes) \<and>
     (\<forall>n \<in> set nodes. tenantOf ex_control_lib (ne_SVID n) = ''t1'') \<and> nodes \<noteq> []"
  using snapshot_accepted_only_whole [OF ex_fetch] ex_fetch by auto

end
