(* ===== verification/Broker.thy ===== *)
theory Broker
  imports Control
begin

text \<open>
  \<open>broker.go\<close>: the tunnels of the connected nodes, and what goes down them. A connection is a number
  (the pointer of the source). The tower, the nodes and the model that locates a control on a screenshot
  are an environment: each answer is a function
  of the calls made so far and of the call, so they may behave in any way and change over time.
\<close>

section \<open>The environment and the state\<close>

datatype io =
    TowerCall string jobj
  | NodeCall string int string string "string option"
  | ModelCall json

record env =
  e_tower :: "io list \<Rightarrow> string \<Rightarrow> jobj \<Rightarrow> http_reply"
  e_node :: "io list \<Rightarrow> int \<Rightarrow> string \<Rightarrow> string \<Rightarrow> string option \<Rightarrow> http_reply"
  e_now :: "io list \<Rightarrow> int"

record nodeVer =
  nv_Version :: string
  nv_GOOS :: string
  nv_GOARCH :: string
  nv_Shell :: string
  nv_OSVersion :: string
  nv_Capabilities :: "(string, bool) gomap"
  nv_Protocol :: int

text \<open>\<open>br_closed\<close> are the connections closed so far; \<open>br_control\<close> says that there is a control client.\<close>

record broker =
  br_tenant :: string
  br_allow :: AllowList
  br_control :: bool
  br_tunnels :: "(string, int) gomap"
  br_versions :: "(string, nodeVer) gomap"
  br_renewBefore :: int
  br_lastRenew :: "(string, int) gomap"
  br_renewing :: "(string, unit) gomap"
  br_closed :: "int list"

record world =
  w_broker :: broker
  w_io :: "io list"

definition upd_broker :: "(broker \<Rightarrow> broker) \<Rightarrow> 'a world_scheme \<Rightarrow> 'a world_scheme" where
  "upd_broker f w = w\<lparr>w_broker := f (w_broker w)\<rparr>"

definition tower :: "env \<Rightarrow> string \<Rightarrow> jobj \<Rightarrow> 'a world_scheme \<Rightarrow> http_reply \<times> 'a world_scheme" where
  "tower env method body w =
     (e_tower env (w_io w) method body, w\<lparr>w_io := w_io w @ [TowerCall method body]\<rparr>)"

definition close_conn :: "int \<Rightarrow> broker \<Rightarrow> broker" where
  "close_conn cc b = b\<lparr>br_closed := br_closed b @ [cc]\<rparr>"

section \<open>Requests down a tunnel\<close>

definition injectResponseCap :: int where
  "injectResponseCap = 16777216"

definition injectResponseContext :: "env \<Rightarrow> bool \<Rightarrow> string \<Rightarrow> string \<Rightarrow> string \<Rightarrow> string option \<Rightarrow>
    'a world_scheme \<Rightarrow> injectResult res \<times> 'a world_scheme" where
  "injectResponseContext env ctxErr svid method path body w =
     (case gm_load (br_tunnels (w_broker w)) svid of
        None \<Rightarrow> (Inl (Errorf ''no live tunnel for %s'' [ArgS svid]), w)
      | Some cc \<Rightarrow>
        (let reply = e_node env (w_io w) cc method path body;
             w1 = w\<lparr>w_io := w_io w @ [NodeCall svid cc method path body]\<rparr>
         in case reply of
              NetError e \<Rightarrow> (Inl (Errnew e),
                if gm_load (br_tunnels (w_broker w1)) svid = Some cc \<and> \<not> ctxErr
                then upd_broker (\<lambda>b. b\<lparr>br_tunnels := gm_delete svid (br_tunnels b)\<rparr>) w1 else w1)
            | ReadError code e \<Rightarrow> (Inl (Errnew e), w1)
            | Reply code data \<Rightarrow>
                (case read_bounded injectResponseCap data of
                   None \<Rightarrow> (Inl (Errorf ''RCON response exceeds %d-byte broker limit''
                     [ArgN injectResponseCap]), w1)
                 | Some d \<Rightarrow> (Inr \<lparr>ir_StatusCode = code, ir_Body = d\<rparr>, w1))))"

definition InjectResponse :: "env \<Rightarrow> string \<Rightarrow> string \<Rightarrow> string \<Rightarrow> string option \<Rightarrow>
    'a world_scheme \<Rightarrow> injectResult res \<times> 'a world_scheme" where
  "InjectResponse env svid method path body w = injectResponseContext env False svid method path body w"

definition Inject :: "env \<Rightarrow> string \<Rightarrow> string \<Rightarrow> string \<Rightarrow> string option \<Rightarrow>
    'a world_scheme \<Rightarrow> string res \<times> 'a world_scheme" where
  "Inject env svid method path body w =
     (case InjectResponse env svid method path body w of
        (Inl e, w1) \<Rightarrow> (Inl e, w1) | (Inr r, w1) \<Rightarrow> (Inr (ir_Summary r), w1))"

section \<open>What a node reports of itself\<close>

text \<open>
  Decoding into a struct: each member sets the field its name matches but for case, a value of another
  type leaves the field as it is (in the map of capabilities it sets \<open>false\<close>), and the error is dropped.
\<close>

definition zero_ver :: nodeVer where
  "zero_ver = \<lparr>nv_Version = [], nv_GOOS = [], nv_GOARCH = [], nv_Shell = [], nv_OSVersion = [],
     nv_Capabilities = [], nv_Protocol = 0\<rparr>"

fun set_str :: "(string \<Rightarrow> nodeVer \<Rightarrow> nodeVer) \<Rightarrow> json \<Rightarrow> nodeVer \<Rightarrow> nodeVer" where
  "set_str f (JStr s) v = f s v"
| "set_str f _ v = v"

definition ver_member :: "nodeVer \<Rightarrow> string \<times> json \<Rightarrow> nodeVer" where
  "ver_member v p =
     (let k = fold_key (fst p); j = snd p in
      if k = ''version'' then set_str (\<lambda>s. nv_Version_update (\<lambda>_. s)) j v
      else if k = ''goos'' then set_str (\<lambda>s. nv_GOOS_update (\<lambda>_. s)) j v
      else if k = ''goarch'' then set_str (\<lambda>s. nv_GOARCH_update (\<lambda>_. s)) j v
      else if k = ''shell'' then set_str (\<lambda>s. nv_Shell_update (\<lambda>_. s)) j v
      else if k = ''os_version'' then set_str (\<lambda>s. nv_OSVersion_update (\<lambda>_. s)) j v
      else if k = ''capabilities'' then
        (case j of JObj ob \<Rightarrow> v\<lparr>nv_Capabilities :=
             foldl (\<lambda>m (c, x). gm_store c (x = JBool True) m) (nv_Capabilities v) ob\<rparr>
         | JNull \<Rightarrow> v\<lparr>nv_Capabilities := []\<rparr> | _ \<Rightarrow> v)
      else if k = ''protocol'' then
        (case j of JInt n \<Rightarrow> if - (2 ^ 63) \<le> n \<and> n < 2 ^ 63 then v\<lparr>nv_Protocol := n\<rparr> else v | _ \<Rightarrow> v)
      else v)"

definition health_ver :: "golib \<Rightarrow> string \<Rightarrow> nodeVer" where
  "health_ver lib summary = (case IndexByte summary (CHR ''{'') of
      None \<Rightarrow> zero_ver
    | Some i \<Rightarrow> (case gl_unmarshal lib (drop i summary) of
          Some (JObj ob) \<Rightarrow> foldl ver_member zero_ver ob | _ \<Rightarrow> zero_ver))"

definition recordVersion :: "golib \<Rightarrow> string \<Rightarrow> string \<Rightarrow> broker \<Rightarrow> broker" where
  "recordVersion lib svid summary b =
     (let h = health_ver lib summary in
      if nv_Version h \<noteq> [] \<or> nv_GOARCH h \<noteq> [] \<or> nv_Protocol h \<noteq> 0
      then b\<lparr>br_versions := gm_store svid h (br_versions b)\<rparr> else b)"

definition LiveTunnels :: "broker \<Rightarrow> jobj list" where
  "LiveTunnels b = map (\<lambda>(svid, _).
     (''svid'', JStr svid) #
     (case gm_load (br_versions b) svid of None \<Rightarrow> []
      | Some nv \<Rightarrow>
        [(''version'', JStr (nv_Version nv)), (''goarch'', JStr (nv_GOARCH nv)),
         (''goos'', JStr (nv_GOOS nv)), (''shell'', JStr (nv_Shell nv)),
         (''os_version'', JStr (nv_OSVersion nv))] @
        (case gm_load (nv_Capabilities nv) ''self_update'' of None \<Rightarrow> []
         | Some supported \<Rightarrow> [(''self_update_supported'', JBool supported)]) @
        [(''protocol'', JInt (nv_Protocol nv))])) (br_tunnels b)"

section \<open>Updates\<close>

definition update_for_body :: "string \<Rightarrow> nodeVer \<Rightarrow> jobj" where
  "update_for_body svid h =
     [(''svid'', JStr svid), (''current_version'', JStr (nv_Version h)),
      (''goos'', JStr (nv_GOOS h)), (''goarch'', JStr (nv_GOARCH h))]"

definition maybeUpdate :: "golib \<Rightarrow> env \<Rightarrow> string \<Rightarrow> string \<Rightarrow> 'a world_scheme \<Rightarrow> 'a world_scheme" where
  "maybeUpdate lib env svid summary w =
     (let h = health_ver lib summary in
      if gm_load (nv_Capabilities h) ''self_update'' = Some False then w
      else
        (let (reply, w1) = tower env ''/control/v1/update_for'' (update_for_body svid h) w in
         case updateFor lib reply of
           (_, Some e) \<Rightarrow> w1
         | (out, None) \<Rightarrow>
             (if \<not> asBool (member ''update'' out) then w1
              else
                (let payload = (case gl_marshal lib (case out of None \<Rightarrow> JNull | Some ob \<Rightarrow> JObj ob) of
                       None \<Rightarrow> [] | Some s \<Rightarrow> s)
                 in snd (Inject env svid ''POST'' ''/update/apply'' (Some payload) w1)))))"

definition forceUpdate :: "golib \<Rightarrow> env \<Rightarrow> string \<Rightarrow> 'a world_scheme \<Rightarrow> 'a world_scheme" where
  "forceUpdate lib env svid w =
     (case Inject env svid ''GET'' ''/health'' None w of
        (Inl e, w1) \<Rightarrow> w1 | (Inr health, w1) \<Rightarrow> maybeUpdate lib env svid health w1)"

section \<open>Renewal\<close>

definition defaultRenewBefore :: int where
  "defaultRenewBefore = 48 * 3600 * 1000000000"

definition renewCooldown :: int where
  "renewCooldown = 30 * 60 * 1000000000"

text \<open>
  A struct field of type string, of a decoded object: \<open>None\<close> when decoding fails, as a member of another
  type (other than null) makes it.
\<close>

fun string_field :: "string \<Rightarrow> jobj \<Rightarrow> string \<Rightarrow> string option" where
  "string_field k [] acc = Some acc"
| "string_field k ((n, v) # ob) acc =
     (if fold_key n \<noteq> k then string_field k ob acc
      else case v of JStr s \<Rightarrow> string_field k ob s | JNull \<Rightarrow> string_field k ob acc | _ \<Rightarrow> None)"

fun bool_field :: "string \<Rightarrow> jobj \<Rightarrow> bool \<Rightarrow> bool option" where
  "bool_field k [] acc = Some acc"
| "bool_field k ((n, v) # ob) acc =
     (if fold_key n \<noteq> k then bool_field k ob acc
      else case v of JBool b \<Rightarrow> bool_field k ob b | JNull \<Rightarrow> bool_field k ob acc | _ \<Rightarrow> None)"

text \<open>Decoding into a struct: \<open>null\<close> leaves it as it is.\<close>

definition decode_obj :: "golib \<Rightarrow> string \<Rightarrow> jobj option" where
  "decode_obj lib body = (case gl_unmarshal lib body of
      Some (JObj ob) \<Rightarrow> Some ob | Some JNull \<Rightarrow> Some [] | _ \<Rightarrow> None)"

definition decode_csr :: "golib \<Rightarrow> string \<Rightarrow> string option" where
  "decode_csr lib body = (case decode_obj lib body of None \<Rightarrow> None
     | Some ob \<Rightarrow> string_field ''csr'' ob [])"

definition decode_applied :: "golib \<Rightarrow> string \<Rightarrow> bool option" where
  "decode_applied lib body = (case decode_obj lib body of None \<Rightarrow> None
     | Some ob \<Rightarrow> (case string_field ''not_after'' ob [] of None \<Rightarrow> None
         | Some _ \<Rightarrow> bool_field ''applied'' ob False))"

definition renewNode :: "golib \<Rightarrow> env \<Rightarrow> string \<Rightarrow> 'a world_scheme \<Rightarrow> goerror option \<times> 'a world_scheme" where
  "renewNode lib env svid w =
     (if \<not> br_control (w_broker w) then (Some (Errnew ''no control link''), w)
      else case InjectResponse env svid ''GET'' ''/renew/csr'' None w of
        (Inl e, w1) \<Rightarrow> (Some (Errorf ''csr request: %w'' [ArgE e]), w1)
      | (Inr csrResp, w1) \<Rightarrow>
        (if ir_StatusCode csrResp \<noteq> 200 then
           (Some (Errorf ''csr request: HTTP %d'' [ArgN (ir_StatusCode csrResp)]), w1)
         else case decode_csr lib (ir_Body csrResp) of
           None \<Rightarrow> (Some (Errnew ''bad csr response''), w1)
         | Some csr \<Rightarrow>
           (if csr = [] then (Some (Errnew ''bad csr response''), w1)
            else
              (let (reply, w2) = tower env ''/control/v1/sign''
                     [(''purpose'', JStr ''renew''), (''csr'', JStr csr)] w1
               in case signRenew lib reply of
                 (_, Some e) \<Rightarrow> (Some (Errorf ''control renew: %w'' [ArgE e]), w2)
               | (out, None) \<Rightarrow>
                 (let cert = asString (member ''certificate'' out) in
                  if cert = [] then (Some (Errnew ''renew returned no certificate: %v''), w2)
                  else
                    (let payload = (case gl_marshal lib (JObj [(''certificate'', JStr cert)]) of
                           None \<Rightarrow> [] | Some s \<Rightarrow> s)
                     in case InjectResponse env svid ''POST'' ''/renew/apply'' (Some payload) w2 of
                       (Inl e, w3) \<Rightarrow> (Some (Errorf ''apply: %w'' [ArgE e]), w3)
                     | (Inr applyResp, w3) \<Rightarrow>
                       (if ir_StatusCode applyResp \<noteq> 200 then
                          (Some (Errorf ''apply: HTTP %d'' [ArgN (ir_StatusCode applyResp)]), w3)
                        else if decode_applied lib (ir_Body applyResp) \<noteq> Some True then
                          (Some (Errnew ''node did not confirm certificate application''), w3)
                        else (None, w3))))))))"

text \<open>The entry the loop of \<open>renewIfDue\<close> stops at.\<close>

definition renewal_entry :: "string \<Rightarrow> broker \<Rightarrow> NodeEntry option" where
  "renewal_entry svid b = find (\<lambda>e. ne_SVID e = svid \<and> ne_NotAfter e \<noteq> []) (al_Entries (br_allow b))"

definition renewIfDue :: "golib \<Rightarrow> env \<Rightarrow> string \<Rightarrow> 'a world_scheme \<Rightarrow> 'a world_scheme" where
  "renewIfDue lib env svid w =
     (if gm_load (br_renewing (w_broker w)) svid \<noteq> None then w
      else
        (let w0 = upd_broker (\<lambda>b. b\<lparr>br_renewing := gm_store svid () (br_renewing b)\<rparr>) w;
             b = w_broker w0;
             window = (if br_renewBefore b \<le> 0 then defaultRenewBefore else br_renewBefore b);
             w' = (case renewal_entry svid b of None \<Rightarrow> w0
               | Some e \<Rightarrow>
                 (case gl_parse_time lib (ne_NotAfter e) of None \<Rightarrow> w0
                  | Some na \<Rightarrow>
                    (if \<not> na - e_now env (w_io w0) < window then w0
                     else if (case gm_load (br_lastRenew b) svid of None \<Rightarrow> False
                         | Some t \<Rightarrow> e_now env (w_io w0) - t < renewCooldown) then w0
                     else case renewNode lib env svid w0 of
                         (Some err, w1) \<Rightarrow> w1
                       | (None, w1) \<Rightarrow> upd_broker (\<lambda>b. b\<lparr>br_lastRenew :=
                           gm_store svid (e_now env (w_io w1)) (br_lastRenew b)\<rparr>) w1)))
         in upd_broker (\<lambda>b. b\<lparr>br_renewing := gm_delete svid (br_renewing b)\<rparr>) w'))"

section \<open>Revocation\<close>

definition reconcile :: "broker \<Rightarrow> broker" where
  "reconcile b =
     (if \<not> al_Loaded (br_allow b) then b
      else let allowed = map ne_SVID (al_Entries (br_allow b)) in
        foldl (\<lambda>b (svid, cc).
          if svid \<in> set allowed then b
          else close_conn cc (b\<lparr>br_tunnels := gm_delete svid (br_tunnels b),
                                br_versions := gm_delete svid (br_versions b)\<rparr>))
        b (br_tunnels b))"

definition refreshAndReconcile :: "golib \<Rightarrow> env \<Rightarrow> string \<Rightarrow> 'a world_scheme \<Rightarrow>
    goerror option \<times> 'a world_scheme" where
  "refreshAndReconcile lib env expected w =
     (if \<not> br_control (w_broker w) then (Some (Errnew ''no control link''), w)
      else
        (let (reply, w1) = tower env ''/control/v1/allowlist'' [] w in
         case fetchAllowList lib expected reply of
           Inl e \<Rightarrow> (Some e, w1)
         | Inr (t, nodes) \<Rightarrow>
           (case al_Replace (e_now env (w_io w1)) t nodes (br_allow (w_broker w1)) of
              (_, False) \<Rightarrow> (Some (Errnew ''allow-list tenant rejected''), w1)
            | (a, True) \<Rightarrow> (None, upd_broker (\<lambda>b. reconcile (b\<lparr>br_allow := a\<rparr>)) w1))))"

section \<open>Connections\<close>

text \<open>
  The work \<open>handle\<close> leaves to goroutines: they run after it, in any order.
\<close>

datatype task = WatchTunnel string int | MaybeUpdate string string | RenewIfDue string

text \<open>
  \<open>handle\<close> for the connection \<open>conn\<close>: whether it is a TLS connection whose handshake succeeds, the SPIFFE
  id and the key fingerprint of its certificate, and whether HTTP/2 starts over it.
\<close>

definition handle :: "golib \<Rightarrow> env \<Rightarrow> int \<Rightarrow> bool \<Rightarrow> bool \<Rightarrow> string \<Rightarrow> string \<Rightarrow> bool \<Rightarrow>
    'a world_scheme \<Rightarrow> task list \<times> 'a world_scheme" where
  "handle lib env conn is_tls handshake svid spki h2 w =
     (if \<not> is_tls \<or> \<not> handshake then ([], upd_broker (close_conn conn) w)
      else if tenantOf lib svid \<noteq> br_tenant (w_broker w) then ([], upd_broker (close_conn conn) w)
      else case al_Lookup (br_allow (w_broker w)) spki of
        None \<Rightarrow> ([], upd_broker (close_conn conn) w)
      | Some entry \<Rightarrow>
        (if \<not> h2 then ([], upd_broker (close_conn conn) w)
         else
           (let w1 = upd_broker (\<lambda>b. b\<lparr>br_tunnels := gm_store svid conn (br_tunnels b)\<rparr>) w in
            case Inject env svid ''GET'' ''/health'' None w1 of
              (Inl e, w2) \<Rightarrow> ([WatchTunnel svid conn], w2)
            | (Inr body, w2) \<Rightarrow>
                ([WatchTunnel svid conn] @
                   (if br_control (w_broker w2) then [MaybeUpdate svid body, RenewIfDue svid] else []),
                 upd_broker (recordVersion lib svid body) w2))))"

text \<open>
  One tick of \<open>watchTunnel\<close>, given whether the ping fails; the result says whether it goes on.
\<close>

definition watch_tick :: "string \<Rightarrow> int \<Rightarrow> bool \<Rightarrow> broker \<Rightarrow> bool \<times> broker" where
  "watch_tick svid cc ping_fails b =
     (if gm_load (br_tunnels b) svid \<noteq> Some cc then (False, b)
      else if \<not> ping_fails then (True, b)
      else (False, close_conn cc
        (if gm_load (br_tunnels b) svid = Some cc
         then b\<lparr>br_tunnels := gm_delete svid (br_tunnels b),
                br_versions := gm_delete svid (br_versions b)\<rparr> else b)))"

definition LiveSVIDs :: "broker \<Rightarrow> string list" where
  "LiveSVIDs b = map fst (br_tunnels b)"

end
