(* ===== verification/BrokerProps.thy ===== *)
theory BrokerProps
  imports Broker
begin

text \<open>
  What the broker guarantees of its tunnels: who gets one, what one answers, when one is dropped, and
  what is relayed down it.
\<close>

section \<open>Frames\<close>

lemma upd_broker_simps [simp]:
  "w_broker (upd_broker f w) = f (w_broker w)" "w_io (upd_broker f w) = w_io w"
  by (simp_all add: upd_broker_def)

lemma close_conn_simps [simp]:
  "br_tunnels (close_conn cc b) = br_tunnels b" "br_versions (close_conn cc b) = br_versions b"
  "br_allow (close_conn cc b) = br_allow b" "br_tenant (close_conn cc b) = br_tenant b"
  "br_control (close_conn cc b) = br_control b" "br_closed (close_conn cc b) = br_closed b @ [cc]"
  "br_renewing (close_conn cc b) = br_renewing b" "br_lastRenew (close_conn cc b) = br_lastRenew b"
  "br_renewBefore (close_conn cc b) = br_renewBefore b"
  by (simp_all add: close_conn_def)

text \<open>Everything of a broker but its tunnels and the versions.\<close>

definition same_rest :: "broker \<Rightarrow> broker \<Rightarrow> bool" where
  "same_rest b b' \<longleftrightarrow> br_tenant b' = br_tenant b \<and> br_allow b' = br_allow b \<and>
     br_control b' = br_control b \<and> br_renewBefore b' = br_renewBefore b \<and> br_closed b' = br_closed b"

text \<open>
  The effect of a request down a tunnel: at most one call, over the registered connection, and the
  broker changes only by losing that tunnel.
\<close>

definition injected :: "string \<Rightarrow> string \<Rightarrow> string \<Rightarrow> string option \<Rightarrow> broker \<times> io list \<Rightarrow> broker \<times> io list \<Rightarrow> bool" where
  "injected svid method path body s s' \<longleftrightarrow>
     (case gm_load (br_tunnels (fst s)) svid of
        None \<Rightarrow> s' = s
      | Some cc \<Rightarrow> snd s' = snd s @ [NodeCall svid cc method path body] \<and>
          (fst s' = fst s \<or> fst s' = (fst s)\<lparr>br_tunnels := gm_delete svid (br_tunnels (fst s))\<rparr>))"

abbreviation bio :: "'a world_scheme \<Rightarrow> broker \<times> io list" where
  "bio w \<equiv> (w_broker w, w_io w)"

lemma injected_context:
  "injectResponseContext env ctxErr svid method path body w = (r, w') \<Longrightarrow>
     injected svid method path body (bio w) (bio w')"
  by (auto simp: injectResponseContext_def injected_def Let_def
      split: option.splits http_reply.splits if_splits)

lemma InjectResponse_injected:
  "InjectResponse env svid method path body w = (r, w') \<Longrightarrow>
     injected svid method path body (bio w) (bio w')"
  unfolding InjectResponse_def by (rule injected_context)

lemma Inject_injected:
  "Inject env svid method path body w = (r, w') \<Longrightarrow>
     injected svid method path body (bio w) (bio w')"
  by (auto simp: Inject_def split: prod.splits sum.splits dest: InjectResponse_injected)

lemma InjectResponse_Inr:
  assumes "InjectResponse env svid method path body w = (Inr r, w')"
  shows "\<exists>cc. gm_load (br_tunnels (w_broker w)) svid = Some cc \<and>
     e_node env (w_io w) cc method path body = Reply (ir_StatusCode r) (ir_Body r) \<and>
     int (length (ir_Body r)) \<le> injectResponseCap \<and> w_broker w' = w_broker w \<and>
     w_io w' = w_io w @ [NodeCall svid cc method path body]"
  using assms
  by (auto simp: InjectResponse_def injectResponseContext_def Let_def read_bounded_eq injectResponseCap_def
      split: option.splits http_reply.splits if_splits)

lemma injected_rest:
  "injected svid method path body (b, io) (b', io') \<Longrightarrow>
     same_rest b b' \<and> br_renewing b' = br_renewing b \<and> br_lastRenew b' = br_lastRenew b \<and>
     br_versions b' = br_versions b \<and> (br_tunnels b' = br_tunnels b \<or> br_tunnels b' = gm_delete svid (br_tunnels b))"
  by (auto simp: injected_def same_rest_def split: option.splits)

section \<open>Answers\<close>


text \<open>When a request fails on a tunnel, the tunnel is forgotten at once, but the connection is
  left open and the version of the node stays recorded; the watcher of that connection then finds
  another entry or none, and ends without closing it. A node whose connection is still good keeps it
  and is unreachable over it.\<close>

theorem inject_error_leaves_connection_open:
  assumes "gm_load (br_tunnels (w_broker w)) svid = Some cc"
    and "e_node env (w_io w) cc method path body = NetError x"
  shows "let b' = w_broker (snd (InjectResponse env svid method path body w)) in
     gm_load (br_tunnels b') svid = None \<and> br_closed b' = br_closed (w_broker w) \<and>
     br_versions b' = br_versions (w_broker w) \<and> (\<forall>fails. watch_tick svid cc fails b' = (False, b'))"
  using assms by (simp add: InjectResponse_def injectResponseContext_def Let_def watch_tick_def)

definition ex_broker :: broker where
  "ex_broker = \<lparr>br_tenant = ''t1'', br_allow = fst (al_Replace 0 ''t1'' [ex_list_node] NewAllowList),
     br_control = True, br_tunnels = [(''spiffe://x/t1/node/a'', 1)], br_versions = [],
     br_renewBefore = 0, br_lastRenew = [], br_renewing = [], br_closed = []\<rparr>"

definition ex_world :: world where
  "ex_world = \<lparr>w_broker = ex_broker, w_io = []\<rparr>"

definition ex_env :: env where
  "ex_env = \<lparr>e_tower = (\<lambda>_ _ _. Reply 200 ''list''), e_node = (\<lambda>_ _ _ _ _. NetError ''reset''),
     e_now = (\<lambda>io. int (length io))\<rparr>"

theorem inject_error_leaves_connection_open_witness:
  "let b' = w_broker (snd (InjectResponse ex_env ''spiffe://x/t1/node/a'' ''GET'' ''/health'' None ex_world))
   in br_tunnels b' = [] \<and> br_closed b' = [] \<and> watch_tick ''spiffe://x/t1/node/a'' 1 True b' = (False, b')"
proof -
  have t: "gm_load (br_tunnels (w_broker ex_world)) ''spiffe://x/t1/node/a'' = Some 1"
    and e: "e_node ex_env (w_io ex_world) 1 ''GET'' ''/health'' None = NetError ''reset''"
    by (simp_all add: ex_world_def ex_broker_def ex_env_def)
  show ?thesis
    using inject_error_leaves_connection_open [OF t e]
    by (simp add: Let_def InjectResponse_def injectResponseContext_def ex_world_def ex_broker_def
        ex_env_def gm_delete_def)
qed

section \<open>Admission\<close>

definition admitted :: "golib \<Rightarrow> bool \<Rightarrow> bool \<Rightarrow> string \<Rightarrow> string \<Rightarrow> bool \<Rightarrow> broker \<Rightarrow> bool" where
  "admitted lib is_tls handshake svid spki h2 b \<longleftrightarrow> is_tls \<and> handshake \<and> h2 \<and>
     tenantOf lib svid = br_tenant b \<and> al_Lookup (br_allow b) spki \<noteq> None"

lemma handle_refused:
  "\<not> admitted lib is_tls handshake svid spki h2 (w_broker w) \<Longrightarrow>
     handle lib env conn is_tls handshake svid spki h2 w = ([], upd_broker (close_conn conn) w)"
  by (auto simp: admitted_def handle_def split: option.splits)

lemma handle_admitted:
  assumes "admitted lib is_tls handshake svid spki h2 (w_broker w)"
    and "handle lib env conn is_tls handshake svid spki h2 w = (ts, w')"
  shows "w_io w' = w_io w @ [NodeCall svid conn ''GET'' ''/health'' None] \<and>
     same_rest (w_broker w) (w_broker w') \<and>
     (br_tunnels (w_broker w') = gm_store svid conn (br_tunnels (w_broker w)) \<or>
      br_tunnels (w_broker w') = gm_delete svid (gm_store svid conn (br_tunnels (w_broker w)))) \<and>
     WatchTunnel svid conn \<in> set ts"
proof -
  let ?w1 = "upd_broker (\<lambda>b. b\<lparr>br_tunnels := gm_store svid conn (br_tunnels b)\<rparr>) w"
  obtain r w2 where i: "Inject env svid ''GET'' ''/health'' None ?w1 = (r, w2)" by fastforce
  have inj: "injected svid ''GET'' ''/health'' None (bio ?w1) (bio w2)" using i by (rule Inject_injected)
  then have 1: "w_io w2 = w_io w @ [NodeCall svid conn ''GET'' ''/health'' None]"
    "same_rest (w_broker w) (w_broker w2)"
    "br_tunnels (w_broker w2) = gm_store svid conn (br_tunnels (w_broker w)) \<or>
     br_tunnels (w_broker w2) = gm_delete svid (gm_store svid conn (br_tunnels (w_broker w)))"
    by (auto simp: injected_def same_rest_def)
  obtain entry where entry: "al_Lookup (br_allow (w_broker w)) spki = Some entry"
    using assms(1) by (auto simp: admitted_def)
  have gate: "is_tls = True" "handshake = True" "h2 = True" "tenantOf lib svid = br_tenant (w_broker w)"
    using assms(1) by (simp_all add: admitted_def)
  have h: "handle lib env conn is_tls handshake svid spki h2 w =
     (case (r, w2) of (Inl e, w2) \<Rightarrow> ([WatchTunnel svid conn], w2)
            | (Inr body, w2) \<Rightarrow>
                ([WatchTunnel svid conn] @
                   (if br_control (w_broker w2) then [MaybeUpdate svid body, RenewIfDue svid] else []),
                 upd_broker (recordVersion lib svid body) w2))"
    by (simp only: handle_def gate entry option.case if_False if_True simp_thms Let_def i)
  have "same_rest b (recordVersion lib svid body b') = same_rest b b'"
    "br_tunnels (recordVersion lib svid body b') = br_tunnels b'" for b b' body
    by (auto simp: recordVersion_def Let_def same_rest_def)
  then show ?thesis using h assms(2) 1 by (cases r) auto
qed

text \<open>A connection becomes a tunnel only if its handshake succeeded, the tenant of its identity is
  the broker's and its key is on the allow-list at that moment; the first thing sent down it is a
  health check. Any other connection is closed before a byte is sent, and nothing is registered.\<close>

theorem tunnel_only_for_listed_node:
  "let (ts, w') = handle lib env conn is_tls handshake svid spki h2 w; b = w_broker w; b' = w_broker w' in
   if is_tls \<and> handshake \<and> h2 \<and> tenantOf lib svid = br_tenant b \<and> al_Lookup (br_allow b) spki \<noteq> None
   then w_io w' = w_io w @ [NodeCall svid conn ''GET'' ''/health'' None] \<and> br_closed b' = br_closed b \<and>
     (\<exists>x \<in> {Some conn, None}. gm_load (br_tunnels b') = (gm_load (br_tunnels b))(svid := x)) \<and>
     WatchTunnel svid conn \<in> set ts
   else ts = [] \<and> w_io w' = w_io w \<and> br_tunnels b' = br_tunnels b \<and> br_versions b' = br_versions b \<and>
     br_closed b' = br_closed b @ [conn]"
proof (cases "admitted lib is_tls handshake svid spki h2 (w_broker w)")
  case True
  obtain ts w' where h: "handle lib env conn is_tls handshake svid spki h2 w = (ts, w')"
    by fastforce
  have c: "is_tls \<and> handshake \<and> h2 \<and> tenantOf lib svid = br_tenant (w_broker w) \<and>
      al_Lookup (br_allow (w_broker w)) spki \<noteq> None" using True by (simp add: admitted_def)
  show ?thesis
    using handle_admitted [OF True h] unfolding h Let_def prod.case if_P [OF c]
    by (auto simp: same_rest_def fun_eq_iff)
next
  case False
  then have c: "\<not> (is_tls \<and> handshake \<and> h2 \<and> tenantOf lib svid = br_tenant (w_broker w) \<and>
      al_Lookup (br_allow (w_broker w)) spki \<noteq> None)" by (simp add: admitted_def)
  show ?thesis
    unfolding handle_refused [OF False] Let_def prod.case if_not_P [OF c] by simp
qed

section \<open>Revocation\<close>

definition listed :: "broker \<Rightarrow> string set" where
  "listed b = ne_SVID ` set (al_Entries (br_allow b))"

definition drop_tunnel :: "string list \<Rightarrow> broker \<Rightarrow> string \<times> int \<Rightarrow> broker" where
  "drop_tunnel allowed b p =
     (case p of (svid, cc) \<Rightarrow> if svid \<in> set allowed then b
      else close_conn cc (b\<lparr>br_tunnels := gm_delete svid (br_tunnels b),
                            br_versions := gm_delete svid (br_versions b)\<rparr>))"

lemma drop_tunnels:
  "let b' = foldl (drop_tunnel allowed) b ts; gone = (\<lambda>s. s \<in> fst ` set ts \<and> s \<notin> set allowed) in
     br_tunnels b' = filter (\<lambda>p. \<not> gone (fst p)) (br_tunnels b) \<and>
     br_versions b' = filter (\<lambda>p. \<not> gone (fst p)) (br_versions b) \<and>
     br_closed b' = br_closed b @ map snd (filter (\<lambda>p. fst p \<notin> set allowed) ts) \<and>
     br_tenant b' = br_tenant b \<and> br_allow b' = br_allow b \<and> br_control b' = br_control b \<and>
     br_renewing b' = br_renewing b \<and> br_lastRenew b' = br_lastRenew b \<and>
     br_renewBefore b' = br_renewBefore b"
proof (induction ts arbitrary: b)
  case Nil
  then show ?case by (simp add: Let_def)
next
  case (Cons p ts)
  obtain s cc where p: "p = (s, cc)" by (cases p)
  show ?case
  proof (cases "s \<in> set allowed")
    case True
    then have d: "drop_tunnel allowed b p = b" by (simp add: drop_tunnel_def p)
    have "(x \<in> fst ` set (p # ts) \<and> x \<notin> set allowed) = (x \<in> fst ` set ts \<and> x \<notin> set allowed)" for x
      using True by (auto simp: p)
    then show ?thesis using Cons.IH [of b] True unfolding foldl_Cons d by (simp add: Let_def p)
  next
    case False
    have "(x \<in> fst ` set (p # ts) \<and> x \<notin> set allowed) = (x = s \<or> (x \<in> fst ` set ts \<and> x \<notin> set allowed))" for x
      using False by (auto simp: p)
    moreover have d: "drop_tunnel allowed b p =
        close_conn cc (b\<lparr>br_tunnels := gm_delete s (br_tunnels b),
          br_versions := gm_delete s (br_versions b)\<rparr>)"
      using False by (simp add: drop_tunnel_def p)
    ultimately show ?thesis
      using Cons.IH [of "close_conn cc (b\<lparr>br_tunnels := gm_delete s (br_tunnels b),
          br_versions := gm_delete s (br_versions b)\<rparr>)"] False
      unfolding foldl_Cons d Let_def by (simp add: p gm_delete_def conj_commute)
  qed
qed

lemma reconcile_eq:
  "let b' = reconcile b in
     if al_Loaded (br_allow b) then
       br_tunnels b' = filter (\<lambda>p. fst p \<in> listed b) (br_tunnels b) \<and>
       br_versions b' = filter (\<lambda>p. fst p \<in> listed b \<or> fst p \<notin> fst ` set (br_tunnels b)) (br_versions b) \<and>
       br_closed b' = br_closed b @ map snd (filter (\<lambda>p. fst p \<notin> listed b) (br_tunnels b)) \<and>
       br_tenant b' = br_tenant b \<and> br_allow b' = br_allow b \<and> br_control b' = br_control b \<and>
       br_renewing b' = br_renewing b \<and> br_lastRenew b' = br_lastRenew b \<and>
       br_renewBefore b' = br_renewBefore b
     else b' = b"
proof (cases "al_Loaded (br_allow b)")
  case True
  let ?A = "map ne_SVID (al_Entries (br_allow b))"
  have r: "reconcile b = foldl (drop_tunnel ?A) b (br_tunnels b)"
  proof -
    have "(\<lambda>b (svid, cc). if svid \<in> set ?A then b
          else close_conn cc (b\<lparr>br_tunnels := gm_delete svid (br_tunnels b),
                                br_versions := gm_delete svid (br_versions b)\<rparr>)) = drop_tunnel ?A"
      by (intro ext) (simp add: drop_tunnel_def)
    then show ?thesis using True by (simp only: reconcile_def Let_def if_True simp_thms if_False)
  qed
  have A: "set ?A = listed b" by (simp add: listed_def)
  have k: "filter (\<lambda>p. \<not> (fst p \<in> fst ` set (br_tunnels b) \<and> fst p \<notin> listed b)) (br_tunnels b) =
      filter (\<lambda>p. fst p \<in> listed b) (br_tunnels b)" by (rule filter_cong) auto
  show ?thesis
    using drop_tunnels [of ?A b "br_tunnels b"] True unfolding r A Let_def k
    by (simp add: disj_commute)
next
  case False
  then show ?thesis by (simp add: reconcile_def)
qed

lemma gm_load_filter_key:
  "gm_load (filter (\<lambda>p. fst p \<in> A) m) k = (if k \<in> A then gm_load m k else None)"
  by (induction m) auto

lemma al_Replace_True:
  "al_Replace now t ns a = (a', True) \<Longrightarrow> al_Loaded a' \<and> al_Tenant a' = t \<and> al_bySPKI a' = al_index ns"
  by (auto simp: al_Replace_def al_Loaded_def al_Tenant_def split: if_splits)

lemma al_index_entries:
  "ne_SVID ` snd ` set (al_index ns) \<subseteq> ne_SVID ` set ns"
proof -
  have "snd ` set (al_index ns) \<subseteq> set ns"
  proof (induction ns rule: rev_induct)
    case (snoc n ns)
    have "set (gm_store k v m) \<subseteq> insert (k, v) (set m)" for k :: string and v m
      by (induction m) (auto split: if_splits)
    from this [of "ne_SPKIFingerprint n" n "al_index ns"] show ?case
      using snoc by (fastforce simp: al_index_def)
  qed (simp add: al_index_def)
  then show ?thesis by blast
qed


section \<open>Updates and renewals\<close>

text \<open>An update is relayed to a node only on the tower's order: the tower is asked once, with what
  the node reported; a node that says it updates by hand is left alone; and what goes down the tunnel
  is the tower's answer as it came, only when that answer says that an update is due.\<close>

theorem update_only_on_order:
  "let h = health_ver lib summary; q = update_for_body svid h;
       w' = maybeUpdate lib env svid summary w in
   if gm_load (nv_Capabilities h) ''self_update'' = Some False then w' = w
   else w_io w' = w_io w @ TowerCall ''/control/v1/update_for'' q #
     (case (updateFor lib (e_tower env (w_io w) ''/control/v1/update_for'' q),
            gm_load (br_tunnels (w_broker w)) svid) of
        ((Some out, None), Some cc) \<Rightarrow>
          (if asBool (jget ''update'' out) then
             [NodeCall svid cc ''POST'' ''/update/apply''
               (Some (case gl_marshal lib (JObj out) of None \<Rightarrow> [] | Some s \<Rightarrow> s))]
           else [])
      | _ \<Rightarrow> [])"
proof (cases "gm_load (nv_Capabilities (health_ver lib summary)) ''self_update'' = Some False")
  case True
  then show ?thesis by (simp add: maybeUpdate_def Let_def)
next
  case False
  let ?q = "update_for_body svid (health_ver lib summary)"
  let ?w1 = "w\<lparr>w_io := w_io w @ [TowerCall ''/control/v1/update_for'' ?q]\<rparr>"
  obtain out err where u: "updateFor lib (e_tower env (w_io w) ''/control/v1/update_for'' ?q) = (out, err)"
    by fastforce
  have inj: "w_io (snd (Inject env svid m path body ?w1)) = w_io ?w1 @
      (case gm_load (br_tunnels (w_broker w)) svid of None \<Rightarrow> [] | Some cc \<Rightarrow> [NodeCall svid cc m path body])"
    for m path body
    using Inject_injected [of env svid m path body ?w1]
    by (cases "Inject env svid m path body ?w1") (auto simp: injected_def split: option.splits)
  show ?thesis
  proof (cases err)
    case (Some e)
    then show ?thesis using False u by (simp add: maybeUpdate_def Let_def tower_def split: option.splits)
  next
    case None
    show ?thesis
    proof (cases out)
      case None
      then show ?thesis using False u \<open>err = None\<close>
        by (simp add: maybeUpdate_def Let_def tower_def member_def)
    next
      case (Some ob)
      then show ?thesis using False u \<open>err = None\<close>
        by (simp add: maybeUpdate_def Let_def tower_def member_def inj split: option.splits)
    qed
  qed
qed

text \<open>C38: A renewal that succeeds went through its three exchanges in order: the node gave a signing
  request over its own tunnel, the tower was asked to sign exactly that request and returned a
  certificate, and exactly that certificate was pushed down the same tunnel and confirmed by the
  node. Every other outcome is an error.\<close>

theorem renewal_relays_faithfully:
  assumes "renewNode lib env svid w = (None, w')"
  shows "\<exists>cc body1 csr out cert payload body2.
    let io1 = w_io w @ [NodeCall svid cc ''GET'' ''/renew/csr'' None];
        q = [(''purpose'', JStr ''renew''), (''csr'', JStr csr)];
        io2 = io1 @ [TowerCall ''/control/v1/sign'' q] in
    gm_load (br_tunnels (w_broker w)) svid = Some cc \<and>
    e_node env (w_io w) cc ''GET'' ''/renew/csr'' None = Reply 200 body1 \<and>
    decode_csr lib body1 = Some csr \<and> csr \<noteq> [] \<and>
    signRenew lib (e_tower env io1 ''/control/v1/sign'' q) = (out, None) \<and>
    member ''certificate'' out = Some (JStr cert) \<and> cert \<noteq> [] \<and>
    payload = (case gl_marshal lib (JObj [(''certificate'', JStr cert)]) of None \<Rightarrow> [] | Some s \<Rightarrow> s) \<and>
    e_node env io2 cc ''POST'' ''/renew/apply'' (Some payload) = Reply 200 body2 \<and>
    decode_applied lib body2 = Some True \<and>
    w_io w' = io2 @ [NodeCall svid cc ''POST'' ''/renew/apply'' (Some payload)]"
proof -
  obtain r1 w1 where i1: "InjectResponse env svid ''GET'' ''/renew/csr'' None w = (Inr r1, w1)"
      "ir_StatusCode r1 = 200"
    using assms by (auto simp: renewNode_def split: if_splits prod.splits sum.splits)
  obtain csr where csr: "decode_csr lib (ir_Body r1) = Some csr" "csr \<noteq> []"
    using assms i1 by (auto simp: renewNode_def split: if_splits option.splits)
  let ?q = "[(''purpose'', JStr ''renew''), (''csr'', JStr csr)]"
  let ?w2 = "w1\<lparr>w_io := w_io w1 @ [TowerCall ''/control/v1/sign'' ?q]\<rparr>"
  obtain out where out: "signRenew lib (e_tower env (w_io w1) ''/control/v1/sign'' ?q) = (out, None)"
    using assms i1 csr by (auto simp: renewNode_def tower_def split: if_splits option.splits prod.splits)
  define cert where "cert = asString (member ''certificate'' out)"
  have cert: "cert \<noteq> []"
    using assms i1 csr out by (auto simp: renewNode_def tower_def cert_def Let_def split: if_splits)
  define p where "p = (case gl_marshal lib (JObj [(''certificate'', JStr cert)]) of None \<Rightarrow> [] | Some s \<Rightarrow> s)"
  have rest: "renewNode lib env svid w = (case InjectResponse env svid ''POST'' ''/renew/apply'' (Some p) ?w2 of
       (Inl e, w3) \<Rightarrow> (Some (Errorf ''apply: %w'' [ArgE e]), w3)
     | (Inr applyResp, w3) \<Rightarrow>
       (if ir_StatusCode applyResp \<noteq> 200 then
          (Some (Errorf ''apply: HTTP %d'' [ArgN (ir_StatusCode applyResp)]), w3)
        else if decode_applied lib (ir_Body applyResp) \<noteq> Some True then
          (Some (Errnew ''node did not confirm certificate application''), w3)
        else (None, w3)))"
  proof -
    have "br_control (w_broker w)" using assms by (auto simp: renewNode_def split: if_splits)
    then show ?thesis
      using cert by (simp add: renewNode_def i1 csr tower_def out cert_def [symmetric] p_def)
  qed
  obtain r2 where i2: "InjectResponse env svid ''POST'' ''/renew/apply'' (Some p) ?w2 = (Inr r2, w')"
      "ir_StatusCode r2 = 200" "decode_applied lib (ir_Body r2) = Some True"
    using assms unfolding rest by (auto split: prod.splits sum.splits if_splits)
  obtain cc where cc: "gm_load (br_tunnels (w_broker w)) svid = Some cc"
      "e_node env (w_io w) cc ''GET'' ''/renew/csr'' None = Reply 200 (ir_Body r1)"
      "w_broker w1 = w_broker w" "w_io w1 = w_io w @ [NodeCall svid cc ''GET'' ''/renew/csr'' None]"
    using InjectResponse_Inr [OF i1(1)] i1(2) by auto
  have c: "member ''certificate'' out = Some (JStr cert)"
    using cert unfolding cert_def by (cases "member ''certificate'' out" rule: asString.cases) auto
  have ap: "e_node env (w_io ?w2) cc ''POST'' ''/renew/apply'' (Some p) = Reply 200 (ir_Body r2)"
    "w_io w' = w_io ?w2 @ [NodeCall svid cc ''POST'' ''/renew/apply'' (Some p)]"
    using InjectResponse_Inr [OF i2(1)] i2(2) cc(1,3) by auto
  have io: "w_io ?w2 = (w_io w @ [NodeCall svid cc ''GET'' ''/renew/csr'' None]) @ [TowerCall ''/control/v1/sign'' ?q]"
    by (simp add: cc(4))
  show ?thesis
    unfolding Let_def
    by (intro exI [of _ cc] exI [of _ "ir_Body r1"] exI [of _ csr] exI [of _ out] exI [of _ cert]
        exI [of _ p] exI [of _ "ir_Body r2"] conjI cc(1,2) csr c cert p_def i2(3)
        out [unfolded cc(4)] ap [unfolded io])
qed

text \<open>A node and a tower that carry a renewal through.\<close>

definition ex_renew_lib :: golib where
  "ex_renew_lib = ex_control_lib\<lparr>gl_unmarshal := (\<lambda>s.
     if s = ''csr'' then Some (JObj [(''csr'', JStr ''C'')])
     else if s = ''crt'' then Some (JObj [(''certificate'', JStr ''X'')])
     else Some (JObj [(''applied'', JBool True)]))\<rparr>"

definition ex_renew_env :: env where
  "ex_renew_env = \<lparr>e_tower = (\<lambda>_ _ _. Reply 200 ''crt''),
     e_node = (\<lambda>_ _ m _ _. Reply 200 (if m = ''GET'' then ''csr'' else ''ok'')),
     e_now = (\<lambda>io. int (length io))\<rparr>"

theorem renewal_relays_faithfully_witness:
  "\<exists>csr cert. fst (renewNode ex_renew_lib ex_renew_env ''spiffe://x/t1/node/a'' ex_world) = None \<and>
     decode_csr ex_renew_lib ''csr'' = Some csr \<and> csr \<noteq> [] \<and> cert \<noteq> []"
proof -
  let ?r = "renewNode ex_renew_lib ex_renew_env ''spiffe://x/t1/node/a'' ex_world"
  have u: "gl_unmarshal ex_renew_lib ''csr'' = Some (JObj [(''csr'', JStr ''C'')])"
    "gl_unmarshal ex_renew_lib ''crt'' = Some (JObj [(''certificate'', JStr ''X'')])"
    "gl_unmarshal ex_renew_lib ''ok'' = Some (JObj [(''applied'', JBool True)])"
    by (simp_all add: ex_renew_lib_def)
  have d: "decode_csr ex_renew_lib ''csr'' = Some ''C''" "decode_applied ex_renew_lib ''ok'' = Some True"
    by (simp_all add: decode_csr_def decode_applied_def decode_obj_def u lower_byte_def)
  have j: "jmap [(''certificate'', JStr ''X'')] = [(''certificate'', JStr ''X'')]"
    by (simp add: jmap_def jput_def)
  have s: "signRenew ex_renew_lib (Reply 200 ''crt'') = (Some [(''certificate'', JStr ''X'')], None)"
    by (simp add: signRenew_def call_def callWithLimit_def controlResponseLimit_def read_bounded_eq
        decode_out_def u j)
  have i: "InjectResponse ex_renew_env ''spiffe://x/t1/node/a'' m path body (w :: world) =
      (Inr \<lparr>ir_StatusCode = 200, ir_Body = (if m = ''GET'' then ''csr'' else ''ok'')\<rparr>,
       w\<lparr>w_io := w_io w @ [NodeCall ''spiffe://x/t1/node/a'' 1 m path body]\<rparr>)"
    if "w_broker w = ex_broker" for m path body w
    using that by (simp add: InjectResponse_def injectResponseContext_def ex_renew_env_def ex_broker_def
        injectResponseCap_def read_bounded_eq)
  have b: "w_broker ex_world = ex_broker" "br_control ex_broker" "jget ''certificate'' [(''certificate'', JStr ''X'')] = Some (JStr ''X'')"
    by (simp_all add: ex_world_def ex_broker_def jget_def)
  have t: "e_tower ex_renew_env io m q = Reply 200 ''crt''" for io m q by (simp add: ex_renew_env_def)
  have ok: "fst ?r = None"
    by (simp add: renewNode_def i b d tower_def t s member_def)
  then have "?r = (None, snd ?r)" by (metis prod.collapse)
  from renewal_relays_faithfully [OF this] show ?thesis using ok d(1) by (auto simp: Let_def)
qed


definition ex_due_world :: world where
  "ex_due_world = ex_world\<lparr>w_broker := ex_broker\<lparr>br_allow :=
     fst (al_Replace 0 ''t1'' [ex_list_node\<lparr>ne_NotAfter := ''soon''\<rparr>] NewAllowList)\<rparr>\<rparr>"


end
