(* ===== verification/BrokerRun.thy ===== *)
theory BrokerRun
  imports BrokerProps
begin

text \<open>
  The life of a broker: connections, requests, pings, refreshes, updates and renewals in any order,
  with any answers of the tower and the nodes. Each operation is one step; the environment may differ
  from step to step.
\<close>

section \<open>Steps\<close>

inductive br_step :: "golib \<Rightarrow> string \<Rightarrow> world \<Rightarrow> world \<Rightarrow> bool" for lib expected where
  connect: "conn \<notin> set (br_closed (w_broker w)) \<Longrightarrow> conn \<notin> snd ` set (br_tunnels (w_broker w)) \<Longrightarrow>
     br_step lib expected w (snd (handle lib env conn is_tls handshake svid spki h2 w))"
| request: "br_step lib expected w (snd (injectResponseContext env ctxErr svid meth path body w))"
| tick: "br_step lib expected w (upd_broker (\<lambda>b. snd (watch_tick svid cc fails b)) w)"
| refresh: "br_step lib expected w (snd (refreshAndReconcile lib env expected w))"
| update: "br_step lib expected w (maybeUpdate lib env svid summary w)"
| nudge: "br_step lib expected w (forceUpdate lib env svid w)"
| renew: "br_step lib expected w (renewIfDue lib env svid w)"

inductive br_reachable :: "golib \<Rightarrow> string \<Rightarrow> world \<Rightarrow> world \<Rightarrow> bool" for lib expected w0 where
  start: "br_reachable lib expected w0 w0"
| step: "br_reachable lib expected w0 w \<Longrightarrow> br_step lib expected w w' \<Longrightarrow>
     br_reachable lib expected w0 w'"

inductive_cases br_stepE: "br_step lib expected w w'"

section \<open>The invariant\<close>

definition br_inv :: "golib \<Rightarrow> broker \<Rightarrow> bool" where
  "br_inv lib b \<longleftrightarrow> gm_wf (br_tunnels b) \<and>
     (\<forall>p \<in> set (br_tunnels b). tenantOf lib (fst p) = br_tenant b) \<and>
     distinct (map snd (br_tunnels b)) \<and> (\<forall>p \<in> set (br_tunnels b). snd p \<notin> set (br_closed b)) \<and>
     al_inv (br_allow b)"

text \<open>
  Every step but a connection only takes tunnels away, and closes no connection that stays registered.
\<close>

definition shrinks :: "broker \<Rightarrow> broker \<Rightarrow> bool" where
  "shrinks b b' \<longleftrightarrow> br_tenant b' = br_tenant b \<and> (\<exists>P. br_tunnels b' = filter P (br_tunnels b)) \<and>
     (\<exists>cs. br_closed b' = br_closed b @ cs \<and> (\<forall>p \<in> set (br_tunnels b'). snd p \<notin> set cs)) \<and>
     (al_inv (br_allow b) \<longrightarrow> al_inv (br_allow b'))"

lemma shrinks_inv:
  assumes "shrinks b b'" and "br_inv lib b"
  shows "br_inv lib b'"
proof -
  obtain P cs where s: "br_tenant b' = br_tenant b" "br_tunnels b' = filter P (br_tunnels b)"
      "br_closed b' = br_closed b @ cs" "(\<forall>p \<in> set (br_tunnels b'). snd p \<notin> set cs)"
      "al_inv (br_allow b) \<longrightarrow> al_inv (br_allow b')"
    using assms(1) by (auto simp: shrinks_def)
  have "\<forall>p \<in> set (br_tunnels b'). snd p \<notin> set (br_closed b')"
    using assms(2) s(3,4) by (simp add: br_inv_def s(2))
  then show ?thesis
    using assms(2) s(1,2,5) by (auto simp: br_inv_def distinct_map_filter)
qed

lemma shrinks_refl [simp]: "shrinks b b"
  by (auto simp: shrinks_def intro: exI [of _ "\<lambda>_. True"])

lemma shrinks_trans:
  assumes "shrinks a b" and "shrinks b c"
  shows "shrinks a c"
proof -
  obtain P cs where 1: "br_tunnels b = filter P (br_tunnels a)" "br_closed b = br_closed a @ cs"
      "\<forall>p \<in> set (br_tunnels b). snd p \<notin> set cs"
    using assms(1) by (auto simp: shrinks_def)
  obtain Q ds where 2: "br_tunnels c = filter Q (br_tunnels b)" "br_closed c = br_closed b @ ds"
      "\<forall>p \<in> set (br_tunnels c). snd p \<notin> set ds"
    using assms(2) by (auto simp: shrinks_def)
  have "\<exists>R. br_tunnels c = filter R (br_tunnels a)" by (auto simp: 1(1) 2(1))
  moreover have "br_closed c = br_closed a @ (cs @ ds)" by (simp add: 1(2) 2(2))
  moreover have "\<forall>p \<in> set (br_tunnels c). snd p \<notin> set (cs @ ds)" using 1(3) 2(1,3) by auto
  ultimately show ?thesis using assms by (auto simp: shrinks_def)
qed

text \<open>What the guards and the versions hold does not matter.\<close>

lemma shrinks_same_tunnels:
  "br_tenant b' = br_tenant b \<Longrightarrow> br_tunnels b' = br_tunnels b \<Longrightarrow> br_closed b' = br_closed b \<Longrightarrow>
     br_allow b' = br_allow b \<Longrightarrow> shrinks b b'"
  by (auto simp: shrinks_def intro: exI [of _ "\<lambda>_. True"])

lemma shrinks_injected:
  assumes "injected svid meth path body (b, io) (b', io')"
  shows "shrinks b b'"
proof -
  have r: "same_rest b b'" "br_tunnels b' = br_tunnels b \<or> br_tunnels b' = gm_delete svid (br_tunnels b)"
    using injected_rest [OF assms] by auto
  then have "\<exists>P. br_tunnels b' = filter P (br_tunnels b)"
    by (auto simp: gm_delete_def intro: exI [of _ "\<lambda>_. True"])
  then show ?thesis using r(1) by (auto simp: shrinks_def same_rest_def)
qed

lemma shrinks_context: "shrinks (w_broker w) (w_broker (snd (injectResponseContext env c svid m p body w)))"
  using shrinks_injected injected_context
  by (metis prod.collapse)

lemma shrinks_InjectResponse: "shrinks (w_broker w) (w_broker (snd (InjectResponse env svid m p body w)))"
  unfolding InjectResponse_def by (rule shrinks_context)

lemma shrinks_Inject: "shrinks (w_broker w) (w_broker (snd (Inject env svid m p body w)))"
  using shrinks_InjectResponse [of w env svid m p body]
  by (auto simp: Inject_def split: prod.splits sum.splits)

lemma tower_broker [simp]: "w_broker (snd (tower env m q w)) = w_broker w"
  by (simp add: tower_def)

lemma shrinks_maybeUpdate: "shrinks (w_broker w) (w_broker (maybeUpdate lib env svid summary w))"
proof -
  obtain reply w1 where t: "tower env ''/control/v1/update_for''
      (update_for_body svid (health_ver lib summary)) w = (reply, w1)" by fastforce
  obtain out err where u: "updateFor lib reply = (out, err)" by fastforce
  have 1: "w_broker w1 = w_broker w" using tower_broker [of env _ _ w] t by (metis snd_conv)
  have "maybeUpdate lib env svid summary w \<in> {w, w1} \<or>
      (\<exists>body. maybeUpdate lib env svid summary w = snd (Inject env svid ''POST'' ''/update/apply'' body w1))"
    by (cases err; cases "asBool (member ''update'' out)") (auto simp: maybeUpdate_def Let_def t u)
  then show ?thesis using shrinks_Inject [of w1 env svid] 1 by auto
qed

lemma shrinks_forceUpdate: "shrinks (w_broker w) (w_broker (forceUpdate lib env svid w))"
proof -
  obtain r w1 where i: "Inject env svid ''GET'' ''/health'' None w = (r, w1)" by fastforce
  have 1: "shrinks (w_broker w) (w_broker w1)"
    using shrinks_Inject [of w env svid "''GET''" "''/health''" None] by (simp add: i)
  then show ?thesis
    using shrinks_trans [OF 1 shrinks_maybeUpdate] by (cases r) (auto simp: forceUpdate_def i)
qed

lemma shrinks_renewNode: "shrinks (w_broker w) (w_broker (snd (renewNode lib env svid w)))"
proof -
  obtain r w1 where i: "InjectResponse env svid ''GET'' ''/renew/csr'' None w = (r, w1)" by fastforce
  have 1: "shrinks (w_broker w) (w_broker w1)"
    using shrinks_InjectResponse [of w env svid "''GET''" "''/renew/csr''" None] by (simp add: i)
  have 2: "shrinks (w_broker w) (w_broker w2)" if "tower env m q w1 = (reply, w2)" for m q reply w2
    using 1 tower_broker [of env m q w1] that by simp
  have 3: "shrinks (w_broker w) (w_broker w3)"
    if "tower env m q w1 = (reply, w2)" "InjectResponse env svid m' p body w2 = (r', w3)"
    for m q reply w2 m' p body r' w3
    using shrinks_trans [OF 2 [OF that(1)]] shrinks_InjectResponse [of w2 env svid m' p body] that(2)
    by simp
  show ?thesis
  proof (cases "\<exists>csrResp csr. br_control (w_broker w) \<and> r = Inr csrResp \<and> ir_StatusCode csrResp = 200 \<and>
      decode_csr lib (ir_Body csrResp) = Some csr \<and> csr \<noteq> []")
    case False
    then have "snd (renewNode lib env svid w) \<in> {w, w1}"
      by (cases r) (auto simp: renewNode_def i split: option.splits)
    then show ?thesis using 1 by auto
  next
    case True
    then obtain csrResp csr where c: "br_control (w_broker w)" "r = Inr csrResp"
        "ir_StatusCode csrResp = 200" "decode_csr lib (ir_Body csrResp) = Some csr" "csr \<noteq> []" by blast
    obtain reply w2 where t: "tower env ''/control/v1/sign''
        [(''purpose'', JStr ''renew''), (''csr'', JStr csr)] w1 = (reply, w2)" by fastforce
    have "snd (renewNode lib env svid w) = w2 \<or>
        (\<exists>r body. InjectResponse env svid ''POST'' ''/renew/apply'' body w2 = (r, snd (renewNode lib env svid w)))"
      by (cases "signRenew lib reply")
        (auto simp: renewNode_def i c t Let_def split: prod.splits sum.splits option.splits)
    then show ?thesis using 2 [OF t] 3 [OF t] by auto
  qed
qed

lemma shrinks_upd:
  "shrinks a (w_broker w) \<Longrightarrow> br_tenant (f (w_broker w)) = br_tenant (w_broker w) \<Longrightarrow>
    br_tunnels (f (w_broker w)) = br_tunnels (w_broker w) \<Longrightarrow>
    br_closed (f (w_broker w)) = br_closed (w_broker w) \<Longrightarrow>
    br_allow (f (w_broker w)) = br_allow (w_broker w) \<Longrightarrow> shrinks a (w_broker (upd_broker f w))"
  using shrinks_trans [OF _ shrinks_same_tunnels] by simp

lemma shrinks_renewIfDue: "shrinks (w_broker w) (w_broker (renewIfDue lib env svid w))"
proof (cases "gm_load (br_renewing (w_broker w)) svid = None")
  case False
  then show ?thesis by (simp add: renewIfDue_def)
next
  case True
  let ?w0 = "upd_broker (\<lambda>b. b\<lparr>br_renewing := gm_store svid () (br_renewing b)\<rparr>) w"
  let ?rel = "upd_broker (\<lambda>b. b\<lparr>br_renewing := gm_delete svid (br_renewing b)\<rparr>)"
  obtain r w1 where n: "renewNode lib env svid ?w0 = (r, w1)" by fastforce
  have 0: "shrinks (w_broker w) (w_broker ?w0)" by (rule shrinks_same_tunnels) simp_all
  have 1: "shrinks (w_broker w) (w_broker w1)"
    using shrinks_trans [OF 0 shrinks_renewNode [of ?w0 lib env svid]] by (simp add: n)
  let ?rec = "upd_broker (\<lambda>b. b\<lparr>br_lastRenew := gm_store svid (e_now env (w_io w1)) (br_lastRenew b)\<rparr>) w1"
  have 2: "shrinks (w_broker w) (w_broker ?rec)" using 1 by (rule shrinks_upd) simp_all
  define last where "last = (case r of Some err \<Rightarrow> w1 | None \<Rightarrow> ?rec)"
  have l: "(case renewNode lib env svid ?w0 of (Some err, w1) \<Rightarrow> w1
      | (None, w1) \<Rightarrow> upd_broker (\<lambda>b. b\<lparr>br_lastRenew :=
          gm_store svid (e_now env (w_io w1)) (br_lastRenew b)\<rparr>) w1) = last"
    by (cases r) (simp_all add: n last_def)
  have "last \<in> {w1, ?rec}" by (cases r) (simp_all add: last_def)
  moreover have "\<exists>w'. renewIfDue lib env svid w = ?rel w' \<and> w' \<in> {?w0, last}"
    unfolding renewIfDue_def if_not_P [OF not_not [THEN iffD2, OF True]] Let_def l
    by (rule exI, rule conjI [OF refl]) (simp split: option.splits)
  ultimately obtain w' where w': "renewIfDue lib env svid w = ?rel w'" "w' \<in> {?w0, w1, ?rec}" by blast
  then have "shrinks (w_broker w) (w_broker w')" using 0 1 2 by blast
  then show ?thesis unfolding w'(1) by (rule shrinks_upd) simp_all
qed

lemma shrinks_reconcile:
  assumes "br_inv lib b"
  shows "shrinks b (reconcile b)"
proof (cases "al_Loaded (br_allow b)")
  case True
  have r: "br_tunnels (reconcile b) = filter (\<lambda>p. fst p \<in> listed b) (br_tunnels b)"
    "br_closed (reconcile b) = br_closed b @ map snd (filter (\<lambda>p. fst p \<notin> listed b) (br_tunnels b))"
    "br_tenant (reconcile b) = br_tenant b" "br_allow (reconcile b) = br_allow b"
    using reconcile_eq [of b] True by (auto simp: Let_def)
  have inj: "inj_on snd (set (br_tunnels b))" using assms by (simp add: br_inv_def distinct_map)
  have "snd p \<noteq> snd q" if "p \<in> set (br_tunnels b)" "q \<in> set (br_tunnels b)"
      "fst p \<notin> listed b" "fst q \<in> listed b" for p q
    using inj_onD [OF inj] that by metis
  then have "\<forall>p \<in> set (br_tunnels (reconcile b)).
      snd p \<notin> set (map snd (filter (\<lambda>p. fst p \<notin> listed b) (br_tunnels b)))"
    unfolding r(1) set_map set_filter by (intro ballI notI) (elim imageE CollectE conjE, metis)
  then show ?thesis
    unfolding shrinks_def r(2-4) using r(1) by (intro conjI exI impI) (rule refl | assumption)+
next
  case False
  then show ?thesis using reconcile_eq [of b] by (simp add: Let_def)
qed

lemma br_inv_refresh:
  assumes "br_inv lib (w_broker w)"
  shows "br_inv lib (w_broker (snd (refreshAndReconcile lib env expected w)))"
proof -
  let ?w1 = "snd (tower env ''/control/v1/allowlist'' [] w)"
  have "w_broker (snd (refreshAndReconcile lib env expected w)) = w_broker w \<or>
      (\<exists>now t ns. w_broker (snd (refreshAndReconcile lib env expected w)) =
         reconcile ((w_broker w)\<lparr>br_allow := fst (al_Replace now t ns (br_allow (w_broker w)))\<rparr>))"
    by (auto simp: refreshAndReconcile_def tower_def split: sum.splits prod.splits bool.splits) (metis fst_conv)+
  then show ?thesis
  proof
    assume "\<exists>now t ns. w_broker (snd (refreshAndReconcile lib env expected w)) =
         reconcile ((w_broker w)\<lparr>br_allow := fst (al_Replace now t ns (br_allow (w_broker w)))\<rparr>)"
    then obtain now t ns where r: "w_broker (snd (refreshAndReconcile lib env expected w)) =
         reconcile ((w_broker w)\<lparr>br_allow := fst (al_Replace now t ns (br_allow (w_broker w)))\<rparr>)"
      by blast
    have "br_inv lib ((w_broker w)\<lparr>br_allow := fst (al_Replace now t ns (br_allow (w_broker w)))\<rparr>)"
      using assms by (simp add: br_inv_def al_inv_Replace)
    then show ?thesis unfolding r using shrinks_inv shrinks_reconcile by blast
  qed (simp add: assms)
qed

lemma br_inv_tick:
  assumes "br_inv lib b"
  shows "br_inv lib (snd (watch_tick svid cc fails b))"
proof -
  have "shrinks b (close_conn cc (b\<lparr>br_tunnels := gm_delete svid (br_tunnels b),
      br_versions := gm_delete svid (br_versions b)\<rparr>))" if "gm_load (br_tunnels b) svid = Some cc"
  proof -
    have "(svid, cc) \<in> set (br_tunnels b)" using that by (rule gm_load_in_set)
    then have "p = (svid, cc)" if "p \<in> set (br_tunnels b)" "snd p = cc" for p
      using assms that by (metis br_inv_def distinct_map inj_onD snd_conv)
    then have "\<forall>p \<in> set (gm_delete svid (br_tunnels b)). snd p \<noteq> cc"
      by (auto simp: gm_set_delete)
    then show ?thesis by (auto simp: shrinks_def gm_delete_def)
  qed
  then show ?thesis using assms shrinks_inv by (auto simp: watch_tick_def)
qed

lemma br_inv_store:
  assumes "br_inv lib b" and "conn \<notin> set (br_closed b)" and "conn \<notin> snd ` set (br_tunnels b)"
    and "tenantOf lib svid = br_tenant b"
  shows "br_inv lib (b\<lparr>br_tunnels := gm_store svid conn (br_tunnels b)\<rparr>)"
proof -
  have wf: "gm_wf (br_tunnels b)" using assms(1) by (simp add: br_inv_def)
  have "distinct (map snd (gm_store k v m))" if "distinct (map snd m)" "v \<notin> snd ` set m" "gm_wf m"
    for k :: string and v :: int and m
    using that
  proof (induction m)
    case (Cons p m)
    obtain a x where p: "p = (a, x)" by (cases p)
    have "set (gm_store k v m) \<subseteq> insert (k, v) (set m)" by (induction m) (auto split: if_splits)
    then show ?case using Cons by (auto simp: p)
  qed simp
  then show ?thesis
    using assms wf unfolding br_inv_def by (auto simp: gm_set_store)
qed

lemma br_inv_handle:
  assumes "br_inv lib (w_broker w)" and "conn \<notin> set (br_closed (w_broker w))"
    and "conn \<notin> snd ` set (br_tunnels (w_broker w))"
  shows "br_inv lib (w_broker (snd (handle lib env conn is_tls handshake svid spki h2 w)))"
proof (cases "admitted lib is_tls handshake svid spki h2 (w_broker w)")
  case False
  then show ?thesis
    using assms by (simp add: handle_refused) (auto simp: br_inv_def)
next
  case True
  obtain ts w' where h: "handle lib env conn is_tls handshake svid spki h2 w = (ts, w')" by fastforce
  let ?b = "(w_broker w)\<lparr>br_tunnels := gm_store svid conn (br_tunnels (w_broker w))\<rparr>"
  have "br_inv lib ?b" using assms True by (intro br_inv_store) (simp_all add: admitted_def)
  moreover have "shrinks ?b (w_broker w')"
  proof -
    have "\<exists>P. br_tunnels (w_broker w') = filter P (br_tunnels ?b)"
      using handle_admitted [OF True h] by (auto simp: gm_delete_def intro: exI [of _ "\<lambda>_. True"])
    then show ?thesis using handle_admitted [OF True h] by (auto simp: shrinks_def same_rest_def)
  qed
  ultimately show ?thesis using shrinks_inv by (simp add: h)
qed

lemma br_step_inv [store_inv]: "br_step lib expected w w' \<Longrightarrow> br_inv lib (w_broker w) \<Longrightarrow> br_inv lib (w_broker w')"
proof (induction rule: br_step.induct)
  case (connect conn w env is_tls handshake svid spki h2)
  then show ?case by (simp add: br_inv_handle)
next
  case (request w env ctxErr svid meth path body)
  then show ?case using shrinks_inv [OF shrinks_context] by blast
next
  case (tick w svid cc fails)
  then show ?case by (simp add: br_inv_tick)
next
  case (refresh w env)
  then show ?case by (rule br_inv_refresh)
next
  case (update w env svid summary)
  then show ?case using shrinks_inv [OF shrinks_maybeUpdate] by blast
next
  case (nudge w env svid)
  then show ?case using shrinks_inv [OF shrinks_forceUpdate] by blast
next
  case (renew w env svid)
  then show ?case using shrinks_inv [OF shrinks_renewIfDue] by blast
qed

lemma br_reachable_inv:
  "br_reachable lib expected w0 w \<Longrightarrow> br_inv lib (w_broker w0) \<Longrightarrow> br_inv lib (w_broker w)"
  by (induction rule: br_reachable.induct) (auto intro: br_step_inv)

section \<open>Properties\<close>

text \<open>In every reachable state each live tunnel belongs to a node of the broker's own tenant, no
  node has two, no two nodes share a connection, and no registered connection has been closed; so a
  request never goes to a foreign node, to two nodes, or down a connection already torn down.\<close>

theorem live_tunnels_are_sound:
  assumes "br_reachable lib expected w0 w" and "br_tunnels (w_broker w0) = []"
    and "br_allow (w_broker w0) = NewAllowList"
  shows "let b = w_broker w in
    distinct (LiveSVIDs b) \<and> distinct (map snd (br_tunnels b)) \<and>
    list_all (\<lambda>(svid, cc). tenantOf lib svid = br_tenant b \<and> cc \<notin> set (br_closed b)) (br_tunnels b)"
proof -
  have "br_inv lib (w_broker w0)" using assms(2,3) by (simp add: br_inv_def)
  then have "br_inv lib (w_broker w)" using br_reachable_inv assms(1) by blast
  then show ?thesis by (auto simp: br_inv_def LiveSVIDs_def Let_def list_all_iff)
qed

definition ex_start :: world where
  "ex_start = \<lparr>w_broker = ex_broker\<lparr>br_allow := NewAllowList, br_tunnels := []\<rparr>, w_io = []\<rparr>"

theorem live_tunnels_are_sound_witness:
  "distinct (LiveSVIDs (w_broker (snd (refreshAndReconcile ex_control_lib ex_env ''t1'' ex_start))))"
proof -
  have "br_reachable ex_control_lib ''t1'' ex_start
      (snd (refreshAndReconcile ex_control_lib ex_env ''t1'' ex_start))"
    by (rule br_reachable.step [OF br_reachable.start br_step.refresh])
  from live_tunnels_are_sound [OF this] show ?thesis by (simp add: ex_start_def Let_def)
qed

end
