(* ===== verification/Resolve.thy ===== *)
theory Resolve
  imports BrokerRun
begin

text \<open>
  From what a caller types to one node: the host lists of \<open>broker.go\<close> and the resolver of \<open>admin.go\<close>
  with its two sources, the live tunnels and the allow-list. The locale \<open>host_source\<close> is what the
  resolver needs of a source.
\<close>

section \<open>Hosts\<close>

record HostInfo =
  hi_GOOS :: string
  hi_GOARCH :: string
  hi_Shell :: string
  hi_OSVersion :: string
  hi_Name :: string
  hi_Description :: string
  hi_SVID :: string
  hi_NodeID :: string
  hi_Online :: bool

definition nodeIDOf :: "string \<Rightarrow> string" where
  "nodeIDOf svid = last (Split (CHR ''/'') (TrimRightByte (CHR ''/'') svid))"

text \<open>The names of the live hosts: the last entry of an identity wins.\<close>

definition host_meta :: "broker \<Rightarrow> (string, NodeEntry) gomap" where
  "host_meta b = foldl (\<lambda>m e. gm_store (ne_SVID e) e m) [] (al_Entries (br_allow b))"

definition zero_entry :: NodeEntry where
  "zero_entry = \<lparr>ne_SVID = [], ne_SPKIFingerprint = [], ne_BoundName = [], ne_Description = [],
     ne_NotAfter = []\<rparr>"

definition LiveHosts :: "broker \<Rightarrow> HostInfo list" where
  "LiveHosts b = map (\<lambda>(svid, _).
     (let e = (case gm_load (host_meta b) svid of None \<Rightarrow> zero_entry | Some e \<Rightarrow> e);
          nv = (case gm_load (br_versions b) svid of None \<Rightarrow> zero_ver | Some nv \<Rightarrow> nv)
      in \<lparr>hi_GOOS = nv_GOOS nv, hi_GOARCH = nv_GOARCH nv, hi_Shell = nv_Shell nv,
          hi_OSVersion = nv_OSVersion nv, hi_Name = ne_BoundName e, hi_Description = ne_Description e,
          hi_SVID = svid, hi_NodeID = nodeIDOf svid, hi_Online = True\<rparr>)) (br_tunnels b)"

definition AllHosts :: "broker \<Rightarrow> HostInfo list" where
  "AllHosts b = map (\<lambda>e.
     \<lparr>hi_GOOS = [], hi_GOARCH = [], hi_Shell = [], hi_OSVersion = [], hi_Name = ne_BoundName e,
      hi_Description = ne_Description e, hi_SVID = ne_SVID e, hi_NodeID = nodeIDOf (ne_SVID e),
      hi_Online = (gm_load (br_tunnels b) (ne_SVID e) \<noteq> None)\<rparr>) (al_Entries (br_allow b))"

section \<open>The resolver\<close>

definition id_hit :: "casing \<Rightarrow> string \<Rightarrow> HostInfo \<Rightarrow> bool" where
  "id_hit cas q h \<longleftrightarrow> q = hi_SVID h \<or> equal_fold cas q (hi_NodeID h)"

definition name_hit :: "casing \<Rightarrow> string \<Rightarrow> HostInfo \<Rightarrow> bool" where
  "name_hit cas q h \<longleftrightarrow> hi_Name h \<noteq> [] \<and> equal_fold cas (hi_Name h) q"

definition sub_hit :: "casing \<Rightarrow> string \<Rightarrow> HostInfo \<Rightarrow> bool" where
  "sub_hit cas ql h \<longleftrightarrow> Contains (to_lower cas (hi_Name h)) ql
     \<or> Contains (to_lower cas (hi_Description h)) ql \<or> Contains (to_lower cas (hi_SVID h)) ql"

definition resolveAmong :: "casing \<Rightarrow> string \<Rightarrow> HostInfo list \<Rightarrow> string \<times> HostInfo list" where
  "resolveAmong cas raw hosts =
     (let q = TrimSpace raw in
      if q = [] then ([], [])
      else case find (id_hit cas q) hosts of
        Some h \<Rightarrow> (hi_SVID h, [])
      | None \<Rightarrow>
        (let nameHits = filter (name_hit cas q) hosts in
         if length nameHits = 1 then (hi_SVID (hd nameHits), [])
         else if length nameHits > 1 then ([], nameHits)
         else
           (let ql = to_lower cas q; subHits = filter (sub_hit cas ql) hosts in
            if length subHits = 1 then (hi_SVID (hd subHits), []) else ([], subHits))))"

definition resolveTarget :: "casing \<Rightarrow> string \<Rightarrow> broker \<Rightarrow> string \<times> HostInfo list" where
  "resolveTarget cas q b = resolveAmong cas q (LiveHosts b)"

definition resolveKnown :: "casing \<Rightarrow> string \<Rightarrow> broker \<Rightarrow> string \<times> HostInfo list" where
  "resolveKnown cas q b = resolveAmong cas q (AllHosts b)"

definition matchTunnel :: "casing \<Rightarrow> string \<Rightarrow> broker \<Rightarrow> string" where
  "matchTunnel cas q b = fst (resolveTarget cas q b)"

section \<open>What every source gives\<close>

lemma resolveAmong_in:
  assumes "resolveAmong cas q hosts = (svid, cand)"
  shows "set cand \<subseteq> set hosts \<and> (svid \<noteq> [] \<longrightarrow> cand = [] \<and> (\<exists>h \<in> set hosts. hi_SVID h = svid)) \<and>
    (cand \<noteq> [] \<longrightarrow> svid = [] \<and> 2 \<le> length cand)"
proof -
  have one: "\<exists>h \<in> set hosts. hi_SVID h = hi_SVID (hd (filter P hosts))" if "length (filter P hosts) = 1" for P
    using that by (metis One_nat_def filter_is_subset hd_in_set list.size(3) subsetD zero_neq_one)
  show ?thesis
    using assms one
    by (auto simp: resolveAmong_def Let_def find_Some_iff split: option.splits if_splits;
        cases "filter (sub_hit cas (to_lower cas (TrimSpace q))) hosts"; force simp: Suc_le_eq)
qed

locale host_source =
  fixes hosts :: "'s \<Rightarrow> HostInfo list"
    and known :: "'s \<Rightarrow> string \<Rightarrow> bool"
  assumes hosts_known: "h \<in> set (hosts s) \<Longrightarrow> known s (hi_SVID h) \<and> hi_NodeID h = nodeIDOf (hi_SVID h)"
begin

lemma resolved_known: "resolveAmong cas q (hosts s) = (svid, cand) \<Longrightarrow> svid \<noteq> [] \<Longrightarrow> known s svid"
  using resolveAmong_in [of cas q "hosts s" svid cand] hosts_known by blast

lemma candidates_known:
  "resolveAmong cas q (hosts s) = (svid, cand) \<Longrightarrow> h \<in> set cand \<Longrightarrow> known s (hi_SVID h)"
  using resolveAmong_in [of cas q "hosts s" svid cand] hosts_known by blast

end

interpretation live: host_source LiveHosts "\<lambda>b svid. gm_load (br_tunnels b) svid \<noteq> None"
proof unfold_locales
  fix h b
  assume "h \<in> set (LiveHosts b)"
  then show "gm_load (br_tunnels b) (hi_SVID h) \<noteq> None \<and> hi_NodeID h = nodeIDOf (hi_SVID h)"
    by (force simp: LiveHosts_def Let_def gm_load_None_iff)
qed

interpretation enrolled: host_source AllHosts "\<lambda>b svid. svid \<in> listed b"
  by unfold_locales (auto simp: AllHosts_def listed_def)

section \<open>Properties\<close>

definition ids_unique :: "casing \<Rightarrow> string \<Rightarrow> HostInfo list \<Rightarrow> bool" where
  "ids_unique cas q hosts \<longleftrightarrow>
     (\<forall>h \<in> set hosts. \<forall>h' \<in> set hosts. id_hit cas q h \<longrightarrow> id_hit cas q h' \<longrightarrow> hi_SVID h = hi_SVID h')"

lemma find_perm:
  assumes "mset hosts = mset hosts'" and "ids_unique cas q hosts"
  shows "map_option hi_SVID (find (id_hit cas q) hosts) = map_option hi_SVID (find (id_hit cas q) hosts')"
proof -
  have s: "set hosts = set hosts'" using assms(1) by (rule mset_eq_setD)
  show ?thesis
  proof (cases "find (id_hit cas q) hosts")
    case None
    then have "find (id_hit cas q) hosts' = None" using s by (simp add: find_None_iff)
    with None show ?thesis by simp
  next
    case (Some h)
    then have h: "h \<in> set hosts'" "id_hit cas q h" using s by (auto simp: find_Some_iff)
    then obtain h' where h': "find (id_hit cas q) hosts' = Some h'"
      by (cases "find (id_hit cas q) hosts'") (auto simp: find_None_iff)
    then have "h' \<in> set hosts'" "id_hit cas q h'" by (auto simp: find_Some_iff)
    then have "hi_SVID h = hi_SVID h'" using assms(2) h unfolding ids_unique_def s by blast
    then show ?thesis by (simp add: Some h')
  qed
qed

lemma filter_perm:
  assumes "mset hosts = mset hosts'"
  shows "mset (filter P hosts) = mset (filter P hosts')" "length (filter P hosts) = length (filter P hosts')"
    "length (filter P hosts) = 1 \<Longrightarrow> hd (filter P hosts) = hd (filter P hosts')"
proof -
  show m: "mset (filter P hosts) = mset (filter P hosts')" using assms by simp
  then show l: "length (filter P hosts) = length (filter P hosts')" by (metis size_mset)
  show "hd (filter P hosts) = hd (filter P hosts')" if one: "length (filter P hosts) = 1"
  proof -
    obtain x where x: "filter P hosts = [x]"
      by (cases "filter P hosts") (use one in auto)
    then have "mset (filter P hosts') = {#x#}" unfolding m [symmetric] by simp
    then have "filter P hosts' = [x]" by (simp only: mset_single_iff)
    then show ?thesis by (simp add: x)
  qed
qed

text \<open>C28: The resolver never guesses. It names a node only when it is one of the hosts, and offers
  candidates, at least two of them, only when it names none; and when no two nodes share an
  identifier, neither answer depends on the order in which the hosts are visited, which Go leaves to
  chance.\<close>

theorem resolution_never_guesses:
  assumes "mset hosts = mset hosts'" and "ids_unique cas (TrimSpace q) hosts"
    and "resolveAmong cas q hosts = (svid, cand)" and "resolveAmong cas q hosts' = (svid', cand')"
  shows "svid = svid' \<and> mset cand = mset cand' \<and> (svid = [] \<or> cand = [] \<and> svid \<in> hi_SVID ` set hosts) \<and>
    (cand = [] \<or> svid = [] \<and> 2 \<le> length cand \<and> set cand \<subseteq> set hosts)"
proof -
  let ?q = "TrimSpace q"
  note f = find_perm [OF assms(1,2)] and p = filter_perm [OF assms(1)]
  let ?n = "name_hit cas ?q" and ?s = "sub_hit cas (to_lower cas ?q)"
  have "svid = svid' \<and> mset cand = mset cand'"
  proof (cases "?q = []")
    case True
    then show ?thesis using assms(3,4) by (simp add: resolveAmong_def)
  next
    case q: False
    show ?thesis
    proof (cases "find (id_hit cas ?q) hosts")
      case (Some h)
      then obtain h' where h': "find (id_hit cas ?q) hosts' = Some h'" "hi_SVID h = hi_SVID h'"
        using f by (cases "find (id_hit cas ?q) hosts'") auto
      then show ?thesis using assms(3,4) q Some by (auto simp: resolveAmong_def)
    next
      case None
      then have n: "find (id_hit cas ?q) hosts' = None" using f by simp
      show ?thesis
        using assms(3,4) q None n p(1,2) [of ?n] p(1,2) [of ?s] p(3) [of ?n] p(3) [of ?s]
        unfolding resolveAmong_def Let_def by (simp split: if_splits) auto
    qed
  qed
  then show ?thesis using resolveAmong_in [OF assms(3)] by auto
qed

definition ex_host :: "string \<Rightarrow> string \<Rightarrow> HostInfo" where
  "ex_host svid name = \<lparr>hi_GOOS = [], hi_GOARCH = [], hi_Shell = [], hi_OSVersion = [], hi_Name = name,
     hi_Description = [], hi_SVID = svid, hi_NodeID = nodeIDOf svid, hi_Online = True\<rparr>"

lemma trim_ab: "TrimSpace ''db'' = ''db''" "TrimSpace ''a'' = ''a''"
  by (simp_all add: TrimSpace_def chunks.simps next_rune_def IsSpace_def)

theorem resolution_never_guesses_witness:
  "fst (resolveAmong ascii_casing ''db'' [ex_host ''s://x/a'' ''db'', ex_host ''s://x/b'' ''db'']) =
   fst (resolveAmong ascii_casing ''db'' [ex_host ''s://x/b'' ''db'', ex_host ''s://x/a'' ''db''])"
proof -
  let ?a = "ex_host ''s://x/a'' ''db''" and ?b = "ex_host ''s://x/b'' ''db''"
  have u: "ids_unique ascii_casing (TrimSpace ''db'') [?a, ?b]"
    by (simp add: ids_unique_def trim_ab id_hit_def ex_host_def nodeIDOf_def TrimRightByte_def
        ascii_casing_def lower_byte_def)
  have m: "mset [?a, ?b] = mset [?b, ?a]" by simp
  show ?thesis
    using resolution_never_guesses [OF m u, of "fst (resolveAmong ascii_casing ''db'' [?a, ?b])"]
    by (metis prod.collapse)
qed

text \<open>When two live nodes end in the same identifier, naming it picks the one that is visited
  first, without candidates: the answer depends on the order of a Go map.\<close>

theorem shared_identifier_is_guessed:
  "let a = ex_host ''s://x/t/node/a'' []; b = ex_host ''s://x/t/edge/a'' [] in
     resolveAmong ascii_casing ''a'' [a, b] = (hi_SVID a, []) \<and>
     resolveAmong ascii_casing ''a'' [b, a] = (hi_SVID b, []) \<and> hi_SVID a \<noteq> hi_SVID b"
  by (simp add: resolveAmong_def trim_ab id_hit_def ex_host_def nodeIDOf_def TrimRightByte_def
      ascii_casing_def lower_byte_def)

text \<open>A request can only be resolved to a node that has a live tunnel, of the broker's own
  tenant; knowledge can only be resolved to a node of the current allow-list; and what an ambiguous
  reference reveals is limited to the same nodes.\<close>

theorem resolution_stays_inside:
  assumes "br_inv lib b"
  shows "(case resolveTarget cas q b of (svid, cand) \<Rightarrow>
      (svid = [] \<or> gm_load (br_tunnels b) svid \<noteq> None \<and> tenantOf lib svid = br_tenant b) \<and>
      hi_SVID ` set cand \<subseteq> fst ` set (br_tunnels b)) \<and>
    (case resolveKnown cas q b of (svid, cand) \<Rightarrow>
      (svid = [] \<or> svid \<in> listed b) \<and> hi_SVID ` set cand \<subseteq> listed b)"
proof -
  obtain s c where t: "resolveAmong cas q (LiveHosts b) = (s, c)" by fastforce
  obtain s' c' where k: "resolveAmong cas q (AllHosts b) = (s', c')" by fastforce
  have "s = [] \<or> gm_load (br_tunnels b) s \<noteq> None" using live.resolved_known [OF t] by blast
  moreover have "tenantOf lib s = br_tenant b" if "gm_load (br_tunnels b) s \<noteq> None"
    using that assms by (auto simp: br_inv_def dest!: gm_load_in_set)
  moreover have "hi_SVID ` set c \<subseteq> fst ` set (br_tunnels b)"
    using live.candidates_known [OF t] by (auto simp: gm_load_None_iff)
  moreover have "s' = [] \<or> s' \<in> listed b" using enrolled.resolved_known [OF k] by blast
  moreover have "hi_SVID ` set c' \<subseteq> listed b" using enrolled.candidates_known [OF k] by auto
  ultimately show ?thesis by (auto simp: resolveTarget_def resolveKnown_def t k)
qed

lemma ex_resolve: "resolveTarget ascii_casing ''a'' ex_broker = (''spiffe://x/t1/node/a'', [])"
proof -
  have "nodeIDOf ''spiffe://x/t1/node/a'' = ''a''"
    by (simp add: nodeIDOf_def TrimRightByte_def)
  then have "find (id_hit ascii_casing ''a'') (LiveHosts ex_broker) = Some (hd (LiveHosts ex_broker))"
    and "hi_SVID (hd (LiveHosts ex_broker)) = ''spiffe://x/t1/node/a''"
    by (simp_all add: LiveHosts_def ex_broker_def id_hit_def ascii_casing_def lower_byte_def Let_def)
  then show ?thesis by (simp add: resolveTarget_def resolveAmong_def trim_ab)
qed

theorem resolution_stays_inside_witness:
  "fst (resolveTarget ascii_casing ''a'' ex_broker) = ''spiffe://x/t1/node/a'' \<and>
   tenantOf ex_control_lib (fst (resolveTarget ascii_casing ''a'' ex_broker)) = br_tenant ex_broker"
proof -
  have "tenantOf ex_control_lib ''spiffe://x/t1/node/a'' = ''t1''"
    by (simp add: tenantOf_def ex_control_lib_def TrimByte_def TrimRightByte_def)
  then have "br_inv ex_control_lib ex_broker"
    by (simp add: br_inv_def ex_broker_def al_inv_Replace)
  from resolution_stays_inside [OF this, of ascii_casing "''a''"] show ?thesis
    by (simp add: ex_resolve split: prod.splits)
qed

end
