(* ===== verification/Hints.thy ===== *)
theory Hints
  imports Resolve
begin

text \<open>
  \<open>hints.go\<close> and the look-ups at the end of \<open>desktop.go\<close>: the sentence that rides along with the answer
  to a command that went wrong in a common way. The three RE2 patterns are arguments.
\<close>

section \<open>What a node said of itself\<close>

definition nodeGOOS :: "string \<Rightarrow> broker \<Rightarrow> string" where
  "nodeGOOS node b = (case gm_load (br_versions b) node of None \<Rightarrow> [] | Some v \<Rightarrow> nv_GOOS v)"

definition nodeCapability :: "string \<Rightarrow> string \<Rightarrow> broker \<Rightarrow> bool" where
  "nodeCapability node name b = (case gm_load (br_versions b) node of None \<Rightarrow> False
     | Some v \<Rightarrow> gm_load (nv_Capabilities v) name = Some True)"

definition supportsDesktop :: "string \<Rightarrow> broker \<Rightarrow> bool" where
  "supportsDesktop node b = (case gm_load (br_versions b) node of None \<Rightarrow> False
     | Some v \<Rightarrow> nv_GOOS v = ''windows'' \<and> gm_load (nv_Capabilities v) ''desktop'' = Some True)"

section \<open>The hints\<close>

definition hintWindowsShell :: string where
  "hintWindowsShell = ''This is a Windows node: remote_run uses Windows PowerShell 5.1 (no profile), not Bash. '' @
     ''Use ';' or 'if ($?) { ... }' instead of &&, Select-String instead of grep, Select-Object -First/-Last instead of head/tail, '' @
     ''$null instead of /dev/null, $env:NAME = 'value' instead of export, and Get-ChildItem -Force instead of ls -la.''"

definition hintLinuxShell :: string where
  "hintLinuxShell = ''This is a Linux node: remote_run uses Bash, so PowerShell cmdlets are not available.''"

definition hintSession0 :: string where
  "hintSession0 = ''remote_run runs as SYSTEM in session 0, so programs it starts are invisible to the signed-in user and GUI programs may exit at once. '' @
     ''Use desktop_launch to start programs on the user's desktop, as that user.''"

definition hintWindowsACL :: string where
  "hintWindowsACL = ''Windows files have ACLs, not POSIX owner/group/mode, so nothing was written. Write without them, then set access with remote_run, '' @
     ''e.g. icacls 'C:'' @ [CHR 0x5C] @ ''path'' @ [CHR 0x5C] @ ''file' /setowner 'HOST'' @ [CHR 0x5C] @ ''user' or Get-Acl/Set-Acl.''"

record hint_patterns =
  hp_Bashisms :: "string \<Rightarrow> bool"
  hp_PowerShellisms :: "string \<Rightarrow> bool"
  hp_GUILaunch :: "string \<Rightarrow> bool"

definition run_failed :: "golib \<Rightarrow> string \<Rightarrow> bool" where
  "run_failed lib rcon = (case gl_unmarshal lib rcon of
       Some (JObj ob) \<Rightarrow> (case ptr_field opt_int ''rc'' ob None of Some (Some rc) \<Rightarrow> rc \<noteq> 0 | _ \<Rightarrow> False)
     | _ \<Rightarrow> False)"

definition runHint :: "golib \<Rightarrow> hint_patterns \<Rightarrow> string \<Rightarrow> string \<Rightarrow> string \<Rightarrow> bool \<Rightarrow> string" where
  "runHint lib pat goos command rcon desktop =
     (let failed = run_failed lib rcon in
      if goos = ''windows'' then
        (if failed \<and> hp_Bashisms pat command then hintWindowsShell
         else if desktop \<and> hp_GUILaunch pat command then hintSession0 else [])
      else if goos = ''linux'' then
        (if failed \<and> hp_PowerShellisms pat command then hintLinuxShell else [])
      else [])"

end
