(* ===== verification/Caller.thy ===== *)
theory Caller
  imports GoQuote RunResult Hints
begin

text \<open>
  \<open>caller.go\<close>: the handlers of the web service the agents call. A handler is a function of the request
  and of the world: the broker, the trace of calls to the tower and to the nodes, the audit buffer, the
  capture store and the random identifiers still to be drawn. A handler runs as one step.
\<close>

section \<open>Requests, answers and the world\<close>

text \<open>\<open>rq_gone\<close> says whether the client has disconnected after the calls made so far.\<close>

record request =
  rq_auth :: string
  rq_body :: string
  rq_query :: "string \<Rightarrow> string"
  rq_gone :: "io list \<Rightarrow> bool"

text \<open>A member of an answer is a JSON value, or a text that ends in the text of an error.\<close>

datatype rval = RJ json | RErr string goerror

text \<open>The body of an answer is an object, or \<open>None\<close> for a nil map, which is written as \<open>null\<close>.\<close>

record response =
  rs_code :: int
  rs_body :: "(string \<times> rval) list option"

definition answer :: "int \<Rightarrow> (string \<times> rval) list \<Rightarrow> response" where
  "answer code members = \<lparr>rs_code = code, rs_body = Some members\<rparr>"

record cworld = world +
  cw_calls :: "callEvent CallLog option"
  cw_caps :: CaptureStore
  cw_draws :: "string option list"
  cw_ids :: nat

text \<open>
  What does not change while the service runs. \<open>sv_decode\<close> is the JSON value at the start of a body,
  if there is one; \<open>sv_rand n\<close> the \<open>n\<close>th sixteen random bytes that \<open>newID\<close> reads; \<open>sv_print\<close> the runes
  that \<open>strconv\<close> prints.
\<close>

record server =
  sv_lib :: golib
  sv_env :: env
  sv_validate :: "string \<Rightarrow> principal res"
  sv_decode :: "string \<Rightarrow> json option"
  sv_casing :: casing
  sv_rand :: "nat \<Rightarrow> string"
  sv_print :: "nat \<Rightarrow> bool"
  sv_hints :: hint_patterns

definition reply_error :: "int \<Rightarrow> string \<Rightarrow> response" where
  "reply_error code msg = answer code [(''error'', RJ (JStr msg))]"

definition reply_err :: "int \<Rightarrow> string \<Rightarrow> goerror \<Rightarrow> response" where
  "reply_err code prefix e = answer code [(''error'', RErr prefix e)]"

definition reply_denied :: "string \<Rightarrow> response" where
  "reply_denied reason = answer 403 [(''error'', RJ (JStr ''not authorized'')), (''reason'', RJ (JStr reason))]"

section \<open>Audit\<close>

definition now_of :: "server \<Rightarrow> 'a cworld_scheme \<Rightarrow> int" where
  "now_of sv w = e_now (sv_env sv) (w_io w)"

definition newID :: "server \<Rightarrow> 'a cworld_scheme \<Rightarrow> string \<times> 'a cworld_scheme" where
  "newID sv w = (hex_encode (sv_rand sv (cw_ids w)), w\<lparr>cw_ids := cw_ids w + 1\<rparr>)"

definition record_ev :: "callEvent \<Rightarrow> 'a cworld_scheme \<Rightarrow> 'a cworld_scheme" where
  "record_ev e w = w\<lparr>cw_calls := map_option (cl_Add e) (cw_calls w)\<rparr>"

definition start_of :: "callEvent \<Rightarrow> callEvent" where
  "start_of e = zero_event\<lparr>ev_Phase := ''start'', ev_RequestID := ev_RequestID e, ev_TS := ev_TS e,
     ev_UPN := ev_UPN e, ev_OID := ev_OID e, ev_TID := ev_TID e, ev_App := ev_App e,
     ev_AppName := ev_AppName e, ev_Verb := ev_Verb e, ev_Node := ev_Node e, ev_SVID := ev_SVID e,
     ev_Detail := ev_Detail e\<rparr>"

definition recordStart :: "callEvent \<Rightarrow> 'a cworld_scheme \<Rightarrow> 'a cworld_scheme" where
  "recordStart e w = record_ev (start_of e) w"

definition call_event :: "server \<Rightarrow> principal \<Rightarrow> string \<Rightarrow> 'a cworld_scheme \<Rightarrow>
    callEvent \<times> 'a cworld_scheme" where
  "call_event sv p verb w = (let (i, w') = newID sv w in
     (zero_event\<lparr>ev_TS := gl_rfc3339 (sv_lib sv) (now_of sv w), ev_RequestID := i, ev_UPN := pr_UPN p,
        ev_OID := pr_OID p, ev_TID := pr_TID p, ev_App := pr_AppID p, ev_AppName := pr_AppName p,
        ev_Verb := verb\<rparr>, w'))"

section \<open>The perimeter\<close>

definition host_json :: "HostInfo \<Rightarrow> json" where
  "host_json h = JObj (omitempty ''goos'' (hi_GOOS h = []) (JStr (hi_GOOS h)) @
     omitempty ''goarch'' (hi_GOARCH h = []) (JStr (hi_GOARCH h)) @
     omitempty ''shell'' (hi_Shell h = []) (JStr (hi_Shell h)) @
     omitempty ''os_version'' (hi_OSVersion h = []) (JStr (hi_OSVersion h)) @
     [(''name'', JStr (hi_Name h)), (''description'', JStr (hi_Description h)),
      (''svid'', JStr (hi_SVID h)), (''node_id'', JStr (hi_NodeID h)), (''online'', JBool (hi_Online h))])"

text \<open>The dash of the message is the three bytes of U+2014.\<close>

definition reply_candidates :: "string \<Rightarrow> HostInfo list \<Rightarrow> response" where
  "reply_candidates node cand = (answer 409 [(''error'', RErr [] (Errorf (''%q matches %d nodes '' @ [CHR 0xE2, CHR 0x80, CHR 0x94] @
          '' re-issue with an exact node_id from candidates'') [ArgS node, ArgN (int (length cand))])),
      (''candidates'', RJ (JArr (map host_json cand)))])"

text \<open>
  What \<open>verbHandler\<close> and \<open>fileVerbHandler\<close> do alike between the parsed body and the injection: ask
  the tower, resolve the node, and stop with an answer or go on with the one node.
\<close>

definition perimeter :: "server \<Rightarrow> principal \<Rightarrow> string \<Rightarrow> string \<Rightarrow> callEvent \<Rightarrow> 'a cworld_scheme \<Rightarrow>
    (response + string) \<times> callEvent \<times> 'a cworld_scheme" where
  "perimeter sv p verb node ev w =
     (let (reply, w) = tower (sv_env sv) ''/control/v1/authorize'' (authorize_body p verb) w in
      case authorize (sv_lib sv) reply of
        Inl e \<Rightarrow> (Inl (reply_err 502 ''authz unavailable: '' e),
          ev\<lparr>ev_Status := ''error:authz-unavailable''\<rparr>, w)
      | Inr (allowed, reason) \<Rightarrow>
        (let ev = ev\<lparr>ev_Allowed := allowed, ev_Reason := reason\<rparr>;
             (svid, candidates) = resolveTarget (sv_casing sv) node (w_broker w);
             ev = ev\<lparr>ev_SVID := svid\<rparr>
         in if \<not> allowed then (Inl (reply_denied reason), ev\<lparr>ev_Status := ''denied''\<rparr>, w)
            else if svid = [] then
              (if candidates \<noteq> []
               then (Inl (reply_candidates node candidates), ev\<lparr>ev_Status := ''ambiguous''\<rparr>, w)
               else (Inl (reply_error 404 (''no live tunnel for node '' @ node)),
                 ev\<lparr>ev_Status := ''no-tunnel''\<rparr>, w))
            else (Inr svid, ev, w)))"

section \<open>Commands and jobs\<close>

record run_request =
  rr_Node :: string
  rr_Cmd :: string
  rr_Capture :: bool

definition run_field :: "string \<Rightarrow> json \<Rightarrow> run_request \<Rightarrow> run_request option" where
  "run_field k j v =
     (if k = ''node'' then set_string (\<lambda>s. rr_Node_update (\<lambda>_. s)) j v
      else if k = ''cmd'' then set_string (\<lambda>s. rr_Cmd_update (\<lambda>_. s)) j v
      else if k = ''capture'' then set_bool (\<lambda>b. rr_Capture_update (\<lambda>_. b)) j v
      else Some v)"

definition zero_run :: run_request where
  "zero_run = \<lparr>rr_Node = [], rr_Cmd = [], rr_Capture = False\<rparr>"

text \<open>The body sent to the node, which the source builds with \<open>%q\<close>.\<close>

definition run_payload :: "(nat \<Rightarrow> bool) \<Rightarrow> string \<Rightarrow> string \<Rightarrow> string" where
  "run_payload prt cmd rid = ''{'' @ [dquote] @ ''cmd'' @ [dquote] @ '':'' @ Quote prt cmd @
     '','' @ [dquote] @ ''rid'' @ [dquote] @ '':'' @ Quote prt rid @ ''}''"

definition run_answer :: "server \<Rightarrow> principal \<Rightarrow> string \<Rightarrow> string \<Rightarrow> callEvent \<Rightarrow> injectResult \<Rightarrow>
    run_request \<Rightarrow> string \<Rightarrow> broker \<Rightarrow> response" where
  "run_answer sv p path svid ev got body clientResult b =
     (answer 200 ([(''principal'', RJ (JStr (pr_UPN p))), (''node'', RJ (JStr svid)),
         (''request_id'', RJ (JStr (ev_RequestID ev))), (''result'', RJ (JStr clientResult)),
         (''dur_ms'', RJ (JInt (ev_DurMs ev)))] @
        (if path \<noteq> ''/run'' then []
         else let hint = runHint (sv_lib sv) (sv_hints sv) (nodeGOOS svid b) (rr_Cmd body) (ir_Body got)
                    (supportsDesktop svid b)
           in if hint \<noteq> [] then [(''hint'', RJ (JStr hint))] else [])))"

text \<open>Behind the perimeter: the call runs on the node \<open>svid\<close>.\<close>

definition run_call :: "server \<Rightarrow> principal \<Rightarrow> string \<Rightarrow> string \<Rightarrow> request \<Rightarrow> run_request \<Rightarrow> string \<Rightarrow>
    callEvent \<Rightarrow> 'a cworld_scheme \<Rightarrow> (response \<times> callEvent \<times> 'a cworld_scheme) option" where
  "run_call sv p verb path r body svid ev w =
     (let w = recordStart ev w;
          payload = (if rr_Cmd body \<noteq> []
            then Some (run_payload (sv_print sv) (rr_Cmd body) (ev_RequestID ev)) else None);
          (result, w) = InjectResponse (sv_env sv) svid ''POST'' path payload w
      in case result of
        Inl e \<Rightarrow> Some (reply_err 502 [] e, ev\<lparr>ev_Status := ''error:inject''\<rparr>, w)
      | Inr got \<Rightarrow>
        (let out = ir_Summary got;
             ev = ev_captureResult (gl_unmarshal (sv_lib sv)) out (ev\<lparr>ev_Status := ''ok''\<rparr>)
         in case (if path \<noteq> ''/run'' then Some (Inr out, cw_caps w, cw_draws w)
               else prepareRunResult (sv_lib sv) (now_of sv w) (cw_draws w) p svid verb
                 (ev_RequestID ev) got (rr_Capture body) (cw_caps w)) of
           None \<Rightarrow> None
         | Some (prepared, caps, draws) \<Rightarrow>
           (let w = w\<lparr>cw_caps := caps, cw_draws := draws\<rparr> in
            case prepared of
              Inl e \<Rightarrow> Some (answer 502 [(''error'', RErr ''command completed but its output could not be captured safely: '' e),
                   (''node'', RJ (JStr svid)), (''request_id'', RJ (JStr (ev_RequestID ev)))],
                ev\<lparr>ev_Status := ''error:capture''\<rparr>, w)
            | Inr clientResult \<Rightarrow>
              (let ev = (if rq_gone r (w_io w)
                     then ev\<lparr>ev_Reason := ''caller disconnected before response''\<rparr> else ev)
               in Some (run_answer sv p path svid ev got body clientResult (w_broker w), ev, w)))))"

definition verb_body :: "server \<Rightarrow> principal \<Rightarrow> string \<Rightarrow> string \<Rightarrow> request \<Rightarrow> callEvent \<Rightarrow>
    'a cworld_scheme \<Rightarrow> (response \<times> callEvent \<times> 'a cworld_scheme) option" where
  "verb_body sv p verb path r ev w =
     (let (body, ok) = decode_into run_field zero_run (sv_decode sv (rq_body r)) in
      if \<not> ok then Some (reply_error 400 ''body must match the run request schema'',
        ev\<lparr>ev_Status := ''bad-request''\<rparr>, w)
      else
        let ev = ev\<lparr>ev_Node := rr_Node body, ev_Detail := clip (rr_Cmd body) detailMax\<rparr> in
        if rr_Node body = [] then Some (reply_error 400 ''node required'',
          ev\<lparr>ev_Status := ''bad-request''\<rparr>, w)
        else case perimeter sv p verb (rr_Node body) ev w of
          (Inl resp, ev, w) \<Rightarrow> Some (resp, ev, w)
        | (Inr svid, ev, w) \<Rightarrow> run_call sv p verb path r body svid ev w)"

text \<open>The deferred call records the event as it is when the handler returns.\<close>

definition verbHandler :: "server \<Rightarrow> string \<Rightarrow> string \<Rightarrow> request \<Rightarrow> 'a cworld_scheme \<Rightarrow>
    (response \<times> 'a cworld_scheme) option" where
  "verbHandler sv verb path r w =
     (case auth (sv_validate sv) (rq_auth r) of
        Inl e \<Rightarrow> Some (reply_err 401 [] e, w)
      | Inr p \<Rightarrow> (let (ev, w) = call_event sv p verb w in
          case verb_body sv p verb path r ev w of None \<Rightarrow> None
          | Some (resp, ev, w) \<Rightarrow> Some (resp, record_ev ev w)))"

section \<open>Files\<close>

definition writeMetadataRequested :: "jobj \<Rightarrow> bool" where
  "writeMetadataRequested body = list_ex (\<lambda>key.
     (case jget key body of None \<Rightarrow> False | Some JNull \<Rightarrow> False
      | Some (JStr s) \<Rightarrow> TrimSpace s \<noteq> [] | Some _ \<Rightarrow> True)) [''owner'', ''group'', ''mode'']"

definition metadataEndpointUnsupported :: "string \<Rightarrow> bool" where
  "metadataEndpointUnsupported out = HasPrefix out ''HTTP 404 ''"

definition file_call :: "server \<Rightarrow> principal \<Rightarrow> string \<Rightarrow> request \<Rightarrow> jobj \<Rightarrow> string \<Rightarrow> callEvent \<Rightarrow>
    'a cworld_scheme \<Rightarrow> response \<times> callEvent \<times> 'a cworld_scheme" where
  "file_call sv p path r body svid ev w =
     (let metadataWrite = (path = ''/write'' \<and> writeMetadataRequested body) in
      if metadataWrite \<and> nodeGOOS svid (w_broker w) = ''windows'' then
        (answer 422 [(''error'', RJ (JStr ''owner/group/mode are POSIX metadata, which Windows nodes do not have'')),
            (''hint'', RJ (JStr hintWindowsACL))], ev\<lparr>ev_Status := ''bad-request''\<rparr>, w)
      else
        let targetPath = (if metadataWrite then ''/write-metadata'' else path);
            w = recordStart ev w;
            body = jput ''rid'' (JStr (ev_RequestID ev)) (jdel ''node'' body);
            raw = (case gl_marshal (sv_lib sv) (JObj body) of None \<Rightarrow> [] | Some s \<Rightarrow> s);
            (result, w) = Inject (sv_env sv) svid ''POST'' targetPath (Some raw) w
        in case result of
             Inl e \<Rightarrow> (reply_err 502 [] e, ev\<lparr>ev_Status := ''error:inject''\<rparr>, w)
           | Inr out \<Rightarrow>
             (if metadataWrite \<and> metadataEndpointUnsupported out then
                (answer 409 [(''error'', RJ (JStr ''target RCON does not support remote_write owner/group/mode; update the node first'')),
                    (''node'', RJ (JStr svid))],
                 ev_captureResult (gl_unmarshal (sv_lib sv)) out (ev\<lparr>ev_Status := ''unsupported''\<rparr>), w)
              else
                let ev = ev_captureResult (gl_unmarshal (sv_lib sv)) out (ev\<lparr>ev_Status := ''ok''\<rparr>);
                    ev = (if rq_gone r (w_io w)
                      then ev\<lparr>ev_Reason := ''caller disconnected before response''\<rparr> else ev)
                in (answer 200 [(''principal'', RJ (JStr (pr_UPN p))), (''node'', RJ (JStr svid)),
                       (''result'', RJ (JStr out)), (''dur_ms'', RJ (JInt (ev_DurMs ev)))], ev, w)))"

definition file_body :: "server \<Rightarrow> principal \<Rightarrow> string \<Rightarrow> string \<Rightarrow> request \<Rightarrow> callEvent \<Rightarrow>
    'a cworld_scheme \<Rightarrow> response \<times> callEvent \<times> 'a cworld_scheme" where
  "file_body sv p verb path r ev w =
     (case sv_decode sv (rq_body r) of
        Some (JObj ob) \<Rightarrow>
          (let body = jmap ob;
               node = asString (jget ''node'' body);
               ev = ev\<lparr>ev_Node := node\<rparr>;
               ev = (case jget ''path'' body of Some (JStr s) \<Rightarrow> ev\<lparr>ev_Detail := clip s detailMax\<rparr> | _ \<Rightarrow> ev)
           in if node = [] then (reply_error 400 ''node required'', ev\<lparr>ev_Status := ''bad-request''\<rparr>, w)
              else case perimeter sv p verb node ev w of
                (Inl resp, ev, w) \<Rightarrow> (resp, ev, w)
              | (Inr svid, ev, w) \<Rightarrow> file_call sv p path r body svid ev w)
      | _ \<Rightarrow> (reply_error 400 ''body must be a JSON object'', ev\<lparr>ev_Status := ''bad-request''\<rparr>, w))"

definition fileVerbHandler :: "server \<Rightarrow> string \<Rightarrow> string \<Rightarrow> request \<Rightarrow> 'a cworld_scheme \<Rightarrow>
    response \<times> 'a cworld_scheme" where
  "fileVerbHandler sv verb path r w =
     (case auth (sv_validate sv) (rq_auth r) of
        Inl e \<Rightarrow> (reply_err 401 [] e, w)
      | Inr p \<Rightarrow> (let (ev, w) = call_event sv p verb w;
                     (resp, ev, w) = file_body sv p verb path r ev w
          in (resp, record_ev ev w)))"

section \<open>Reading a captured output\<close>

definition output_field :: "string \<Rightarrow> json \<Rightarrow> outputReadRequest \<Rightarrow> outputReadRequest option" where
  "output_field k j v =
     (if k = ''capture_id'' then set_string (\<lambda>s. or_CaptureID_update (\<lambda>_. s)) j v
      else if k = ''stream'' then set_string (\<lambda>s. or_Stream_update (\<lambda>_. s)) j v
      else if k = ''mode'' then set_string (\<lambda>s. or_Mode_update (\<lambda>_. s)) j v
      else if k = ''offset'' then set_int (\<lambda>n. or_Offset_update (\<lambda>_. n)) j v
      else if k = ''limit'' then set_int (\<lambda>n. or_Limit_update (\<lambda>_. n)) j v
      else if k = ''pattern'' then set_string (\<lambda>s. or_Pattern_update (\<lambda>_. s)) j v
      else if k = ''start_line'' then set_int (\<lambda>n. or_StartLine_update (\<lambda>_. n)) j v
      else if k = ''context'' then set_int (\<lambda>n. or_Context_update (\<lambda>_. n)) j v
      else if k = ''max_matches'' then set_int (\<lambda>n. or_MaxMatches_update (\<lambda>_. n)) j v
      else Some v)"

definition zero_output_request :: outputReadRequest where
  "zero_output_request = \<lparr>or_CaptureID = [], or_Stream = [], or_Mode = [], or_Offset = 0,
     or_Limit = 0, or_Pattern = [], or_StartLine = 0, or_Context = 0, or_MaxMatches = 0\<rparr>"

definition output_body :: "server \<Rightarrow> principal \<Rightarrow> request \<Rightarrow> callEvent \<Rightarrow> 'a cworld_scheme \<Rightarrow>
    response \<times> callEvent \<times> 'a cworld_scheme" where
  "output_body sv p r ev w =
     (let (rq, ok) = decode_into output_field zero_output_request (sv_decode sv (rq_body r)) in
      if \<not> ok then (reply_error 400 ''body must be a JSON object'', ev\<lparr>ev_Status := ''bad-request''\<rparr>, w)
      else if or_CaptureID rq = [] then
        (reply_error 400 ''capture_id required'', ev\<lparr>ev_Status := ''bad-request''\<rparr>, w)
      else case captureOwnerFor p of
        None \<Rightarrow> (reply_error 403 ''stable tenant, principal, and agent identity required'',
          ev\<lparr>ev_Status := ''denied''\<rparr>, w)
      | Some owner \<Rightarrow>
        (let (found, caps) = cs_Get (now_of sv w) (or_CaptureID rq) owner (cw_caps w);
             w = w\<lparr>cw_caps := caps\<rparr>
         in case found of
              None \<Rightarrow> (reply_error 404 ''capture not found or expired'', ev\<lparr>ev_Status := ''not-found''\<rparr>, w)
            | Some cap \<Rightarrow>
              (let ev = ev\<lparr>ev_Node := cp_Node cap, ev_SVID := cp_Node cap,
                     ev_Detail := clip (''stream='' @ or_Stream rq @ '' mode='' @ or_Mode rq) detailMax\<rparr>;
                   (reply, w) = tower (sv_env sv) ''/control/v1/authorize'' (authorize_body p (cp_Verb cap)) w
               in case authorize (sv_lib sv) reply of
                    Inl e \<Rightarrow> (reply_err 502 ''authz unavailable: '' e,
                      ev\<lparr>ev_Status := ''error:authz-unavailable''\<rparr>, w)
                  | Inr (allowed, reason) \<Rightarrow>
                    (let ev = ev\<lparr>ev_Allowed := allowed, ev_Reason := reason\<rparr> in
                     if \<not> allowed then (reply_denied reason, ev\<lparr>ev_Status := ''denied''\<rparr>, w)
                     else case readCapturedOutput (sv_lib sv) cap rq of
                       Inl e \<Rightarrow> (reply_err 400 [] e, ev\<lparr>ev_Status := ''bad-request''\<rparr>, w)
                     | Inr output \<Rightarrow>
                       (answer 200 [(''principal'', RJ (JStr (pr_UPN p))), (''node'', RJ (JStr (cp_Node cap))),
                           (''source_request_id'', RJ (JStr (cp_RequestID cap))),
                           (''output'', RJ (JObj output))], ev\<lparr>ev_Status := ''ok''\<rparr>, w)))))"

definition outputReadHandler :: "server \<Rightarrow> request \<Rightarrow> 'a cworld_scheme \<Rightarrow> response \<times> 'a cworld_scheme" where
  "outputReadHandler sv r w =
     (case auth (sv_validate sv) (rq_auth r) of
        Inl e \<Rightarrow> (reply_err 401 [] e, w)
      | Inr p \<Rightarrow> (let (ev, w) = call_event sv p ''output_read'' w;
                     (resp, ev, w) = output_body sv p r ev w
          in (resp, record_ev ev w)))"

section \<open>Knowledge\<close>

record knowledge_request =
  kr_Node :: string
  kr_Query :: string
  kr_Content :: string

definition knowledge_field :: "string \<Rightarrow> json \<Rightarrow> knowledge_request \<Rightarrow> knowledge_request option" where
  "knowledge_field k j v =
     (if k = ''node'' then set_string (\<lambda>s. kr_Node_update (\<lambda>_. s)) j v
      else if k = ''query'' then set_string (\<lambda>s. kr_Query_update (\<lambda>_. s)) j v
      else if k = ''content'' then set_string (\<lambda>s. kr_Content_update (\<lambda>_. s)) j v
      else Some v)"

definition json_fields :: "jobj \<Rightarrow> (string \<times> rval) list" where
  "json_fields ob = map (\<lambda>(k, j). (k, RJ j)) ob"

text \<open>
  What the tower's error becomes: the answer, the status of the event, and its reason.
\<close>

definition knowledge_error :: "jobj option \<Rightarrow> goerror \<Rightarrow> callEvent \<Rightarrow> response \<times> callEvent" where
  "knowledge_error out e ev =
     (case out of
        None \<Rightarrow> (reply_err 502 [] e, ev\<lparr>ev_Status := ''error:control''\<rparr>)
      | Some ob \<Rightarrow>
        (if jget ''reason'' ob \<noteq> None then
           (answer 403 (json_fields ob),
            ev\<lparr>ev_Status := ''denied'', ev_Reason := asString (jget ''reason'' ob)\<rparr>)
         else if jget ''error'' ob \<noteq> None then
           (answer 400 (json_fields ob), ev\<lparr>ev_Status := ''bad-request''\<rparr>)
         else (answer 502 (json_fields ob), ev\<lparr>ev_Status := ''error:control''\<rparr>)))"

definition knowledge_body :: "server \<Rightarrow> principal \<Rightarrow> bool \<Rightarrow> string \<Rightarrow> request \<Rightarrow> callEvent \<Rightarrow>
    'a cworld_scheme \<Rightarrow> response \<times> callEvent \<times> 'a cworld_scheme" where
  "knowledge_body sv p write verb r ev w =
     (let body = fst (decode_into knowledge_field \<lparr>kr_Node = [], kr_Query = [], kr_Content = []\<rparr>
            (sv_decode sv (rq_body r)));
          ev = ev\<lparr>ev_Node := kr_Node body,
            ev_Detail := clip (if write then kr_Content body else kr_Query body) detailMax\<rparr>
      in if kr_Node body = [] then
           (reply_error 400 ''node required'', ev\<lparr>ev_Status := ''bad-request''\<rparr>, w)
         else if write \<and> TrimSpace (kr_Content body) = [] then
           (reply_error 400 ''content required for append'', ev\<lparr>ev_Status := ''bad-request''\<rparr>, w)
         else
           let (reply, w) = tower (sv_env sv) ''/control/v1/authorize'' (authorize_body p verb) w in
           case authorize (sv_lib sv) reply of
             Inl e \<Rightarrow> (reply_err 502 ''authz unavailable: '' e, ev\<lparr>ev_Status := ''error:control''\<rparr>, w)
           | Inr (allowed, reason) \<Rightarrow>
             (if \<not> allowed then
                (reply_denied reason, ev\<lparr>ev_Status := ''denied'', ev_Reason := reason\<rparr>, w)
              else
                let (svid, candidates) = resolveKnown (sv_casing sv) (kr_Node body) (w_broker w);
                    ev = ev\<lparr>ev_SVID := svid\<rparr>
                in if svid = [] then
                     (if candidates \<noteq> [] then
                        (reply_candidates (kr_Node body) candidates, ev\<lparr>ev_Status := ''ambiguous''\<rparr>, w)
                      else (reply_error 404 (''no such node '' @ kr_Node body),
                        ev\<lparr>ev_Status := ''no-tunnel''\<rparr>, w))
                   else
                     let (reply, w) = (if write
                           then tower (sv_env sv) ''/control/v1/knowledge/append''
                             (knowledge_append_body p svid (kr_Content body)) w
                           else tower (sv_env sv) ''/control/v1/knowledge/search''
                             (knowledge_search_body p svid (kr_Query body)) w)
                     in case (if write then knowledgeAppend (sv_lib sv) reply
                              else knowledgeSearch (sv_lib sv) reply) of
                          (out, Some e) \<Rightarrow> (let (resp, ev) = knowledge_error out e ev in (resp, ev, w))
                        | (out, None) \<Rightarrow>
                          (\<lparr>rs_code = 200, rs_body = map_option json_fields out\<rparr>,
                           ev\<lparr>ev_Allowed := True, ev_Status := ''ok''\<rparr>, w)))"

definition knowledgeHandler :: "server \<Rightarrow> bool \<Rightarrow> request \<Rightarrow> 'a cworld_scheme \<Rightarrow>
    response \<times> 'a cworld_scheme" where
  "knowledgeHandler sv write r w =
     (case auth (sv_validate sv) (rq_auth r) of
        Inl e \<Rightarrow> (reply_err 401 [] e, w)
      | Inr p \<Rightarrow>
        (let verb = (if write then ''knowledge_write'' else ''knowledge_read'');
             ev = zero_event\<lparr>ev_TS := gl_rfc3339 (sv_lib sv) (now_of sv w), ev_UPN := pr_UPN p,
               ev_OID := pr_OID p, ev_TID := pr_TID p, ev_Verb := verb\<rparr>;
             (resp, ev, w) = knowledge_body sv p write verb r ev w
         in (resp, record_ev ev w)))"

section \<open>Discovery\<close>

definition whoamiHandler :: "server \<Rightarrow> request \<Rightarrow> 'a cworld_scheme \<Rightarrow> response \<times> 'a cworld_scheme" where
  "whoamiHandler sv r w =
     (case auth (sv_validate sv) (rq_auth r) of
        Inl e \<Rightarrow> (reply_err 401 [] e, w)
      | Inr p \<Rightarrow>
        (let principal = (''principal'', RJ (JObj [(''upn'', JStr (pr_UPN p)), (''oid'', JStr (pr_OID p)),
               (''tenant_id'', JStr (pr_TID p)), (''scopes'', JArr (map JStr (pr_Scopes p))),
               (''groups'', groups_json (pr_Groups p))]));
             (reply, w) = tower (sv_env sv) ''/control/v1/whoami'' (principalBody p) w
         in case whoami (sv_lib sv) reply of
              (_, Some e) \<Rightarrow> (answer 200 [principal, (''authorization_error'', RErr [] e)], w)
            | (az, None) \<Rightarrow> (answer 200 [principal, (''authorization'',
                RJ (case az of None \<Rightarrow> JNull | Some ob \<Rightarrow> JObj ob))], w)))"

definition page_limit :: "string \<Rightarrow> int" where
  "page_limit v = (if v = [] then 50
     else case Atoi v of Some n \<Rightarrow> (if 0 < n then n else 50) | None \<Rightarrow> 50)"

definition host_matches :: "casing \<Rightarrow> string \<Rightarrow> HostInfo \<Rightarrow> bool" where
  "host_matches cas q h \<longleftrightarrow> q = [] \<or> sub_hit cas q h"

definition hostsHandler :: "server \<Rightarrow> request \<Rightarrow> 'a cworld_scheme \<Rightarrow> response \<times> 'a cworld_scheme" where
  "hostsHandler sv r w =
     (case auth (sv_validate sv) (rq_auth r) of
        Inl e \<Rightarrow> (reply_err 401 [] e, w)
      | Inr p \<Rightarrow>
        (let (reply, w) = tower (sv_env sv) ''/control/v1/authorize'' (authorize_body p ''list'') w in
         case authorize (sv_lib sv) reply of
           Inl e \<Rightarrow> (reply_err 502 ''authz unavailable: '' e, w)
         | Inr (allowed, reason) \<Rightarrow>
           (if \<not> allowed then (reply_denied reason, w)
            else
              let q = to_lower (sv_casing sv) (TrimSpace (rq_query r ''filter''));
                  limit = page_limit (rq_query r ''limit'');
                  all = LiveHosts (w_broker w);
                  matched = filter (host_matches (sv_casing sv) q) all;
                  total = length matched;
                  truncated = (limit < int (length matched));
                  matched = (if truncated then take (nat limit) matched else matched)
              in (answer 200 [(''principal'', RJ (JStr (pr_UPN p))), (''filter'', RJ (JStr q)),
                     (''count'', RJ (JInt (int (length matched)))),
                     (''total_matched'', RJ (JInt (int total))),
                     (''total_online'', RJ (JInt (int (length all)))),
                     (''truncated'', RJ (JBool truncated)),
                     (''hosts'', RJ (JArr (map host_json matched)))], w))))"

definition notImplemented :: "server \<Rightarrow> request \<Rightarrow> response" where
  "notImplemented sv r = (case auth (sv_validate sv) (rq_auth r) of
     Inl e \<Rightarrow> reply_err 401 [] e
   | Inr _ \<Rightarrow> reply_error 501 ''verb not yet implemented on the Go RCON'')"

end
