(* ===== verification/CallerProps.thy ===== *)
theory CallerProps
  imports Caller
begin

text \<open>
  What every handler of \<open>caller.go\<close> guarantees: nothing reaches a node without the grant of the tower
  for this principal and verb, what is shown of the inventory comes after the grant, and every call
  leaves its records in the audit buffer.
\<close>

section \<open>Frames\<close>

definition asked :: "principal \<Rightarrow> string \<Rightarrow> io" where
  "asked p verb = TowerCall ''/control/v1/authorize'' (authorize_body p verb)"

text \<open>The tower's answer, if it is asked after the calls \<open>io\<close>, lets the principal use the verb.\<close>

definition granted :: "server \<Rightarrow> principal \<Rightarrow> string \<Rightarrow> io list \<Rightarrow> bool" where
  "granted sv p verb io \<longleftrightarrow> (case authorize (sv_lib sv)
       (e_tower (sv_env sv) io ''/control/v1/authorize'' (authorize_body p verb)) of
     Inr (True, _) \<Rightarrow> True | _ \<Rightarrow> False)"

fun is_node_call :: "io \<Rightarrow> bool" where
  "is_node_call (TowerCall m body) = False"
| "is_node_call (NodeCall svid cc m path body) = True"
| "is_node_call (ModelCall body) = False"

definition add_events :: "callEvent list \<Rightarrow> callEvent CallLog \<Rightarrow> callEvent CallLog" where
  "add_events evs c = foldl (\<lambda>c e. cl_Add e c) c evs"

lemma add_one: "map_option (cl_Add e) x = map_option (add_events [e]) x"
  by (cases x) (simp_all add: add_events_def)

lemma add_two: "map_option (cl_Add e) (map_option (cl_Add s) x) = map_option (add_events [s, e]) x"
  by (cases x) (simp_all add: add_events_def)

lemma record_ev_simps [simp]:
  "w_io (record_ev e w) = w_io w" "w_broker (record_ev e w) = w_broker w"
  "cw_caps (record_ev e w) = cw_caps w" "cw_draws (record_ev e w) = cw_draws w"
  "cw_ids (record_ev e w) = cw_ids w"
  "cw_calls (record_ev e w) = map_option (cl_Add e) (cw_calls w)"
  by (simp_all add: record_ev_def)

lemma start_of_captureResult [simp]:
  "start_of (ev_captureResult um out e) = start_of e"
  by (simp add: start_of_def ev_captureResult_def Let_def split: prod.splits option.splits)

lemma start_of_outcome [simp]:
  "start_of (e\<lparr>ev_Status := s\<rparr>) = start_of e" "start_of (e\<lparr>ev_Reason := s\<rparr>) = start_of e"
  "start_of (e\<lparr>ev_Allowed := b\<rparr>) = start_of e"
  by (simp_all add: start_of_def)

lemma InjectResponse_frame:
  "InjectResponse env svid m path b w = (res, w') \<Longrightarrow>
     cw_calls w' = cw_calls w \<and> cw_caps w' = cw_caps w \<and> cw_draws w' = cw_draws w \<and> cw_ids w' = cw_ids w"
  by (auto simp: InjectResponse_def injectResponseContext_def upd_broker_def Let_def
      split: option.splits http_reply.splits if_splits)

lemma Inject_frame:
  "Inject env svid m path b w = (res, w') \<Longrightarrow>
     cw_calls w' = cw_calls w \<and> cw_caps w' = cw_caps w \<and> cw_draws w' = cw_draws w \<and> cw_ids w' = cw_ids w"
  by (auto simp: Inject_def split: prod.splits sum.splits dest: InjectResponse_frame)

lemma injected_io:
  "injected svid m path b (bio w) (bio w') \<Longrightarrow> gm_load (br_tunnels (w_broker w)) svid = Some cc \<Longrightarrow>
     w_io w' = w_io w @ [NodeCall svid cc m path b] \<and> br_versions (w_broker w') = br_versions (w_broker w)"
  by (auto simp: injected_def)

section \<open>The perimeter\<close>

text \<open>Which call an event is about, which no step of a handler changes.\<close>

definition same_call :: "callEvent \<Rightarrow> callEvent \<Rightarrow> bool" where
  "same_call e e' \<longleftrightarrow> ev_Phase e' = ev_Phase e \<and> ev_RequestID e' = ev_RequestID e \<and> ev_TS e' = ev_TS e \<and>
     ev_UPN e' = ev_UPN e \<and> ev_OID e' = ev_OID e \<and> ev_TID e' = ev_TID e \<and> ev_App e' = ev_App e \<and>
     ev_AppName e' = ev_AppName e \<and> ev_Verb e' = ev_Verb e"

lemma same_call_refl [simp]: "same_call e e"
  by (simp add: same_call_def)

lemma same_call_trans: "same_call a b \<Longrightarrow> same_call b c \<Longrightarrow> same_call a c"
  by (simp add: same_call_def)

lemma same_call_start: "start_of e' = start_of e \<Longrightarrow> ev_Phase e' = ev_Phase e \<Longrightarrow> same_call e e'"
  by (simp add: same_call_def start_of_def zero_event_def)

definition refusal_codes :: "int set" where
  "refusal_codes = {403, 404, 409, 502}"

lemma live_target:
  "resolveTarget cas q b = (svid, cand) \<Longrightarrow> svid \<noteq> [] \<Longrightarrow> \<exists>cc. gm_load (br_tunnels b) svid = Some cc"
  using live.resolved_known [of cas q b svid cand] by (auto simp: resolveTarget_def)

lemma perimeter_stop:
  assumes "perimeter sv p verb node ev w = (Inl resp, ev', w')"
  shows "w' = w\<lparr>w_io := w_io w @ [asked p verb]\<rparr> \<and> rs_code resp \<in> refusal_codes \<and>
    ev_Status ev' \<notin> {[], ''ok''} \<and>
    same_call ev ev' \<and> (\<not> ev_Allowed ev \<longrightarrow> ev_Allowed ev' = granted sv p verb (w_io w)) \<and>
    (rs_code resp = 409 \<or> rs_code resp = 404 \<longrightarrow> granted sv p verb (w_io w))"
  using assms
  by (auto simp: perimeter_def tower_def asked_def refusal_codes_def reply_err_def reply_error_def
      reply_denied_def reply_candidates_def answer_def granted_def same_call_def Let_def
      split: sum.splits prod.splits if_splits)

lemma perimeter_go:
  assumes "perimeter sv p verb node ev w = (Inr svid, ev', w')"
  shows "w' = w\<lparr>w_io := w_io w @ [asked p verb]\<rparr> \<and> granted sv p verb (w_io w) \<and> svid \<noteq> [] \<and>
    resolveTarget (sv_casing sv) node (w_broker w) = (svid, []) \<and>
    (\<exists>re. ev' = ev\<lparr>ev_Allowed := True, ev_Reason := re, ev_SVID := svid\<rparr>)"
proof -
  have "cand = []" if "resolveTarget (sv_casing sv) node (w_broker w) = (svid, cand)" "svid \<noteq> []" for cand
    using that resolveAmong_in by (auto simp: resolveTarget_def)
  then show ?thesis using assms
    by (auto simp: perimeter_def tower_def asked_def granted_def Let_def
        split: sum.splits prod.splits if_splits)
qed

section \<open>Behind the perimeter\<close>

text \<open>
  The records of an answered call: \<open>start\<close> was buffered before the node was called; \<open>final\<close> will be.
\<close>

definition told :: "response \<Rightarrow> callEvent \<Rightarrow> bool" where
  "told resp ev \<longleftrightarrow> ev_Status ev \<noteq> [] \<and> (rs_code resp = 200 \<longleftrightarrow> ev_Status ev = ''ok'')"

definition no_inventory :: "response \<Rightarrow> bool" where
  "no_inventory resp \<longleftrightarrow> (case rs_body resp of None \<Rightarrow> True
     | Some ms \<Rightarrow> ''candidates'' \<notin> fst ` set ms \<and> ''hosts'' \<notin> fst ` set ms)"

lemma rs_code_answer [simp]: "rs_code (answer c ms) = c"
  by (simp add: answer_def)

lemma no_inventory_answer [simp]:
  "no_inventory (answer c ms) \<longleftrightarrow> ''candidates'' \<notin> fst ` set ms \<and> ''hosts'' \<notin> fst ` set ms"
  by (simp add: no_inventory_def answer_def)

lemma run_answer_told: "rs_code (run_answer sv p path svid ev got body cr b) = 200"
  "no_inventory (run_answer sv p path svid ev got body cr b)"
  by (auto simp: run_answer_def answer_def no_inventory_def Let_def)

lemma run_call_effect:
  assumes "gm_load (br_tunnels (w_broker w)) svid = Some cc"
    and "run_call sv p verb path r body svid ev w = Some (resp, ev', w')"
  shows "(\<exists>pay. w_io w' = w_io w @ [NodeCall svid cc ''POST'' path pay]) \<and>
    cw_calls w' = map_option (cl_Add (start_of ev)) (cw_calls w) \<and> start_of ev' = start_of ev \<and>
    ev_Phase ev' = ev_Phase ev \<and> ev_Allowed ev' = ev_Allowed ev \<and> told resp ev' \<and> no_inventory resp"
proof -
  define w1 where "w1 = recordStart ev w"
  define pay where "pay = (if rr_Cmd body \<noteq> []
    then Some (run_payload (sv_print sv) (rr_Cmd body) (ev_RequestID ev)) else None)"
  obtain result w2 where i: "InjectResponse (sv_env sv) svid ''POST'' path pay w1 = (result, w2)" by fastforce
  have b: "w_broker w1 = w_broker w" "w_io w1 = w_io w"
    "cw_calls w1 = map_option (cl_Add (start_of ev)) (cw_calls w)"
    by (simp_all add: w1_def recordStart_def)
  have io: "w_io w2 = w_io w @ [NodeCall svid cc ''POST'' path pay]"
    using injected_io [OF InjectResponse_injected [OF i]] assms(1) by (simp add: b)
  have c: "cw_calls w2 = map_option (cl_Add (start_of ev)) (cw_calls w)"
    using InjectResponse_frame [OF i] by (simp add: b)
  have e: "w_io w' = w_io w2 \<and> cw_calls w' = cw_calls w2 \<and> start_of ev' = start_of ev \<and>
      ev_Phase ev' = ev_Phase ev \<and> ev_Allowed ev' = ev_Allowed ev \<and> told resp ev' \<and> no_inventory resp"
  proof (cases result)
    case (Inl x)
    then show ?thesis using assms(2)
      by (auto simp: run_call_def w1_def [symmetric] pay_def [symmetric] i told_def reply_err_def)
  next
    case (Inr got)
    then show ?thesis using assms(2)
      by (auto simp: run_call_def w1_def [symmetric] pay_def [symmetric] i told_def Let_def
          run_answer_told split: option.splits sum.splits if_splits)
  qed
  then show ?thesis using io c by auto
qed

definition file_path :: "string \<Rightarrow> jobj \<Rightarrow> string" where
  "file_path path body = (if path = ''/write'' \<and> writeMetadataRequested body then ''/write-metadata'' else path)"

lemma file_call_effect:
  assumes "gm_load (br_tunnels (w_broker w)) svid = Some cc"
    and "file_call sv p path r body svid ev w = (resp, ev', w')"
  shows "start_of ev' = start_of ev \<and> ev_Phase ev' = ev_Phase ev \<and> ev_Allowed ev' = ev_Allowed ev \<and>
    told resp ev' \<and> no_inventory resp \<and>
    (w' = w \<and> rs_code resp = 422 \<and> nodeGOOS svid (w_broker w) = ''windows'' \<or>
     (\<exists>pay. w_io w' = w_io w @ [NodeCall svid cc ''POST'' (file_path path body) pay]) \<and>
     cw_calls w' = map_option (cl_Add (start_of ev)) (cw_calls w))"
proof (cases "path = ''/write'' \<and> writeMetadataRequested body \<and> nodeGOOS svid (w_broker w) = ''windows''")
  case True
  then show ?thesis using assms(2) by (auto simp: file_call_def told_def)
next
  case False
  define w1 where "w1 = recordStart ev w"
  define pay where "pay = (case gl_marshal (sv_lib sv)
    (JObj (jput ''rid'' (JStr (ev_RequestID ev)) (jdel ''node'' body))) of None \<Rightarrow> [] | Some s \<Rightarrow> s)"
  obtain result w2 where i: "Inject (sv_env sv) svid ''POST'' (file_path path body) (Some pay) w1 = (result, w2)"
    by fastforce
  have b: "w_broker w1 = w_broker w" "w_io w1 = w_io w"
    "cw_calls w1 = map_option (cl_Add (start_of ev)) (cw_calls w)"
    by (simp_all add: w1_def recordStart_def)
  have io: "w_io w2 = w_io w @ [NodeCall svid cc ''POST'' (file_path path body) (Some pay)]"
    using injected_io [OF Inject_injected [OF i]] assms(1) by (simp add: b)
  have c: "cw_calls w2 = map_option (cl_Add (start_of ev)) (cw_calls w)"
    using Inject_frame [OF i] by (simp add: b)
  note call = assms(2) [unfolded file_call_def Let_def, folded file_path_def, folded w1_def, folded pay_def,
      unfolded i prod.case]
  have "w' = w2 \<and> start_of ev' = start_of ev \<and>
      ev_Phase ev' = ev_Phase ev \<and> ev_Allowed ev' = ev_Allowed ev \<and> told resp ev' \<and> no_inventory resp"
  proof (cases result)
    case (Inl x)
    then show ?thesis using call False by (auto simp: told_def reply_err_def)
  next
    case (Inr out)
    show ?thesis
    proof (cases "path = ''/write'' \<and> writeMetadataRequested body \<and> metadataEndpointUnsupported out")
      case True
      then show ?thesis using call False by (auto simp: Inr told_def)
    next
      case f: False
      then show ?thesis using call False by (auto simp: Inr told_def split: if_splits)
    qed
  qed
  then show ?thesis using io c by auto
qed

section \<open>One call as a whole\<close>

text \<open>
  The law of a data call: it may end before the tower is asked, after it, or after the one call to the
  one node the request names, which the tower granted and which has a live tunnel.
\<close>

definition lawful :: "server \<Rightarrow> principal \<Rightarrow> string \<Rightarrow> string \<Rightarrow> 'a cworld_scheme \<Rightarrow> callEvent \<Rightarrow>
    response \<Rightarrow> callEvent \<Rightarrow> 'a cworld_scheme \<Rightarrow> bool" where
  "lawful sv p verb node w ev resp ev' w' \<longleftrightarrow>
     same_call ev ev' \<and> told resp ev' \<and> (no_inventory resp \<or> granted sv p verb (w_io w)) \<and>
     (w_io w' = w_io w \<and> cw_calls w' = cw_calls w \<and> \<not> ev_Allowed ev' \<or>
      w_io w' = w_io w @ [asked p verb] \<and> cw_calls w' = cw_calls w \<and>
        ev_Allowed ev' = granted sv p verb (w_io w) \<or>
      (\<exists>cc path pay. w_io w' = w_io w @ [asked p verb, NodeCall (ev_SVID ev') cc ''POST'' path pay] \<and>
         gm_load (br_tunnels (w_broker w)) (ev_SVID ev') = Some cc) \<and>
        cw_calls w' = map_option (cl_Add (start_of ev')) (cw_calls w) \<and>
        ev_Allowed ev' \<and> granted sv p verb (w_io w) \<and>
        ev_Node ev' = node \<and> resolveTarget (sv_casing sv) node (w_broker w) = (ev_SVID ev', []))"

lemma perimeter_stop_lawful:
  assumes "perimeter sv p verb node ev w = (Inl resp, ev', w')" and "\<not> ev_Allowed ev"
  shows "lawful sv p verb node w ev resp ev' w'"
proof -
  note s = perimeter_stop [OF assms(1)]
  have "no_inventory resp \<or> granted sv p verb (w_io w)"
    using assms(1) by (auto simp: perimeter_def tower_def reply_err_def reply_error_def
        reply_denied_def granted_def Let_def split: sum.splits prod.splits if_splits)
  moreover have "told resp ev'" using s by (auto simp: told_def refusal_codes_def)
  ultimately show ?thesis using s assms(2) by (auto simp: lawful_def)
qed

lemma perimeter_go_lawful:
  assumes "perimeter sv p verb node ev w = (Inr svid, ev1, w1)" and "ev_Node ev = node"
    and "gm_load (br_tunnels (w_broker w)) svid = Some cc \<Longrightarrow>
       start_of ev' = start_of ev1 \<and> ev_Phase ev' = ev_Phase ev1 \<and> ev_Allowed ev' = ev_Allowed ev1 \<and>
       told resp ev' \<and> no_inventory resp \<and>
       (w_io w' = w_io w1 \<and> cw_calls w' = cw_calls w1 \<or>
        (\<exists>path pay. w_io w' = w_io w1 @ [NodeCall svid cc ''POST'' path pay]) \<and>
        cw_calls w' = map_option (cl_Add (start_of ev1)) (cw_calls w1))"
    and "gm_load (br_tunnels (w_broker w)) svid = Some cc"
  shows "lawful sv p verb node w ev resp ev' w'"
proof -
  note g = perimeter_go [OF assms(1)]
  note e = assms(3) [OF assms(4)]
  have "same_call ev ev1" using g by (auto simp: same_call_def)
  moreover have "same_call ev1 ev'" using e by (auto intro: same_call_start)
  ultimately have s: "same_call ev ev'" by (rule same_call_trans)
  have n: "ev_Node ev' = ev_Node ev1" "ev_SVID ev' = ev_SVID ev1"
    using e by (auto simp: start_of_def zero_event_def)
  have "ev_SVID ev1 = svid \<and> ev_Node ev1 = node \<and> ev_Allowed ev1" using g assms(2) by auto
  then have v: "ev_SVID ev1 = svid" "ev_Node ev1 = node" "ev_Allowed ev1" by auto
  have w: "w_io w1 = w_io w @ [asked p verb]" "cw_calls w1 = cw_calls w" "granted sv p verb (w_io w)"
    "resolveTarget (sv_casing sv) node (w_broker w) = (svid, [])"
    using g by auto
  from e show ?thesis unfolding lawful_def n v using s w assms(4) v(3) by (auto simp only: append.simps append_assoc)
qed

lemma refused_lawful:
  "\<not> ev_Allowed ev' \<Longrightarrow> same_call ev ev' \<Longrightarrow> told resp ev' \<Longrightarrow> no_inventory resp \<Longrightarrow>
     lawful sv p verb node w ev resp ev' w"
  by (simp add: lawful_def)

text \<open>The node a request names: a field of a struct, or a member of a map.\<close>

definition named_node :: "server \<Rightarrow> bool \<Rightarrow> request \<Rightarrow> string" where
  "named_node sv on_file r =
     (if on_file then (case sv_decode sv (rq_body r) of Some (JObj ob) \<Rightarrow> asString (jget ''node'' ob) | _ \<Rightarrow> [])
      else rr_Node (fst (decode_into run_field zero_run (sv_decode sv (rq_body r)))))"

lemma verb_body_lawful:
  assumes "verb_body sv p verb path r ev w = Some (resp, ev', w')" and "\<not> ev_Allowed ev"
  shows "lawful sv p verb (named_node sv False r) w ev resp ev' w'"
proof -
  obtain body ok where d: "decode_into run_field zero_run (sv_decode sv (rq_body r)) = (body, ok)" by fastforce
  then have n: "named_node sv False r = rr_Node body" by (simp add: named_node_def)
  define ev0 where "ev0 = ev\<lparr>ev_Node := rr_Node body, ev_Detail := clip (rr_Cmd body) detailMax\<rparr>"
  have s: "same_call ev ev0" "ev_Node ev0 = rr_Node body" "\<not> ev_Allowed ev0"
    using assms(2) by (simp_all add: ev0_def same_call_def)
  show ?thesis
  proof (cases "ok \<and> rr_Node body \<noteq> []")
    case False
    then show ?thesis using assms
      by (auto simp: verb_body_def d told_def reply_error_def same_call_def intro!: refused_lawful split: if_splits)
  next
    case True
    obtain x ev1 w1 where g: "perimeter sv p verb (rr_Node body) ev0 w = (x, ev1, w1)"
      by (cases "perimeter sv p verb (rr_Node body) ev0 w")
    note b = assms(1) [unfolded verb_body_def d Let_def prod.case, folded ev0_def, unfolded g prod.case]
    have "lawful sv p verb (named_node sv False r) w ev0 resp ev' w'"
    proof (cases x)
      case (Inl resp0)
      then show ?thesis using perimeter_stop_lawful [OF g [unfolded Inl] s(3)] b n True by simp
    next
      case (Inr svid)
      note go = perimeter_go [OF g [unfolded Inr]]
      obtain cc where cc: "gm_load (br_tunnels (w_broker w)) svid = Some cc"
        using live_target go by blast
      have r: "run_call sv p verb path r body svid ev1 w1 = Some (resp, ev', w')" using b True Inr by simp
      have "gm_load (br_tunnels (w_broker w1)) svid = Some cc" using cc go by simp
      from run_call_effect [OF this r] show ?thesis
        unfolding n by (intro perimeter_go_lawful [OF g [unfolded Inr] s(2) _ cc]) auto
    qed
    then show ?thesis using same_call_trans [OF s(1)] by (auto simp: lawful_def)
  qed
qed

lemma file_body_no_object:
  "\<not> (\<exists>ob. sv_decode sv (rq_body r) = Some (JObj ob)) \<Longrightarrow>
     file_body sv p verb path r ev w =
       (reply_error 400 ''body must be a JSON object'', ev\<lparr>ev_Status := ''bad-request''\<rparr>, w)"
  by (auto simp: file_body_def split: option.splits json.splits)

lemma file_body_object:
  assumes "sv_decode sv (rq_body r) = Some (JObj ob)"
  obtains ev0 where "same_call ev ev0" and "ev_Node ev0 = named_node sv True r" and "ev_Allowed ev0 = ev_Allowed ev"
    and "file_body sv p verb path r ev w =
      (if named_node sv True r = [] then (reply_error 400 ''node required'', ev0\<lparr>ev_Status := ''bad-request''\<rparr>, w)
       else case perimeter sv p verb (named_node sv True r) ev0 w of
         (Inl resp, ev, w) \<Rightarrow> (resp, ev, w)
       | (Inr svid, ev, w) \<Rightarrow> file_call sv p path r (jmap ob) svid ev w)"
proof -
  define node where "node = asString (jget ''node'' (jmap ob))"
  have n: "named_node sv True r = node" by (simp add: node_def named_node_def assms)
  define ev0 where "ev0 = (case jget ''path'' (jmap ob) of
      Some (JStr s) \<Rightarrow> (ev\<lparr>ev_Node := node\<rparr>)\<lparr>ev_Detail := clip s detailMax\<rparr> | _ \<Rightarrow> ev\<lparr>ev_Node := node\<rparr>)"
  show ?thesis
  proof (rule that [of ev0])
    show "same_call ev ev0" "ev_Node ev0 = named_node sv True r" "ev_Allowed ev0 = ev_Allowed ev"
      by (simp_all add: ev0_def same_call_def n split: option.splits json.splits)
    show "file_body sv p verb path r ev w =
      (if named_node sv True r = [] then (reply_error 400 ''node required'', ev0\<lparr>ev_Status := ''bad-request''\<rparr>, w)
       else case perimeter sv p verb (named_node sv True r) ev0 w of
         (Inl resp, ev, w) \<Rightarrow> (resp, ev, w)
       | (Inr svid, ev, w) \<Rightarrow> file_call sv p path r (jmap ob) svid ev w)"
      unfolding n file_body_def assms option.case json.case Let_def node_def [symmetric] ev0_def [symmetric] ..
  qed
qed

lemma file_body_lawful:
  assumes "file_body sv p verb path r ev w = (resp, ev', w')" and "\<not> ev_Allowed ev"
  shows "lawful sv p verb (named_node sv True r) w ev resp ev' w'"
proof (cases "\<exists>ob. sv_decode sv (rq_body r) = Some (JObj ob)")
  case False
  from file_body_no_object [OF False, of p verb path ev w] show ?thesis using assms
    by (auto simp: told_def reply_error_def same_call_def intro!: refused_lawful)
next
  case True
  then obtain ob where d: "sv_decode sv (rq_body r) = Some (JObj ob)" by blast
  let ?node = "named_node sv True r"
  from d obtain ev0 where s: "same_call ev ev0" "ev_Node ev0 = ?node" "\<not> ev_Allowed ev0"
    and b: "file_body sv p verb path r ev w =
      (if ?node = [] then (reply_error 400 ''node required'', ev0\<lparr>ev_Status := ''bad-request''\<rparr>, w)
       else case perimeter sv p verb ?node ev0 w of
         (Inl resp, ev, w) \<Rightarrow> (resp, ev, w)
       | (Inr svid, ev, w) \<Rightarrow> file_call sv p path r (jmap ob) svid ev w)"
    by (rule file_body_object [of sv r ob ev p verb path w]) (use assms(2) in simp_all)
  show ?thesis
  proof (cases "?node = []")
    case True
    then show ?thesis using assms s b
      by (auto simp: told_def reply_error_def same_call_def intro!: refused_lawful)
  next
    case False
    obtain x ev1 w1 where g: "perimeter sv p verb ?node ev0 w = (x, ev1, w1)"
      by (cases "perimeter sv p verb ?node ev0 w")
    have "lawful sv p verb ?node w ev0 resp ev' w'"
    proof (cases x)
      case (Inl resp0)
      then show ?thesis using perimeter_stop_lawful [OF g [unfolded Inl] s(3)] b assms(1) False g by simp
    next
      case (Inr svid)
      note go = perimeter_go [OF g [unfolded Inr]]
      obtain cc where cc: "gm_load (br_tunnels (w_broker w)) svid = Some cc"
        using live_target go by blast
      have r: "file_call sv p path r (jmap ob) svid ev1 w1 = (resp, ev', w')"
        using b assms(1) False g Inr by simp
      have "gm_load (br_tunnels (w_broker w1)) svid = Some cc" using cc go by simp
      from file_call_effect [OF this r] show ?thesis
        by (intro perimeter_go_lawful [OF g [unfolded Inr] s(2) _ cc]) auto
    qed
    then show ?thesis using same_call_trans [OF s(1)] by (auto simp: lawful_def)
  qed
qed

section \<open>Data calls\<close>

text \<open>A call of \<open>verbHandler\<close> or of \<open>fileVerbHandler\<close>, with what it answers and leaves.\<close>

definition data_call :: "server \<Rightarrow> bool \<Rightarrow> string \<Rightarrow> string \<Rightarrow> request \<Rightarrow> 'a cworld_scheme \<Rightarrow> response \<Rightarrow>
    'a cworld_scheme \<Rightarrow> bool" where
  "data_call sv on_file verb path r w resp w' \<longleftrightarrow>
     (if on_file then fileVerbHandler sv verb path r w = (resp, w')
      else verbHandler sv verb path r w = Some (resp, w'))"

definition first_event :: "server \<Rightarrow> principal \<Rightarrow> string \<Rightarrow> 'a cworld_scheme \<Rightarrow> callEvent" where
  "first_event sv p verb w = fst (call_event sv p verb w)"

lemma call_event_eq: "call_event sv p verb w = (first_event sv p verb w, w\<lparr>cw_ids := cw_ids w + 1\<rparr>)"
  by (simp add: call_event_def first_event_def newID_def Let_def)

lemma first_event_simps [simp]:
  "ev_Phase (first_event sv p verb w) = []" "\<not> ev_Allowed (first_event sv p verb w)"
  "ev_RequestID (first_event sv p verb w) = hex_encode (sv_rand sv (cw_ids w))"
  "ev_UPN (first_event sv p verb w) = pr_UPN p" "ev_OID (first_event sv p verb w) = pr_OID p"
  "ev_TID (first_event sv p verb w) = pr_TID p" "ev_App (first_event sv p verb w) = pr_AppID p"
  "ev_Verb (first_event sv p verb w) = verb" "ev_AppName (first_event sv p verb w) = pr_AppName p"
  by (simp_all add: call_event_def first_event_def newID_def zero_event_def Let_def)

lemma data_call_refused:
  "data_call sv on_file verb path r w resp w' \<Longrightarrow> auth (sv_validate sv) (rq_auth r) = Inl e \<Longrightarrow>
     resp = reply_err 401 [] e \<and> w' = w"
  by (auto simp: data_call_def verbHandler_def fileVerbHandler_def split: if_splits)

lemma data_call_lawful:
  assumes "data_call sv on_file verb path r w resp w'" and "auth (sv_validate sv) (rq_auth r) = Inr p"
  obtains ev w1 where "w' = record_ev ev w1"
    and "lawful sv p verb (named_node sv on_file r) (w\<lparr>cw_ids := cw_ids w + 1\<rparr>) (first_event sv p verb w) resp ev w1"
proof (cases on_file)
  case True
  obtain resp0 ev w1 where f: "file_body sv p verb path r (first_event sv p verb w) (w\<lparr>cw_ids := cw_ids w + 1\<rparr>) =
      (resp0, ev, w1)" using prod_cases3 by blast
  then have "resp0 = resp" "w' = record_ev ev w1" using assms True
    by (auto simp: data_call_def fileVerbHandler_def call_event_eq)
  then show ?thesis using file_body_lawful [OF f] that True by simp
next
  case False
  then obtain ev w1 where "verb_body sv p verb path r (first_event sv p verb w) (w\<lparr>cw_ids := cw_ids w + 1\<rparr>) =
      Some (resp, ev, w1)" "w' = record_ev ev w1" using assms
    by (auto simp: data_call_def verbHandler_def call_event_eq split: option.splits)
  note b = this
  show ?thesis
  proof (rule that [OF b(2)])
    show "lawful sv p verb (named_node sv on_file r) (w\<lparr>cw_ids := cw_ids w + 1\<rparr>) (first_event sv p verb w) resp ev w1"
      using verb_body_lawful [OF b(1)] False by simp
  qed
qed

lemma data_call_node:
  assumes "data_call sv on_file verb path r w resp w'"
    and "NodeCall svid cc m q b \<in> set (drop (length (w_io w)) (w_io w'))"
  shows "\<exists>p. auth (sv_validate sv) (rq_auth r) = Inr p \<and> granted sv p verb (w_io w) \<and>
    resolveTarget (sv_casing sv) (named_node sv on_file r) (w_broker w) = (svid, []) \<and>
    gm_load (br_tunnels (w_broker w)) svid = Some cc \<and> m = ''POST'' \<and>
    w_io w' = w_io w @ [TowerCall ''/control/v1/authorize'' (authorize_body p verb), NodeCall svid cc m q b]"
proof (cases "auth (sv_validate sv) (rq_auth r)")
  case (Inl e)
  then show ?thesis using data_call_refused [OF assms(1)] assms(2) by auto
next
  case (Inr p)
  obtain ev w1 where w': "w' = record_ev ev w1"
    and l: "lawful sv p verb (named_node sv on_file r) (w\<lparr>cw_ids := cw_ids w + 1\<rparr>) (first_event sv p verb w) resp ev w1"
    using data_call_lawful [OF assms(1) Inr] .
  then show ?thesis using assms(2) Inr by (auto simp: lawful_def asked_def)
qed

text \<open>C9: A call reaches a node only when the bearer of a valid token asked for it, the tower was asked
  about this principal and verb just before and granted it, and the name in the request belongs to
  exactly this node, over its live tunnel. It is then the only call, and a POST.\<close>

theorem node_call_needs_grant:
  assumes "data_call sv on_file verb path r w resp w'"
    and "NodeCall svid cc m q b \<in> set (drop (length (w_io w)) (w_io w'))"
  shows "\<exists>p. auth (sv_validate sv) (rq_auth r) = Inr p \<and> granted sv p verb (w_io w) \<and>
    resolveTarget (sv_casing sv) (named_node sv on_file r) (w_broker w) = (svid, []) \<and>
    gm_load (br_tunnels (w_broker w)) svid = Some cc \<and> m = ''POST'' \<and>
    w_io w' = w_io w @ [TowerCall ''/control/v1/authorize'' (authorize_body p verb), NodeCall svid cc m q b]"
  using assms by (rule data_call_node)

text \<open>C10: Every authenticated data call leaves one final record in the audit buffer, and before it a start
  marker exactly when a node was called. Both carry the fresh request identifier, the principal, the
  agent and the verb; the final one says \<open>ok\<close> exactly when the caller got a 200, and \<open>allowed\<close> exactly
  when the tower granted the call.\<close>

theorem calls_are_audited:
  assumes "data_call sv on_file verb path r w resp w'" and "auth (sv_validate sv) (rq_auth r) = Inr p"
  shows "\<exists>ev new. w_io w' = w_io w @ new \<and>
    cw_calls w' = map_option (add_events
      (if list_ex is_node_call new then [start_of ev, ev] else [ev])) (cw_calls w) \<and>
    ev_Phase ev = [] \<and> ev_RequestID ev = hex_encode (sv_rand sv (cw_ids w)) \<and>
    ev_UPN ev = pr_UPN p \<and> ev_OID ev = pr_OID p \<and> ev_TID ev = pr_TID p \<and> ev_App ev = pr_AppID p \<and>
    ev_Verb ev = verb \<and> ev_Status ev \<noteq> [] \<and> (rs_code resp = 200 \<longleftrightarrow> ev_Status ev = ''ok'') \<and>
    (ev_Allowed ev \<longleftrightarrow> new \<noteq> [] \<and> granted sv p verb (w_io w))"
proof -
  obtain ev w1 where w': "w' = record_ev ev w1"
    and l: "lawful sv p verb (named_node sv on_file r) (w\<lparr>cw_ids := cw_ids w + 1\<rparr>) (first_event sv p verb w) resp ev w1"
    using data_call_lawful [OF assms] .
  have e: "ev_Phase ev = [] \<and> ev_RequestID ev = hex_encode (sv_rand sv (cw_ids w)) \<and> ev_UPN ev = pr_UPN p \<and>
    ev_OID ev = pr_OID p \<and> ev_TID ev = pr_TID p \<and> ev_App ev = pr_AppID p \<and> ev_Verb ev = verb \<and>
    ev_Status ev \<noteq> [] \<and> (rs_code resp = 200 \<longleftrightarrow> ev_Status ev = ''ok'')"
    using l by (auto simp: lawful_def same_call_def told_def)
  have "\<exists>new. w_io w1 = w_io w @ new \<and> (ev_Allowed ev \<longleftrightarrow> new \<noteq> [] \<and> granted sv p verb (w_io w)) \<and>
    map_option (cl_Add ev) (cw_calls w1) = map_option (add_events
      (if list_ex is_node_call new then [start_of ev, ev] else [ev])) (cw_calls w)"
  proof -
    from l consider "w_io w1 = w_io w" "cw_calls w1 = cw_calls w" "\<not> ev_Allowed ev"
      | "w_io w1 = w_io w @ [asked p verb]" "cw_calls w1 = cw_calls w"
        "ev_Allowed ev = granted sv p verb (w_io w)"
      | cc path pay where "w_io w1 = w_io w @ [asked p verb, NodeCall (ev_SVID ev) cc ''POST'' path pay]"
        "cw_calls w1 = map_option (cl_Add (start_of ev)) (cw_calls w)" "ev_Allowed ev"
        "granted sv p verb (w_io w)"
      by (auto simp: lawful_def)
    then show ?thesis
      by cases (auto simp: asked_def add_one [symmetric] add_two [symmetric])
  qed
  then obtain new where n: "w_io w1 = w_io w @ new" "ev_Allowed ev \<longleftrightarrow> new \<noteq> [] \<and> granted sv p verb (w_io w)"
    "map_option (cl_Add ev) (cw_calls w1) = map_option (add_events
      (if list_ex is_node_call new then [start_of ev, ev] else [ev])) (cw_calls w)" by blast
  show ?thesis by (rule exI [of _ ev], rule exI [of _ new]) (use e n w' in simp)
qed

section \<open>An example\<close>

definition ex_call_lib :: golib where
  "ex_call_lib = ex_control_lib\<lparr>gl_unmarshal := (\<lambda>s. if s = ''yes'' then Some (JObj [(''allowed'', JBool True)])
     else None)\<rparr>"

definition ex_call_env :: env where
  "ex_call_env = \<lparr>e_tower = (\<lambda>_ _ _. Reply 200 ''yes''), e_node = (\<lambda>_ _ _ _ _. Reply 200 ''done''),
     e_now = (\<lambda>io. int (length io))\<rparr>"

definition ex_server :: server where
  "ex_server = \<lparr>sv_lib = ex_call_lib, sv_env = ex_call_env,
     sv_validate = (\<lambda>tok. if tok = ''tok'' then Inr ex_principal else Inl (Errnew ''bad'')),
     sv_decode = map_of [(''job'', JObj [(''node'', JStr ''a'')]),
       (''write'', JObj [(''node'', JStr ''a''), (''owner'', JStr ''root'')]),
       (''read'', JObj [(''capture_id'', JStr ex_id)]),
       (''know'', JObj [(''node'', JStr ''a''), (''query'', JStr ''q'')])],
     sv_casing = ascii_casing, sv_rand = (\<lambda>n. [char_of n]), sv_print = (\<lambda>r. True),
     sv_hints = \<lparr>hp_Bashisms = (\<lambda>s. False), hp_PowerShellisms = (\<lambda>s. False), hp_GUILaunch = (\<lambda>s. False)\<rparr>\<rparr>"

definition ex_request :: "string \<Rightarrow> request" where
  "ex_request body = \<lparr>rq_auth = ''Bearer tok'', rq_body = body, rq_query = (\<lambda>k. []), rq_gone = (\<lambda>io. False)\<rparr>"

definition ex_cworld :: cworld where
  "ex_cworld = \<lparr>w_broker = ex_broker, w_io = [], cw_calls = Some (NewCallLog 10),
     cw_caps = newCaptureStore defaultCaptureStoreConfig, cw_draws = [], cw_ids = 0\<rparr>"

lemma ex_auth: "auth (sv_validate ex_server) (rq_auth (ex_request body)) = Inr ex_principal"
  by (simp add: auth_def ex_request_def ex_server_def bearer_def HasPrefix_def TrimPrefix_def)

lemma ex_yes: "authorize ex_call_lib (Reply 200 ''yes'') = Inr (True, [])"
  by (simp add: authorize_def call_def callWithLimit_def read_bounded_def controlResponseLimit_def
      decode_out_def ex_call_lib_def member_def) (simp add: jget_def)

lemma ex_granted: "granted ex_server ex_principal verb io"
  by (simp add: granted_def ex_server_def ex_call_env_def ex_yes)

lemma ex_perimeter:
  "perimeter ex_server p verb ''a'' ev (ex_cworld\<lparr>cw_ids := n\<rparr>) =
     (Inr ''spiffe://x/t1/node/a'', ev\<lparr>ev_Allowed := True, ev_Reason := [], ev_SVID := ''spiffe://x/t1/node/a''\<rparr>,
      ex_cworld\<lparr>cw_ids := n, w_io := [asked p verb]\<rparr>)"
  by (simp add: perimeter_def tower_def asked_def ex_server_def ex_call_env_def ex_yes ex_cworld_def
      ex_resolve Let_def)

lemma ex_job:
  "\<exists>resp w'. data_call ex_server False ''run'' ''/jobs'' (ex_request ''job'') ex_cworld resp w' \<and> rs_code resp = 200 \<and>
     w_io w' = [asked ex_principal ''run'', NodeCall ''spiffe://x/t1/node/a'' 1 ''POST'' ''/jobs'' None]"
proof -
  have d: "decode_into run_field zero_run (sv_decode ex_server (rq_body (ex_request ''job''))) =
      (zero_run\<lparr>rr_Node := ''a''\<rparr>, True)"
    by (simp add: ex_server_def ex_request_def run_field_def zero_run_def lower_byte_def)
  show ?thesis
    by (simp add: data_call_def verbHandler_def ex_auth call_event_eq verb_body_def d Let_def ex_perimeter)
      (simp add: run_call_def zero_run_def recordStart_def record_ev_def InjectResponse_def
        injectResponseContext_def ex_cworld_def ex_broker_def ex_server_def ex_call_env_def
        read_bounded_def injectResponseCap_def Let_def run_answer_told)
qed

theorem node_call_needs_grant_witness:
  "granted ex_server ex_principal ''run'' [] \<and>
   (\<exists>resp w'. data_call ex_server False ''run'' ''/jobs'' (ex_request ''job'') ex_cworld resp w' \<and>
     w_io w' = [asked ex_principal ''run'', NodeCall ''spiffe://x/t1/node/a'' 1 ''POST'' ''/jobs'' None])"
proof -
  obtain resp w' where c: "data_call ex_server False ''run'' ''/jobs'' (ex_request ''job'') ex_cworld resp w'"
    "w_io w' = [asked ex_principal ''run'', NodeCall ''spiffe://x/t1/node/a'' 1 ''POST'' ''/jobs'' None]"
    using ex_job by blast
  then have "NodeCall ''spiffe://x/t1/node/a'' 1 ''POST'' ''/jobs'' None \<in>
      set (drop (length (w_io ex_cworld)) (w_io w'))" by (simp add: ex_cworld_def)
  from node_call_needs_grant [OF c(1) this] have "granted ex_server ex_principal ''run'' []"
    by (simp add: ex_auth) (simp add: ex_cworld_def)
  with c show ?thesis by blast
qed

theorem calls_are_audited_witness:
  "\<exists>resp w' ev. data_call ex_server False ''run'' ''/jobs'' (ex_request ''job'') ex_cworld resp w' \<and>
     cw_calls w' = Some (add_events [start_of ev, ev] (NewCallLog 10)) \<and> ev_Status ev = ''ok'' \<and> ev_OID ev = ''u''"
proof -
  obtain resp w' where c: "data_call ex_server False ''run'' ''/jobs'' (ex_request ''job'') ex_cworld resp w'"
    "rs_code resp = 200"
    "w_io w' = [asked ex_principal ''run'', NodeCall ''spiffe://x/t1/node/a'' 1 ''POST'' ''/jobs'' None]"
    using ex_job by blast
  from calls_are_audited [OF c(1) ex_auth] obtain ev new where
    "w_io w' = w_io ex_cworld @ new"
    "cw_calls w' = map_option (add_events (if list_ex is_node_call new then [start_of ev, ev] else [ev]))
       (cw_calls ex_cworld)" "rs_code resp = 200 \<longleftrightarrow> ev_Status ev = ''ok''" "ev_OID ev = pr_OID ex_principal"
    by blast
  moreover from this c(3) have "list_ex is_node_call new" by (auto simp: ex_cworld_def)
  ultimately show ?thesis using c(1,2)
    by (intro exI [of _ resp] exI [of _ w'] exI [of _ ev]) (simp add: ex_cworld_def ex_principal_def)
qed

end
