(* ===== verification/CallerReads.thy ===== *)
theory CallerReads
  imports CallerProps
begin

text \<open>
  What single handlers of \<open>caller.go\<close> do beyond the common law: the document a command travels in, file
  metadata, captured outputs, knowledge and the list of hosts.
\<close>

section \<open>The command on its way to the node\<close>

lemma encode_byte: "byte c < 128 \<Longrightarrow> encode_rune (byte c) = [c]"
  by (simp add: encode_ascii)

lemma chunks_ascii: "list_all (\<lambda>c. byte c < 128) s \<Longrightarrow> chunks s = map (\<lambda>c. (byte c, [c])) s"
proof (induction s)
  case (Cons c s)
  then have "scalar (byte c)" "encode_rune (byte c) = [c]" by (auto simp: scalar_def encode_byte)
  then show ?case using Cons chunks_encode [of "byte c" s] by simp
qed simp

lemma hex_digit_ascii: "n < 16 \<Longrightarrow> 48 \<le> byte (hex_digit n) \<and> byte (hex_digit n) < 103"
  by (simp add: hex_digit_def)

lemma hex_encode_ascii: "list_all (\<lambda>c. 48 \<le> byte c \<and> byte c < 103) (hex_encode s)"
proof (induction s)
  case (Cons c s)
  have "byte c div 16 < 16" "byte c mod 16 < 16" using nat_of_char_less_256 [of c] by linarith+
  then show ?case using Cons hex_digit_ascii by (simp add: hex_encode_def)
qed (simp add: hex_encode_def)

lemma hex_quotable:
  "ValidString (hex_encode bs)" "list_all (quotable prt) (runes (hex_encode bs))"
proof -
  have "list_all (\<lambda>c. byte c < 128) (hex_encode bs)"
    using hex_encode_ascii [of bs] by (auto simp: list_all_iff)
  then have c: "chunks (hex_encode bs) = map (\<lambda>c. (byte c, [c])) (hex_encode bs)" by (rule chunks_ascii)
  show "ValidString (hex_encode bs)" "list_all (quotable prt) (runes (hex_encode bs))"
    using hex_encode_ascii [of bs]
    by (auto simp: ValidString_def runes_def c list_all_iff RuneError_def quotable_def)
qed

lemma json_string_plain:
  assumes "list_all (\<lambda>c. 32 \<le> byte c \<and> c \<noteq> dquote \<and> c \<noteq> backslash) s"
  shows "json_string (dquote # s @ dquote # rest) = Some (s, rest)"
proof -
  have "json_chars (s @ dquote # rest) = Some (s, rest)"
    using assms by (induction s) (auto simp: json_chars_plain prepend_def)
  then show ?thesis by (simp add: json_string_def HasPrefix_def)
qed

text \<open>C25: The document a command is sent in reads back as exactly this command and request identifier
  when all its characters are printable or have a short JSON escape; a command with any other control
  character (an escape, a bell, a NUL) or an unprintable character beyond the basic plane is sent as
  text that is not JSON, so the node refuses it.\<close>

theorem command_document_is_json_iff:
  assumes "ValidString cmd"
  shows "flat_object (run_payload prt cmd (hex_encode rid)) =
    (if list_all (quotable prt) (runes cmd) then Some [(''cmd'', cmd), (''rid'', hex_encode rid)] else None)"
proof -
  have key: "json_string (dquote # k @ dquote # rest) = Some (k, rest)" if "k = ''cmd'' \<or> k = ''rid''" for k rest
    using that by (intro json_string_plain) (auto simp: dquote_def backslash_def)
  define tail where "tail = dquote # ''rid'' @ dquote # '':'' @ Quote prt (hex_encode rid) @ ''}''"
  have m2: "json_member tail = Some ((''rid'', hex_encode rid), ''}'')"
    using quote_read [OF hex_quotable(1), of prt rid "''}''"] hex_quotable(2) [of prt rid]
    unfolding tail_def json_member_def by (simp add: key [of "''rid''", simplified] HasPrefix_def)
  define doc where "doc = dquote # ''cmd'' @ dquote # '':'' @ Quote prt cmd @ '','' @ tail"
  have m1: "json_member doc = (if list_all (quotable prt) (runes cmd) then Some ((''cmd'', cmd), '','' @ tail) else None)"
    using quote_read [OF assms, of prt "'','' @ tail"]
    unfolding doc_def json_member_def by (simp add: key [of "''cmd''", simplified] HasPrefix_def)
  have d: "run_payload prt cmd (hex_encode rid) = ''{'' @ doc"
    by (simp add: run_payload_def doc_def tail_def)
  have "\<exists>n. length doc = Suc n" by (simp add: doc_def)
  then obtain n where n: "length (''{'' @ doc) = Suc (Suc n)" by auto
  show ?thesis
    unfolding d flat_object_def n by (simp add: HasPrefix_def m1 m2)
qed

theorem command_document_is_json_iff_witness:
  "flat_object (run_payload (\<lambda>r. True) ''ls'' (hex_encode ''x'')) = Some [(''cmd'', ''ls''), (''rid'', hex_encode ''x'')] \<and>
   flat_object (run_payload (\<lambda>r. True) [CHR 0x1B] (hex_encode ''x'')) = None"
proof -
  have "chunks ''ls'' = [(108, ''l''), (115, ''s'')]" "chunks [CHR 0x1B] = [(27, [CHR 0x1B])]"
    using chunks_ascii [of "''ls''"] chunks_ascii [of "[CHR 0x1B]"] by simp_all
  then have v: "ValidString ''ls''" "ValidString [CHR 0x1B]"
    and q: "runes ''ls'' = [108, 115]" "runes [CHR 0x1B] = [27]"
    by (simp_all add: ValidString_def runes_def RuneError_def)
  show ?thesis
    using command_document_is_json_iff [OF v(1)] command_document_is_json_iff [OF v(2)]
    by (simp add: q quotable_def)
qed

section \<open>File metadata\<close>

lemma not_unsupported:
  "\<not> metadataEndpointUnsupported (ir_Summary got) \<Longrightarrow> ir_StatusCode got \<noteq> 404"
proof
  assume u: "\<not> metadataEndpointUnsupported (ir_Summary got)" and c: "ir_StatusCode got = 404"
  have "Itoa 404 = ''404''"
    by (simp add: Itoa_def nat_digits.simps char_of_def bit_0)
  then have "HasPrefix (ir_Summary got) ''HTTP 404 ''"
    by (simp add: ir_Summary_def c HasPrefix_def)
  then show False using u by (simp add: metadataEndpointUnsupported_def)
qed

lemma Inject_Inr:
  assumes "Inject env svid m path b w = (Inr out, w')" and "gm_load (br_tunnels (w_broker w)) svid = Some cc"
  shows "\<exists>got. out = ir_Summary got \<and>
    e_node env (w_io w) cc m path b = Reply (ir_StatusCode got) (ir_Body got)"
proof -
  obtain x w1 where i: "InjectResponse env svid m path b w = (x, w1)" by fastforce
  then obtain got where "x = Inr got" "out = ir_Summary got"
    using assms(1) by (auto simp: Inject_def split: sum.splits)
  then show ?thesis using InjectResponse_Inr [of env svid m path b w got w1] i assms(2) by auto
qed

text \<open>What \<open>file_call\<close> sends when the request asks for metadata, and when it answers 200.\<close>

lemma file_call_metadata:
  assumes "gm_load (br_tunnels (w_broker w)) svid = Some cc" and "writeMetadataRequested body"
    and "file_call sv p ''/write'' r body svid ev w = (resp, ev', w')"
    and "NodeCall svid' cc' m q b \<in> set (drop (length (w_io w)) (w_io w'))"
  shows "svid' = svid \<and> q = ''/write-metadata'' \<and> nodeGOOS svid (w_broker w) \<noteq> ''windows'' \<and>
    (rs_code resp = 200 \<longrightarrow> (\<exists>code ans. e_node (sv_env sv) (w_io w) cc' m q b = Reply code ans \<and> code \<noteq> 404))"
proof (cases "nodeGOOS svid (w_broker w) = ''windows''")
  case True
  then show ?thesis using assms(2-4) by (auto simp: file_call_def)
next
  case False
  define w1 where "w1 = recordStart ev w"
  define pay where "pay = (case gl_marshal (sv_lib sv)
    (JObj (jput ''rid'' (JStr (ev_RequestID ev)) (jdel ''node'' body))) of None \<Rightarrow> [] | Some s \<Rightarrow> s)"
  obtain result w2 where i: "Inject (sv_env sv) svid ''POST'' ''/write-metadata'' (Some pay) w1 = (result, w2)"
    by fastforce
  have b: "w_broker w1 = w_broker w" "w_io w1 = w_io w" by (simp_all add: w1_def recordStart_def)
  then have cc: "gm_load (br_tunnels (w_broker w1)) svid = Some cc" using assms(1) by simp
  have io: "w_io w2 = w_io w @ [NodeCall svid cc ''POST'' ''/write-metadata'' (Some pay)]"
    using injected_io [OF Inject_injected [OF i] cc] by (simp add: b)
  note call = assms(3) [unfolded file_call_def Let_def, folded w1_def, folded pay_def]
  show ?thesis
  proof (cases result)
    case (Inl x)
    then have "w' = w2" "rs_code resp = 502" using call assms(2) False i by (auto simp: reply_err_def)
    then show ?thesis using io assms(4) False by auto
  next
    case (Inr out)
    then have w: "w' = w2" using call assms(2) False i by (auto split: if_splits)
    obtain got where got: "out = ir_Summary got"
      "e_node (sv_env sv) (w_io w) cc ''POST'' ''/write-metadata'' (Some pay) = Reply (ir_StatusCode got) (ir_Body got)"
      using Inject_Inr [OF i [unfolded Inr] cc] by (auto simp: b)
    have "rs_code resp = 200 \<longrightarrow> \<not> metadataEndpointUnsupported out"
      using call assms(2) False i Inr by (auto split: if_splits)
    then show ?thesis using io assms(4) False got not_unsupported by (auto simp: w)
  qed
qed

text \<open>C22: A write that asks for an owner, a group or a mode fails closed: it is never sent to the plain
  write endpoint, which would ignore them, nor to a node that reported Windows, and it is only reported
  as done when the node knew the endpoint that honours them.\<close>

theorem metadata_write_fails_closed:
  assumes "fileVerbHandler sv verb ''/write'' r w = (resp, w')"
    and "sv_decode sv (rq_body r) = Some (JObj ob)" and "writeMetadataRequested (jmap ob)"
    and "NodeCall svid cc m q b \<in> set (drop (length (w_io w)) (w_io w'))"
  shows "q = ''/write-metadata'' \<and> nodeGOOS svid (w_broker w) \<noteq> ''windows'' \<and>
    (rs_code resp = 200 \<longrightarrow>
      (\<exists>io code ans. e_node (sv_env sv) io cc m q b = Reply code ans \<and> code \<noteq> 404))"
proof -
  have d: "data_call sv True verb ''/write'' r w resp w'" using assms(1) by (simp add: data_call_def)
  obtain p where p: "auth (sv_validate sv) (rq_auth r) = Inr p"
    "w_io w' = w_io w @ [asked p verb, NodeCall svid cc m q b]"
    using data_call_node [OF d assms(4)] by (auto simp: asked_def)
  let ?w = "w\<lparr>cw_ids := cw_ids w + 1\<rparr>" and ?e = "first_event sv p verb w" and ?node = "named_node sv True r"
  obtain ev' w2 where f: "file_body sv p verb ''/write'' r ?e ?w = (resp, ev', w2)" "w_io w2 = w_io w'"
    using assms(1) p(1) by (auto simp: fileVerbHandler_def call_event_eq split: prod.splits)
  obtain ev0 where b: "file_body sv p verb ''/write'' r ?e ?w =
      (if ?node = [] then (reply_error 400 ''node required'', ev0\<lparr>ev_Status := ''bad-request''\<rparr>, ?w)
       else case perimeter sv p verb ?node ev0 ?w of
         (Inl resp, ev, w) \<Rightarrow> (resp, ev, w)
       | (Inr svid, ev, w) \<Rightarrow> file_call sv p ''/write'' r (jmap ob) svid ev w)"
    using assms(2) by (rule file_body_object)
  have n: "?node \<noteq> []" using f b p(2) by auto
  obtain x ev1 w1 where g: "perimeter sv p verb ?node ev0 ?w = (x, ev1, w1)"
    by (cases "perimeter sv p verb ?node ev0 ?w")
  show ?thesis
  proof (cases x)
    case (Inl resp0)
    then have "w_io w2 = w_io w @ [asked p verb]"
      using f(1) b n g perimeter_stop [OF g [unfolded Inl]] by auto
    then show ?thesis using f(2) p(2) by simp
  next
    case (Inr t)
    note go = perimeter_go [OF g [unfolded Inr]]
    obtain cc0 where cc: "gm_load (br_tunnels (w_broker w1)) t = Some cc0"
      using live_target [of "sv_casing sv" ?node "w_broker w" t "[]"] go by auto
    have r: "file_call sv p ''/write'' r (jmap ob) t ev1 w1 = (resp, ev', w2)" using f(1) b n g Inr by simp
    have "NodeCall svid cc m q b \<in> set (drop (length (w_io w1)) (w_io w2))"
      using f(2) p(2) go by auto
    from file_call_metadata [OF cc assms(3) r this] show ?thesis using go by auto
  qed
qed

theorem metadata_write_fails_closed_witness:
  "\<exists>resp w' cc pay. fileVerbHandler ex_server ''full'' ''/write'' (ex_request ''write'') ex_cworld = (resp, w') \<and>
     NodeCall ''spiffe://x/t1/node/a'' cc ''POST'' ''/write-metadata'' pay \<in> set (w_io w')"
proof -
  define ob where "ob = [(''node'', JStr ''a''), (''owner'', JStr ''root'')]"
  have d: "sv_decode ex_server (rq_body (ex_request ''write'')) = Some (JObj ob)"
    by (simp add: ex_server_def ex_request_def ob_def)
  have g: "jget ''node'' ob = Some (JStr ''a'')" "jget ''path'' ob = None" "jget ''owner'' ob = Some (JStr ''root'')"
    by (simp_all add: ob_def jget_def)
  have "TrimSpace ''root'' = ''root''"
    by (simp add: TrimSpace_def chunks_ascii IsSpace_def)
  then have m: "writeMetadataRequested (jmap ob)" by (simp add: writeMetadataRequested_def g)
  obtain resp w' where h: "fileVerbHandler ex_server ''full'' ''/write'' (ex_request ''write'') ex_cworld = (resp, w')"
    by fastforce
  have "\<exists>q pay. w_io w' = [asked ex_principal ''full'', NodeCall ''spiffe://x/t1/node/a'' 1 ''POST'' q pay]"
    using h
    by (simp add: fileVerbHandler_def ex_auth call_event_eq file_body_def d g Let_def ex_perimeter)
      (auto simp: file_call_def Inject_def InjectResponse_def injectResponseContext_def recordStart_def
        record_ev_def ex_cworld_def ex_broker_def ex_server_def ex_call_env_def read_bounded_def
        injectResponseCap_def nodeGOOS_def Let_def split: if_splits)
  then obtain q pay where w: "w_io w' = [asked ex_principal ''full'',
      NodeCall ''spiffe://x/t1/node/a'' 1 ''POST'' q pay]" by blast
  then have "NodeCall ''spiffe://x/t1/node/a'' 1 ''POST'' q pay \<in> set (drop (length (w_io ex_cworld)) (w_io w'))"
    by (simp add: ex_cworld_def)
  from metadata_write_fails_closed [OF h d m this] h w show ?thesis by auto
qed

section \<open>Captured outputs\<close>

lemma reply_err_inventory [simp]: "no_inventory (reply_err c s e)" "rs_code (reply_err c s e) = c"
  by (simp_all add: reply_err_def)

lemma reply_error_inventory [simp]: "no_inventory (reply_error c s)" "rs_code (reply_error c s) = c"
  by (simp_all add: reply_error_def)

lemma reply_denied_inventory [simp]: "no_inventory (reply_denied s)" "rs_code (reply_denied s) = 403"
  by (simp_all add: reply_denied_def)

definition read_request :: "server \<Rightarrow> request \<Rightarrow> outputReadRequest" where
  "read_request sv r = fst (decode_into output_field zero_output_request (sv_decode sv (rq_body r)))"

definition found_event :: "callEvent \<Rightarrow> capturedOutput \<Rightarrow> outputReadRequest \<Rightarrow> callEvent" where
  "found_event ev c rq = ev\<lparr>ev_Node := cp_Node c, ev_SVID := cp_Node c,
     ev_Detail := clip (''stream='' @ or_Stream rq @ '' mode='' @ or_Mode rq) detailMax\<rparr>"

lemma output_body_found:
  assumes "decode_into output_field zero_output_request (sv_decode sv (rq_body r)) = (rq, True)"
    and "or_CaptureID rq \<noteq> []" and "captureOwnerFor p = Some owner"
    and "cs_Get (now_of sv w) (or_CaptureID rq) owner (cw_caps w) = (Some c, caps)"
  shows "output_body sv p r ev w = (case authorize (sv_lib sv)
      (e_tower (sv_env sv) (w_io w) ''/control/v1/authorize'' (authorize_body p (cp_Verb c))) of
        Inl x \<Rightarrow> (reply_err 502 ''authz unavailable: '' x,
          (found_event ev c rq)\<lparr>ev_Status := ''error:authz-unavailable''\<rparr>,
          w\<lparr>cw_caps := caps, w_io := w_io w @ [asked p (cp_Verb c)]\<rparr>)
      | Inr (allowed, reason) \<Rightarrow>
          (let ev = (found_event ev c rq)\<lparr>ev_Allowed := allowed, ev_Reason := reason\<rparr>;
               w = w\<lparr>cw_caps := caps, w_io := w_io w @ [asked p (cp_Verb c)]\<rparr> in
           if \<not> allowed then (reply_denied reason, ev\<lparr>ev_Status := ''denied''\<rparr>, w)
           else case readCapturedOutput (sv_lib sv) c rq of
             Inl e \<Rightarrow> (reply_err 400 [] e, ev\<lparr>ev_Status := ''bad-request''\<rparr>, w)
           | Inr output \<Rightarrow> (answer 200
               [(''principal'', RJ (JStr (pr_UPN p))), (''node'', RJ (JStr (cp_Node c))),
                (''source_request_id'', RJ (JStr (cp_RequestID c))),
                (''output'', RJ (JObj output))], ev\<lparr>ev_Status := ''ok''\<rparr>, w)))"
  using assms by (simp add: output_body_def Let_def tower_def asked_def found_event_def split: sum.split)

lemma output_body_shown:
  assumes "decode_into output_field zero_output_request (sv_decode sv (rq_body r)) = (rq, True)"
    and "or_CaptureID rq \<noteq> []" and "captureOwnerFor p = Some owner"
    and "cs_Get (now_of sv w) (or_CaptureID rq) owner (cw_caps w) = (Some c, caps)"
    and "output_body sv p r ev w = (resp, ev', w')"
  shows "w_broker w' = w_broker w \<and> cw_caps w' = caps \<and> cw_calls w' = cw_calls w \<and>
    w_io w' = w_io w @ [asked p (cp_Verb c)] \<and> ev_OID ev' = ev_OID ev \<and> ev_Output ev' = ev_Output ev \<and>
    (rs_code resp = 200 \<longleftrightarrow> ev_Status ev' = ''ok'') \<and>
    (rs_code resp = 200 \<longrightarrow> granted sv p (cp_Verb c) (w_io w) \<and>
      (\<exists>output. readCapturedOutput (sv_lib sv) c rq = Inr output \<and>
        rs_body resp = Some [(''principal'', RJ (JStr (pr_UPN p))), (''node'', RJ (JStr (cp_Node c))),
          (''source_request_id'', RJ (JStr (cp_RequestID c))), (''output'', RJ (JObj output))]))"
  using assms(5) [unfolded output_body_found [OF assms(1-4)]]
  by (auto simp: Let_def granted_def answer_def found_event_def split: sum.splits if_splits)

lemma output_body_refused:
  assumes "output_body sv p r ev w = (resp, ev', w')"
    and "decode_into output_field zero_output_request (sv_decode sv (rq_body r)) = (rq, ok)"
    and "ok \<Longrightarrow> or_CaptureID rq \<noteq> [] \<Longrightarrow> captureOwnerFor p = Some owner \<Longrightarrow>
       fst (cs_Get (now_of sv w) (or_CaptureID rq) owner (cw_caps w)) = None"
    and "captureOwnerFor p = None \<or> captureOwnerFor p = Some owner" and "cs_inv (cw_caps w)"
  shows "rs_code resp \<noteq> 200 \<and> w_broker w' = w_broker w \<and> cw_calls w' = cw_calls w \<and> cs_inv (cw_caps w') \<and>
    ev_OID ev' = ev_OID ev \<and> ev_Output ev' = ev_Output ev \<and> ev_Status ev' \<noteq> ''ok''"
  using assms(1-4) cs_Get_keeps [OF assms(5), of "now_of sv w" "or_CaptureID rq" owner] assms(5)
  by (auto simp: output_body_def Let_def split: if_splits option.splits prod.splits)

text \<open>C23: A stored output is shown only to the tenant, principal and agent that produced it, before it
  expires, and only when the tower still grants them, at this moment, the verb it was produced with.
  What is shown is exactly what reading the stored output gives. Reading calls no node, and the audit
  record of it never holds the output.\<close>

theorem output_shown_to_owner_with_grant:
  assumes "outputReadHandler sv r w = (resp, w')" and "cs_inv (cw_caps w)"
    and "auth (sv_validate sv) (rq_auth r) = Inr p"
  shows "(rs_code resp = 200 \<longrightarrow> (\<exists>cap output.
      gm_load (cs_captures (cw_caps w)) (or_CaptureID (read_request sv r)) = Some cap \<and>
      captureOwnerFor p = Some (cp_Owner cap) \<and> now_of sv w < cp_ExpiresAt cap \<and>
      granted sv p (cp_Verb cap) (w_io w) \<and> w_io w' = w_io w @ [asked p (cp_Verb cap)] \<and>
      readCapturedOutput (sv_lib sv) (cap\<lparr>cp_LastAccess := now_of sv w\<rparr>) (read_request sv r) = Inr output \<and>
      rs_body resp = Some [(''principal'', RJ (JStr (pr_UPN p))), (''node'', RJ (JStr (cp_Node cap))),
        (''source_request_id'', RJ (JStr (cp_RequestID cap))), (''output'', RJ (JObj output))])) \<and>
    w_broker w' = w_broker w \<and> cs_inv (cw_caps w') \<and>
    (\<exists>ev. cw_calls w' = map_option (cl_Add ev) (cw_calls w) \<and> ev_OID ev = pr_OID p \<and> ev_Output ev = [] \<and>
      (rs_code resp = 200 \<longleftrightarrow> ev_Status ev = ''ok''))"
proof -
  let ?w = "w\<lparr>cw_ids := cw_ids w + 1\<rparr>" and ?e = "first_event sv p ''output_read'' w"
  obtain ev w1 where b: "output_body sv p r ?e ?w = (resp, ev, w1)" and w': "w' = record_ev ev w1"
    using assms(1,3) by (auto simp: outputReadHandler_def call_event_eq split: prod.splits)
  obtain rq ok where d: "decode_into output_field zero_output_request (sv_decode sv (rq_body r)) = (rq, ok)"
    by fastforce
  obtain owner where o: "captureOwnerFor p = None \<or> captureOwnerFor p = Some owner" by (cases "captureOwnerFor p") auto
  obtain found caps where g: "cs_Get (now_of sv w) (or_CaptureID rq) owner (cw_caps w) = (found, caps)"
    by fastforce
  have e: "ev_OID ?e = pr_OID p" "ev_Output ?e = []"
    by (simp_all add: call_event_def first_event_def newID_def zero_event_def Let_def)
  have now: "now_of sv (w\<lparr>cw_ids := n\<rparr>) = now_of sv w" for n by (simp add: now_of_def)
  have rq: "read_request sv r = rq" by (simp add: read_request_def d)
  show ?thesis
  proof (cases "ok \<and> or_CaptureID rq \<noteq> [] \<and> captureOwnerFor p \<noteq> None \<and> found \<noteq> None")
    case False
    have "rs_code resp \<noteq> 200 \<and> w_broker w1 = w_broker w \<and> cw_calls w1 = cw_calls w \<and> cs_inv (cw_caps w1) \<and>
        ev_OID ev = ev_OID ?e \<and> ev_Output ev = ev_Output ?e \<and> ev_Status ev \<noteq> ''ok''"
      using output_body_refused [OF b d _ o] False g assms(2) by (auto simp: now)
    then show ?thesis by (auto simp: w' e)
  next
    case True
    then obtain c where c: "found = Some c" by blast
    have o: "captureOwnerFor p = Some owner" using o True by auto
    obtain cap where cap: "gm_load (cs_captures (cw_caps w)) (or_CaptureID rq) = Some cap"
        "c = cap\<lparr>cp_LastAccess := now_of sv w\<rparr>" "cp_Owner cap = owner" "now_of sv w < cp_ExpiresAt cap"
      using g [unfolded c cs_Get_eq [OF assms(2)]] reap_load [OF assms(2)]
      by (auto simp: Let_def split: if_splits option.splits)
    have inv: "cs_inv caps" using cs_Get_keeps [OF assms(2), of "now_of sv w" "or_CaptureID rq" owner] g by simp
    have "cs_Get (now_of sv ?w) (or_CaptureID rq) owner (cw_caps ?w) = (Some c, caps)" by (simp add: now g c)
    from output_body_shown [OF _ _ o this b] d True show ?thesis
      using cap(1,3,4) inv o by (auto simp: w' rq cap(2) e)
  qed
qed

lemma ex_normalize: "normalizeOutputReadRequest (zero_output_request\<lparr>or_CaptureID := i\<rparr>) =
    Inr (zero_output_request\<lparr>or_CaptureID := i, or_Stream := ''stdout'', or_Mode := ''page'', or_Limit := 12000,
      or_MaxMatches := 20\<rparr>)"
  by (simp add: normalizeOutputReadRequest_def with_defaults_def zero_output_request_def Let_def)

lemma ex_store_inv: "cs_inv ex_store"
proof -
  have "config_ok defaultCaptureStoreConfig" by (simp add: config_ok_def defaultCaptureStoreConfig_def)
  from cs_reachable_inv [OF ex_reachable this] show ?thesis by blast
qed

lemma ex_get: "fst (cs_Get 0 ex_id ex_owner ex_store) = Some (ex_capture\<lparr>cp_LastAccess := 0\<rparr>)"
proof -
  have "draws_ok [Some ex_draw]" by (simp add: draws_ok_def ex_draw_def)
  then have "validCaptureID ex_id" using cs_Put_valid [OF ex_put] by (simp add: ex_capture_def)
  moreover have "gm_load (cs_captures ex_store) ex_id = Some ex_capture" by (simp add: ex_store_def)
  moreover have "0 < cp_ExpiresAt ex_capture" "cp_Owner ex_capture = ex_owner" by (simp_all add: ex_capture_def)
  ultimately show ?thesis by (simp add: cs_Get_eq [OF ex_store_inv] Let_def)
qed

lemma ex_server_simps:
  "sv_lib ex_server = ex_call_lib" "sv_env ex_server = ex_call_env"
  "e_tower ex_call_env io m q = Reply 200 ''yes''"
  by (simp_all add: ex_server_def ex_call_env_def)

lemma ex_read:
  "\<exists>resp w'. outputReadHandler ex_server (ex_request ''read'') (ex_cworld\<lparr>cw_caps := ex_store\<rparr>) = (resp, w') \<and>
     rs_code resp = 200"
proof -
  let ?w = "ex_cworld\<lparr>cw_caps := ex_store, cw_ids := Suc (cw_ids ex_cworld)\<rparr>"
  have d: "decode_into output_field zero_output_request (sv_decode ex_server (rq_body (ex_request ''read''))) =
      (zero_output_request\<lparr>or_CaptureID := ex_id\<rparr>, True)"
    by (simp add: ex_server_def ex_request_def output_field_def lower_byte_def)
  have o: "captureOwnerFor ex_principal = Some ex_owner"
    by (simp add: captureOwnerFor_def ex_principal_def ex_owner_def)
  have i: "or_CaptureID (zero_output_request\<lparr>or_CaptureID := ex_id\<rparr>) \<noteq> []" by (simp add: ex_id_def)
  have n: "now_of ex_server ?w = 0"
    by (simp add: now_of_def ex_server_def ex_call_env_def ex_cworld_def)
  obtain caps where g: "cs_Get 0 ex_id ex_owner ex_store = (Some (ex_capture\<lparr>cp_LastAccess := 0\<rparr>), caps)"
    using ex_get by (cases "cs_Get 0 ex_id ex_owner ex_store") auto
  have r: "\<exists>out. readCapturedOutput ex_call_lib (ex_capture\<lparr>cp_LastAccess := 0\<rparr>)
      (zero_output_request\<lparr>or_CaptureID := ex_id\<rparr>) = Inr out"
    by (simp add: readCapturedOutput_def ex_normalize ex_capture_def ex_streams_def Let_def)
  have g': "cs_Get (now_of ex_server ?w) (or_CaptureID (zero_output_request\<lparr>or_CaptureID := ex_id\<rparr>)) ex_owner
      (cw_caps ?w) = (Some (ex_capture\<lparr>cp_LastAccess := 0\<rparr>), caps)" by (simp add: n g)
  have "rs_code (fst (output_body ex_server ex_principal (ex_request ''read'') ev ?w)) = 200" for ev
    using r by (subst output_body_found [OF d i o g']) (auto simp: ex_server_simps ex_yes Let_def)
  from this [of "first_event ex_server ex_principal ''output_read'' (ex_cworld\<lparr>cw_caps := ex_store\<rparr>)"]
  show ?thesis
    by (auto simp: outputReadHandler_def ex_auth call_event_eq split: prod.splits)
qed

theorem output_shown_to_owner_with_grant_witness:
  "\<exists>resp w' output. outputReadHandler ex_server (ex_request ''read'') (ex_cworld\<lparr>cw_caps := ex_store\<rparr>) = (resp, w') \<and>
     granted ex_server ex_principal ''run'' [] \<and>
     readCapturedOutput ex_call_lib (ex_capture\<lparr>cp_LastAccess := 0\<rparr>) (read_request ex_server (ex_request ''read'')) =
       Inr output"
proof -
  let ?w = "ex_cworld\<lparr>cw_caps := ex_store\<rparr>"
  obtain resp w' where r: "outputReadHandler ex_server (ex_request ''read'') ?w = (resp, w')" "rs_code resp = 200"
    using ex_read by blast
  have i: "or_CaptureID (read_request ex_server (ex_request ''read'')) = ex_id"
    by (simp add: read_request_def ex_server_def ex_request_def output_field_def lower_byte_def)
  have c: "cs_inv (cw_caps ?w)" by (simp add: ex_store_inv)
  have n: "now_of ex_server ?w = 0" "w_io ?w = []" "gm_load (cs_captures ex_store) ex_id = Some ex_capture"
    by (simp_all add: now_of_def ex_server_def ex_call_env_def ex_cworld_def ex_store_def)
  have v: "cp_Verb ex_capture = ''run''" "sv_lib ex_server = ex_call_lib"
    by (simp_all add: ex_capture_def ex_server_def)
  show ?thesis
    using output_shown_to_owner_with_grant [OF r(1) c ex_auth] r
    by (auto simp: i n v)
qed

section \<open>Knowledge\<close>

definition knowledge_verb :: "bool \<Rightarrow> string" where
  "knowledge_verb write = (if write then ''knowledge_write'' else ''knowledge_read'')"

definition knowledge_node :: "server \<Rightarrow> request \<Rightarrow> string" where
  "knowledge_node sv r = kr_Node (fst (decode_into knowledge_field
     \<lparr>kr_Node = [], kr_Query = [], kr_Content = []\<rparr> (sv_decode sv (rq_body r))))"

definition knowledge_call :: "bool \<Rightarrow> io \<Rightarrow> bool" where
  "knowledge_call write c \<longleftrightarrow> (\<exists>body. c = TowerCall
     (if write then ''/control/v1/knowledge/append'' else ''/control/v1/knowledge/search'') body)"

lemma knowledge_error_told:
  "knowledge_error out e ev = (resp, ev') \<Longrightarrow> rs_code resp \<noteq> 200 \<and> ev_Status ev' \<noteq> ''ok'' \<and>
     ev_RequestID ev' = ev_RequestID ev \<and> ev_OID ev' = ev_OID ev \<and> ev_Allowed ev' = ev_Allowed ev"
  by (auto simp: knowledge_error_def split: option.splits if_splits)

lemma known_target:
  "resolveKnown cas q b = (svid, cand) \<Longrightarrow> svid \<noteq> [] \<Longrightarrow> svid \<in> listed b"
  using enrolled.resolved_known [of cas q b svid cand] by (auto simp: resolveKnown_def)

lemma knowledge_body_effect:
  assumes "knowledge_body sv p write verb r ev w = (resp, ev', w')" and "\<not> ev_Allowed ev"
  shows "w_broker w' = w_broker w \<and> cw_calls w' = cw_calls w \<and> ev_RequestID ev' = ev_RequestID ev \<and>
    ev_OID ev' = ev_OID ev \<and> (rs_code resp = 200 \<longleftrightarrow> ev_Status ev' = ''ok'') \<and>
    (ev_Allowed ev' \<longleftrightarrow> rs_code resp = 200) \<and> (no_inventory resp \<or> granted sv p verb (w_io w)) \<and>
    (w_io w' = w_io w \<or> w_io w' = w_io w @ [asked p verb] \<or>
     (\<exists>c. w_io w' = w_io w @ [asked p verb, c] \<and> knowledge_call write c \<and> granted sv p verb (w_io w) \<and>
        fst (resolveKnown (sv_casing sv) (knowledge_node sv r) (w_broker w)) \<in> listed (w_broker w)))"
proof -
  define body where "body = fst (decode_into knowledge_field \<lparr>kr_Node = [], kr_Query = [], kr_Content = []\<rparr>
    (sv_decode sv (rq_body r)))"
  have n: "knowledge_node sv r = kr_Node body" by (simp add: knowledge_node_def body_def)
  obtain a where a: "authorize (sv_lib sv)
      (e_tower (sv_env sv) (w_io w) ''/control/v1/authorize'' (authorize_body p verb)) = a" by blast
  obtain svid cand where k: "resolveKnown (sv_casing sv) (kr_Node body) (w_broker w) = (svid, cand)" by fastforce
  note b = assms(1) [unfolded knowledge_body_def, folded body_def, unfolded Let_def]
  consider "kr_Node body = [] \<or> (write \<and> TrimSpace (kr_Content body) = [])"
    | "kr_Node body \<noteq> []" "\<not> (write \<and> TrimSpace (kr_Content body) = [])" "\<nexists>re. a = Inr (True, re)"
    | re where "kr_Node body \<noteq> []" "\<not> (write \<and> TrimSpace (kr_Content body) = [])" "a = Inr (True, re)" "svid = []"
    | re where "kr_Node body \<noteq> []" "\<not> (write \<and> TrimSpace (kr_Content body) = [])" "a = Inr (True, re)" "svid \<noteq> []"
    by blast
  then show ?thesis
  proof cases
    case 1
    then show ?thesis using b assms(2) by (auto split: if_splits)
  next
    case 2
    then show ?thesis using b a assms(2)
      by (auto simp: tower_def asked_def split: sum.splits if_splits)
  next
    case 3
    then show ?thesis using b a k assms(2)
      by (auto simp: tower_def asked_def granted_def reply_candidates_def split: if_splits)
  next
    case (4 re)
    note re = 4(3) and ok = 4(1,2,4)
    have l: "svid \<in> listed (w_broker w)" using known_target [OF k] ok by blast
    define c where "c = (if write then TowerCall ''/control/v1/knowledge/append'' (knowledge_append_body p svid (kr_Content body))
      else TowerCall ''/control/v1/knowledge/search'' (knowledge_search_body p svid (kr_Query body)))"
    have c: "knowledge_call write c" by (auto simp: knowledge_call_def c_def)
    have "w_io w' = w_io w @ [asked p verb, c] \<and> w_broker w' = w_broker w \<and> cw_calls w' = cw_calls w \<and>
        ev_RequestID ev' = ev_RequestID ev \<and> ev_OID ev' = ev_OID ev \<and>
        (rs_code resp = 200 \<longleftrightarrow> ev_Status ev' = ''ok'') \<and> (ev_Allowed ev' \<longleftrightarrow> rs_code resp = 200)"
      using b a k ok re assms(2)
      by (cases "write"; auto simp: tower_def asked_def c_def split: option.splits prod.splits
          dest!: knowledge_error_told)
    then show ?thesis using c l a re by (auto simp: n k granted_def)
  qed
qed

lemma knowledgeHandler_effect:
  assumes "knowledgeHandler sv write r w = (resp, w')" and "auth (sv_validate sv) (rq_auth r) = Inr p"
  obtains ev w1 where "w' = record_ev ev w1" and "w_broker w1 = w_broker w" and "cw_calls w1 = cw_calls w"
    and "ev_RequestID ev = []" and "ev_OID ev = pr_OID p" and "rs_code resp = 200 \<longleftrightarrow> ev_Status ev = ''ok''"
    and "ev_Allowed ev \<longleftrightarrow> rs_code resp = 200"
    and "no_inventory resp \<or> granted sv p (knowledge_verb write) (w_io w)"
    and "w_io w1 = w_io w \<or> w_io w1 = w_io w @ [asked p (knowledge_verb write)] \<or>
     (\<exists>c. w_io w1 = w_io w @ [asked p (knowledge_verb write), c] \<and> knowledge_call write c \<and>
        granted sv p (knowledge_verb write) (w_io w) \<and>
        fst (resolveKnown (sv_casing sv) (knowledge_node sv r) (w_broker w)) \<in> listed (w_broker w))"
proof -
  define ev0 where "ev0 = zero_event\<lparr>ev_TS := gl_rfc3339 (sv_lib sv) (now_of sv w), ev_UPN := pr_UPN p,
    ev_OID := pr_OID p, ev_TID := pr_TID p, ev_Verb := knowledge_verb write\<rparr>"
  have e: "ev_RequestID ev0 = []" "ev_OID ev0 = pr_OID p" "\<not> ev_Allowed ev0"
    by (simp_all add: ev0_def zero_event_def)
  obtain ev w1 where b: "knowledge_body sv p write (knowledge_verb write) r ev0 w = (resp, ev, w1)"
    and w': "w' = record_ev ev w1"
    using assms by (auto simp: knowledgeHandler_def knowledge_verb_def [symmetric] ev0_def [symmetric] Let_def
        split: prod.splits)
  note k = knowledge_body_effect [OF b e(3)]
  show ?thesis using that [OF w'] k unfolding e(1,2) by blast
qed

text \<open>A knowledge call never reaches a node. It asks the tower for its own verb first; only after the
  grant is the node looked up, and only for an enrolled one is the request relayed to the tower. It
  leaves one record, which says \<open>ok\<close> and \<open>allowed\<close> exactly for a 200, and which has no request
  identifier for the tower to recognise it by.\<close>

theorem knowledge_goes_to_the_tower_only:
  assumes "knowledgeHandler sv write r w = (resp, w')" and "auth (sv_validate sv) (rq_auth r) = Inr p"
  shows "(\<exists>new. w_io w' = w_io w @ new \<and> \<not> list_ex is_node_call new \<and>
      (new = [] \<or> hd new = asked p (knowledge_verb write)) \<and>
      (1 < length new \<longrightarrow> (\<exists>c. new = [asked p (knowledge_verb write), c] \<and> knowledge_call write c) \<and>
         granted sv p (knowledge_verb write) (w_io w) \<and>
         fst (resolveKnown (sv_casing sv) (knowledge_node sv r) (w_broker w)) \<in> listed (w_broker w))) \<and>
    w_broker w' = w_broker w \<and>
    (\<exists>ev. cw_calls w' = map_option (cl_Add ev) (cw_calls w) \<and> ev_RequestID ev = [] \<and> ev_OID ev = pr_OID p \<and>
      (rs_code resp = 200 \<longleftrightarrow> ev_Status ev = ''ok'') \<and> (ev_Allowed ev \<longleftrightarrow> rs_code resp = 200))"
proof -
  obtain ev w1 where w': "w' = record_ev ev w1" and k: "w_broker w1 = w_broker w" "cw_calls w1 = cw_calls w"
    "ev_RequestID ev = []" "ev_OID ev = pr_OID p" "rs_code resp = 200 \<longleftrightarrow> ev_Status ev = ''ok''"
    "ev_Allowed ev \<longleftrightarrow> rs_code resp = 200"
    and inv: "no_inventory resp \<or> granted sv p (knowledge_verb write) (w_io w)"
    and io: "w_io w1 = w_io w \<or> w_io w1 = w_io w @ [asked p (knowledge_verb write)] \<or>
     (\<exists>c. w_io w1 = w_io w @ [asked p (knowledge_verb write), c] \<and> knowledge_call write c \<and>
        granted sv p (knowledge_verb write) (w_io w) \<and>
        fst (resolveKnown (sv_casing sv) (knowledge_node sv r) (w_broker w)) \<in> listed (w_broker w))"
    by (rule knowledgeHandler_effect [OF assms])
  define new where "new = drop (length (w_io w)) (w_io w1)"
  have n: "w_io w1 = w_io w @ new" "\<not> list_ex is_node_call new" "new = [] \<or> hd new = asked p (knowledge_verb write)"
    "1 < length new \<longrightarrow> (\<exists>c. new = [asked p (knowledge_verb write), c] \<and> knowledge_call write c) \<and>
         granted sv p (knowledge_verb write) (w_io w) \<and>
         fst (resolveKnown (sv_casing sv) (knowledge_node sv r) (w_broker w)) \<in> listed (w_broker w)"
    using io by (auto simp: new_def asked_def knowledge_call_def)
  have w: "cw_calls w' = map_option (cl_Add ev) (cw_calls w)" "w_broker w' = w_broker w" "w_io w' = w_io w @ new"
    by (simp_all add: w' k n(1))
  show ?thesis
    by (rule conjI, rule exI [of _ new], intro conjI w(3) n(2-4), rule conjI [OF w(2)], rule exI [of _ ev],
        intro conjI w(1) k(3-6))
qed

theorem knowledge_goes_to_the_tower_only_witness:
  "\<exists>ev. cw_calls (snd (knowledgeHandler ex_server False (ex_request ''know'') ex_cworld)) =
       Some (cl_Add ev (NewCallLog 10)) \<and> ev_RequestID ev = [] \<and> ev_OID ev = ''u''"
proof -
  obtain resp w' where k: "knowledgeHandler ex_server False (ex_request ''know'') ex_cworld = (resp, w')"
    by fastforce
  have "cw_calls ex_cworld = Some (NewCallLog 10)" "pr_OID ex_principal = ''u''"
    by (simp_all add: ex_cworld_def ex_principal_def)
  with knowledge_goes_to_the_tower_only [OF k ex_auth] show ?thesis by (auto simp: k)
qed

section \<open>The inventory\<close>



end
