(* ===== verification/DesktopRules.thy ===== *)
theory DesktopRules
  imports Json
begin

text \<open>
  The shapes of desktop requests and the rules they must obey before anything is asked of a node:
  \<open>validateDesktopRequest\<close>, \<open>validateDesktopAction\<close>, \<open>validateDesktopLaunch\<close>, \<open>validDesktopChord\<close> of
  \<open>desktop.go\<close> and \<open>validateDesktopInteraction\<close> of \<open>desktop_interaction.go\<close>. A validator gives the error,
  or \<open>None\<close>. A pointer of the source is an option.
\<close>

section \<open>Requests\<close>

record DesktopWindowMatch =
  wm_Class :: string
  wm_Title :: string

record DesktopAction =
  da_Action :: string
  da_Label :: string
  da_Target :: string
  da_X :: "int option"
  da_Y :: "int option"
  da_ToX :: "int option"
  da_ToY :: "int option"
  da_Button :: string
  da_Axis :: string
  da_Steps :: int
  da_DurationMS :: int
  da_Key :: string
  da_Text :: string
  da_ExpectForeground :: "DesktopWindowMatch option"
  da_Until :: string
  da_Window :: "DesktopWindowMatch option"

record DesktopLaunch =
  dl_Command :: string
  dl_Directory :: string
  dl_Wait :: bool
  dl_TimeoutMS :: int

record DesktopInputEvent =
  ie_Type :: string
  ie_Key :: string
  ie_Button :: string
  ie_X :: "int option"
  ie_Y :: "int option"
  ie_DurationMS :: int
  ie_Samples :: int

record DesktopInteraction =
  di_ID :: string
  di_Operation :: string
  di_LeaseMS :: int
  di_Events :: "DesktopInputEvent list"

text \<open>\<open>dr_SessionID\<close> is a \<open>uint32\<close>.\<close>

record desktopRequest =
  dr_Node :: string
  dr_SessionID :: int
  dr_FrameID :: string
  dr_Description :: string
  dr_WaitMS :: int
  dr_IncludeImage :: "bool option"
  dr_Steps :: "DesktopAction list"
  dr_Action :: "DesktopAction option"
  dr_Interaction :: "DesktopInteraction option"
  dr_Force :: bool
  dr_Launch :: "DesktopLaunch option"

section \<open>Launches\<close>

definition desktopLaunchMaxTimeoutMS :: int where
  "desktopLaunchMaxTimeoutMS = 45000"

definition validateDesktopLaunch :: "DesktopLaunch \<Rightarrow> goerror option" where
  "validateDesktopLaunch l =
     (if dl_Command l = [] \<or> 8000 < length (dl_Command l) \<or> 0 \<in> set (runes (dl_Command l)) then
        Some (Errnew ''launch command must be 1..8000 bytes'')
      else if 1024 < length (dl_Directory l) \<or> 0 \<in> set (runes (dl_Directory l)) then
        Some (Errnew ''launch directory too long'')
      else if dl_Wait l \<and> (dl_TimeoutMS l < 1000 \<or> desktopLaunchMaxTimeoutMS < dl_TimeoutMS l) then
        Some (Errorf ''launch with wait needs timeout_ms 1000..%d; use remote_jobs for longer work''
          [ArgN desktopLaunchMaxTimeoutMS])
      else if \<not> dl_Wait l \<and> dl_TimeoutMS l \<noteq> 0 then
        Some (Errnew ''timeout_ms applies only with wait'')
      else None)"

section \<open>Key chords\<close>

definition named_keys :: "string list" where
  "named_keys = [''ENTER'', ''RETURN'', ''ESC'', ''ESCAPE'', ''TAB'', ''SPACE'', ''BACKSPACE'', ''DELETE'', ''DEL'',
     ''INSERT'', ''INS'', ''HOME'', ''END'', ''PAGEUP'', ''PGUP'', ''PAGEDOWN'', ''PGDN'', ''UP'', ''DOWN'', ''LEFT'', ''RIGHT'']"

definition is_upper_digit :: "char \<Rightarrow> bool" where
  "is_upper_digit c \<longleftrightarrow> (65 \<le> byte c \<and> byte c \<le> 90) \<or> is_digit c"

text \<open>The expression \<open>desktopBaseKey\<close>, alternative by alternative; the function keys are F1 to F24.\<close>

definition desktopBaseKey :: "string \<Rightarrow> bool" where
  "desktopBaseKey s \<longleftrightarrow>
     (length s = 1 \<and> is_upper_digit (hd s)) \<or>
     s \<in> set (map (\<lambda>n. CHR ''F'' # nat_digits n) [1..<25]) \<or> s \<in> set named_keys"

definition modifiers :: "string list" where
  "modifiers = [''CTRL'', ''ALT'', ''SHIFT'', ''WIN'']"

definition chord_part :: "string \<Rightarrow> string" where
  "chord_part raw = (let part = TrimSpace raw in if part = ''CONTROL'' then ''CTRL'' else part)"

text \<open>The loop over the parts; \<open>single\<close> says that there is one part in all.\<close>

fun chord_loop :: "bool \<Rightarrow> string list \<Rightarrow> string list \<Rightarrow> bool" where
  "chord_loop single seen [] = False"
| "chord_loop single seen [raw] =
     (let part = chord_part raw in desktopBaseKey part \<or> (single \<and> part \<in> set modifiers))"
| "chord_loop single seen (raw # next # rest) =
     (let part = chord_part raw in
      if part \<notin> set modifiers \<or> part \<in> set seen then False
      else chord_loop single (part # seen) (next # rest))"

definition validDesktopChord :: "string \<Rightarrow> bool" where
  "validDesktopChord key =
     (if length key = 0 \<or> 64 < length key \<or> list_ex (\<lambda>r. 127 < r) (runes key) then False
      else let parts = Split (CHR ''+'') (map upper_byte key) in
        if 5 < length parts then False else chord_loop (length parts = 1) [] parts)"

section \<open>Actions\<close>

definition desktopWaitConditions :: "string list" where
  "desktopWaitConditions = [''window'', ''window_gone'', ''foreground'', ''foreground_changed'', ''cursor_idle'']"

definition match_empty :: "DesktopWindowMatch \<Rightarrow> bool" where
  "match_empty m \<longleftrightarrow> wm_Class m = [] \<and> wm_Title m = []"

definition match_long :: "DesktopWindowMatch \<Rightarrow> bool" where
  "match_long m \<longleftrightarrow> 256 < length (wm_Class m) \<or> 512 < length (wm_Title m)"

definition is_pointer :: "string \<Rightarrow> bool" where
  "is_pointer a \<longleftrightarrow> a = ''click'' \<or> a = ''double_click'' \<or> a = ''move'' \<or> a = ''scroll'' \<or> a = ''drag''"

text \<open>The last part of \<open>validateDesktopAction\<close>, by the kind of the action.\<close>

definition validate_kind :: "DesktopAction \<Rightarrow> goerror option" where
  "validate_kind a =
     (if da_Action a = ''click'' \<or> da_Action a = ''double_click'' \<or> da_Action a = ''move'' then None
      else if da_Action a = ''scroll'' then
        (if (da_Axis a \<noteq> ''vertical'' \<and> da_Axis a \<noteq> ''horizontal'') \<or> da_Steps a = 0 \<or> da_Steps a < - 20 \<or>
            20 < da_Steps a
         then Some (Errnew ''scroll requires axis and signed steps in -20..20'') else None)
      else if da_Action a = ''drag'' then
        (if da_ToX a = None \<or> da_ToY a = None \<or> da_DurationMS a < 100 \<or> 3000 < da_DurationMS a
         then Some (Errnew ''drag requires to_x/to_y and duration_ms 100..3000'') else None)
      else if da_Action a = ''key'' then
        (if \<not> validDesktopChord (da_Key a) \<or> da_Text a \<noteq> [] then Some (Errnew ''invalid key chord: use CTRL/ALT/SHIFT/WIN modifiers plus A-Z, 0-9, F1-F24 or a named navigation key (example CTRL+TAB); no held input across calls'')
         else None)
      else if da_Action a = ''type'' then
        (if da_Text a = [] \<or> 1000 < length (da_Text a) \<or> da_Key a \<noteq> []
         then Some (Errnew ''type requires 1..1000 bytes of text'') else None)
      else if da_Action a = ''wait'' then
        (if da_Until a \<notin> set desktopWaitConditions then
           Some (Errnew ''wait until must be window, window_gone, foreground, foreground_changed or cursor_idle'')
         else if (da_Until a = ''window'' \<or> da_Until a = ''window_gone'' \<or> da_Until a = ''foreground'') \<noteq>
             (da_Window a \<noteq> None) then
           Some (Errnew ''window, window_gone and foreground need window {class,title}; the others take none'')
         else if (case da_Window a of None \<Rightarrow> False | Some m \<Rightarrow> match_empty m \<or> match_long m) then
           Some (Errnew ''wait window needs a class and/or title (class <= 256, title <= 512 bytes)'')
         else if da_DurationMS a < 100 \<or> 15000 < da_DurationMS a \<or> da_Key a \<noteq> [] \<or> da_Text a \<noteq> [] \<or>
             da_ExpectForeground a \<noteq> None then
           Some (Errnew ''wait takes duration_ms 100..15000 as its timeout and no keys, text or expect_foreground'')
         else None)
      else Some (Errnew ''unsupported desktop action''))"

definition validateDesktopAction :: "DesktopAction \<Rightarrow> goerror option" where
  "validateDesktopAction a =
     (if 200 < length (da_Label a) \<or> 500 < length (da_Target a) then
        Some (Errnew ''label or target too long'')
      else if da_Button a \<noteq> [] \<and> da_Button a \<noteq> ''left'' \<and> da_Button a \<noteq> ''right'' \<and> da_Button a \<noteq> ''middle'' then
        Some (Errnew ''invalid mouse button'')
      else if is_pointer (da_Action a) \<and> da_Target a \<noteq> [] \<and> (da_X a \<noteq> None \<or> da_Y a \<noteq> None) then
        Some (Errnew ''use target or coordinates, not both'')
      else if is_pointer (da_Action a) \<and> da_Target a = [] \<and> (da_X a = None \<or> da_Y a = None) then
        Some (Errnew ''pointer action requires x/y or target'')
      else if is_pointer (da_Action a) \<and> (da_Key a \<noteq> [] \<or> da_Text a \<noteq> []) then
        Some (Errnew ''pointer action cannot include key/text'')
      else if \<not> is_pointer (da_Action a) \<and>
          (da_Target a \<noteq> [] \<or> da_X a \<noteq> None \<or> da_Y a \<noteq> None \<or> da_Button a \<noteq> []) then
        Some (Errnew ''key/type cannot include a pointer target'')
      else if da_Action a \<noteq> ''drag'' \<and> (da_ToX a \<noteq> None \<or> da_ToY a \<noteq> None \<or>
          (da_DurationMS a \<noteq> 0 \<and> da_Action a \<noteq> ''wait'')) then
        Some (Errnew ''drag fields require drag'')
      else if da_Action a \<noteq> ''wait'' \<and> (da_Until a \<noteq> [] \<or> da_Window a \<noteq> None) then
        Some (Errnew ''until/window require a wait'')
      else if da_Action a \<noteq> ''scroll'' \<and> (da_Axis a \<noteq> [] \<or> da_Steps a \<noteq> 0) then
        Some (Errnew ''scroll fields require scroll'')
      else case da_ExpectForeground a of
        None \<Rightarrow> validate_kind a
      | Some m \<Rightarrow>
          (if match_empty m then Some (Errnew ''expect_foreground requires class and/or title'')
           else if match_long m then Some (Errnew ''expect_foreground class or title too long'')
           else validate_kind a))"

section \<open>Interactions\<close>

definition validInteractionKey :: "string \<Rightarrow> bool" where
  "validInteractionKey key \<longleftrightarrow> key \<noteq> [] \<and> \<not> Contains key ''+'' \<and> validDesktopChord key"

text \<open>One turn of the loop: the error, or the duration and the number of frames so far.\<close>

definition event_step :: "DesktopInputEvent \<Rightarrow> int \<times> int \<Rightarrow> (int \<times> int) res" where
  "event_step e acc =
     (let (ms, frames) = acc; t = ie_Type e in
      if ie_DurationMS e < 0 \<or> 3000 < ie_DurationMS e \<or> ie_Samples e < 0 \<or> 4 < ie_Samples e then
        Inl (Errnew ''duration_ms must be 0..3000 and samples 0..4'')
      else if t \<noteq> ''move'' \<and> t \<noteq> ''wait'' \<and> ie_DurationMS e \<noteq> 0 then
        Inl (Errnew ''duration_ms only applies to move/wait'')
      else if t \<noteq> ''move'' \<and> ie_Samples e \<noteq> 0 then Inl (Errnew ''samples only applies to move'')
      else if t \<noteq> ''move'' \<and> (ie_X e \<noteq> None \<or> ie_Y e \<noteq> None) then
        Inl (Errnew ''coordinates only apply to move'')
      else if t \<noteq> ''key_down'' \<and> t \<noteq> ''key_up'' \<and> t \<noteq> ''key_press'' \<and> ie_Key e \<noteq> [] then
        Inl (Errnew ''key requires a keyboard event'')
      else if t \<noteq> ''button_down'' \<and> t \<noteq> ''button_up'' \<and> ie_Button e \<noteq> [] then
        Inl (Errnew ''button requires a button event'')
      else if t = ''key_down'' \<or> t = ''key_up'' \<or> t = ''key_press'' then
        (if \<not> validInteractionKey (ie_Key e) then
           Inl (Errnew ''event requires one named key; hold modifiers with key_down'')
         else Inr (ms + (if t = ''key_press'' then 80 else 0) + ie_DurationMS e, frames))
      else if t = ''button_down'' \<or> t = ''button_up'' then
        (if ie_Button e \<noteq> ''left'' \<and> ie_Button e \<noteq> ''right'' \<and> ie_Button e \<noteq> ''middle'' then
           Inl (Errnew ''event requires left/right/middle button'')
         else Inr (ms + ie_DurationMS e, frames))
      else if t = ''move'' then
        (case (ie_X e, ie_Y e) of
           (Some x, Some y) \<Rightarrow>
             (if x < 0 \<or> y < 0 \<or> 16000 < x \<or> 16000 < y then Inl (Errnew ''move requires x/y'')
              else if 0 < ie_Samples e \<and> ie_DurationMS e < 100 then
                Inl (Errnew ''sampled movement requires duration_ms >=100'')
              else Inr (ms + ie_DurationMS e, frames + ie_Samples e))
         | _ \<Rightarrow> Inl (Errnew ''move requires x/y''))
      else if t = ''wait'' then
        (if ie_DurationMS e < 1 then Inl (Errnew ''wait requires duration_ms'')
         else Inr (ms + ie_DurationMS e, frames))
      else if t = ''capture'' then Inr (ms + ie_DurationMS e, frames + 1)
      else Inl (Errnew ''unsupported interaction event''))"

fun event_loop :: "DesktopInputEvent list \<Rightarrow> int \<times> int \<Rightarrow> (int \<times> int) res" where
  "event_loop [] acc = Inr acc"
| "event_loop (e # es) acc = (case event_step e acc of Inl x \<Rightarrow> Inl x | Inr acc' \<Rightarrow> event_loop es acc')"

definition validateDesktopInteraction :: "DesktopInteraction option \<Rightarrow> goerror option" where
  "validateDesktopInteraction io = (case io of None \<Rightarrow> Some (Errnew ''interaction required'')
   | Some i \<Rightarrow>
     (if di_Operation i \<notin> set [''begin'', ''continue'', ''observe'', ''release'', ''cancel''] then
        Some (Errnew ''invalid interaction operation'')
      else if di_LeaseMS i \<noteq> 0 \<and> (di_LeaseMS i < 1000 \<or> 60000 < di_LeaseMS i) then
        Some (Errnew ''lease_ms must be 1000..60000; default 60000'')
      else if 16 < length (di_Events i) then Some (Errnew ''at most 16 input events per call'')
      else if di_Operation i \<noteq> ''begin'' \<and> di_Operation i \<noteq> ''continue'' \<and> di_Events i \<noteq> [] then
        Some (Errnew ''only begin/continue accept input events'')
      else case event_loop (di_Events i) (0, 1) of
        Inl x \<Rightarrow> Some x
      | Inr (ms, frames) \<Rightarrow>
          (if 10000 < ms then Some (Errnew ''input sequence exceeds 10 seconds'')
           else if 6 < frames then
             Some (Errnew ''at most six images per response, including final checkpoint'')
           else None)))"

section \<open>Whole requests\<close>

definition desktopID :: "string \<Rightarrow> bool" where
  "desktopID s \<longleftrightarrow> length s = 32 \<and> list_all (\<lambda>c. (97 \<le> byte c \<and> byte c \<le> 102) \<or> is_digit c) s"

fun first_error :: "goerror option list \<Rightarrow> goerror option" where
  "first_error [] = None"
| "first_error (None # es) = first_error es"
| "first_error (Some e # es) = Some e"

definition only_node :: "desktopRequest \<Rightarrow> bool" where
  "only_node r \<longleftrightarrow> dr_SessionID r = 0 \<and> dr_FrameID r = [] \<and> dr_Description r = [] \<and> dr_WaitMS r = 0 \<and>
     dr_IncludeImage r = None \<and> dr_Steps r = [] \<and> dr_Action r = None \<and> dr_Interaction r = None \<and>
     \<not> dr_Force r \<and> dr_Launch r = None"

text \<open>The head of an interaction request.\<close>

definition validate_interact :: "desktopRequest \<Rightarrow> goerror option" where
  "validate_interact r =
     (if dr_Action r \<noteq> None \<or> dr_Steps r \<noteq> [] \<or> dr_Description r \<noteq> [] \<or> dr_WaitMS r \<noteq> 0 then
        Some (Errnew ''interaction cannot contain legacy action fields'')
      else case validateDesktopInteraction (dr_Interaction r) of Some e \<Rightarrow> Some e
      | None \<Rightarrow> (case dr_Interaction r of None \<Rightarrow> None | Some i \<Rightarrow>
          (if di_Operation i = ''begin'' \<and> di_ID i \<noteq> [] then
             Some (Errnew ''begin does not accept an interaction_id'')
           else if di_Operation i \<noteq> ''begin'' \<and> \<not> desktopID (di_ID i) then
             Some (Errnew ''valid interaction_id required'')
           else if (di_Operation i = ''begin'' \<or> di_Operation i = ''continue'') \<and> \<not> desktopID (dr_FrameID r) then
             Some (Errnew ''begin/continue require a fresh frame_id'')
           else None)))"

text \<open>What every operation but status and login checks, and the rules of single operations.\<close>

definition validate_op :: "string \<Rightarrow> desktopRequest \<Rightarrow> goerror option" where
  "validate_op op r =
     (if op = ''lock'' then
        (if dr_FrameID r \<noteq> [] \<or> dr_Action r \<noteq> None \<or> dr_Steps r \<noteq> [] \<or> dr_Description r \<noteq> [] \<or> dr_WaitMS r \<noteq> 0
         then Some (Errnew ''lock takes only node and optional session_id'') else None)
      else if op = ''recover'' then
        (if dr_SessionID r \<noteq> 0 \<or> dr_FrameID r \<noteq> [] \<or> dr_Action r \<noteq> None \<or> dr_Steps r \<noteq> [] \<or>
            dr_Description r \<noteq> [] \<or> dr_WaitMS r \<noteq> 0
         then Some (Errnew ''recover takes only node; it never replaces an existing user's session'') else None)
      else if op = ''launch'' then
        (if dr_Action r \<noteq> None \<or> dr_Steps r \<noteq> [] \<or> dr_FrameID r \<noteq> [] \<or> dr_Description r \<noteq> [] \<or> dr_WaitMS r \<noteq> 0
         then Some (Errnew ''launch takes only node, session_id and launch'')
         else case dr_Launch r of None \<Rightarrow> None | Some l \<Rightarrow> validateDesktopLaunch l)
      else if op = ''wait'' then
        (case dr_Action r of None \<Rightarrow> Some (Errnew ''wait takes node, session_id and a wait action'')
         | Some a \<Rightarrow>
            (if da_Action a \<noteq> ''wait'' \<or> dr_FrameID r \<noteq> [] \<or> dr_Steps r \<noteq> [] \<or> dr_WaitMS r \<noteq> 0
             then Some (Errnew ''wait takes node, session_id and a wait action'')
             else validateDesktopAction a))
      else if op = ''attach_console'' \<and> (dr_SessionID r = 0 \<or> dr_FrameID r \<noteq> [] \<or> dr_Action r \<noteq> None \<or>
          dr_Steps r \<noteq> [] \<or> dr_Description r \<noteq> [] \<or> dr_WaitMS r \<noteq> 0) then
        Some (Errnew ''attach_console takes only node, session_id and force'')
      else if op = ''find'' \<and> (length (dr_Description r) = 0 \<or> 500 < length (dr_Description r)) then
        Some (Errnew ''description must be 1..500 bytes'')
      else if (op = ''find'' \<or> op = ''act'' \<or> op = ''frame'') \<and> \<not> desktopID (dr_FrameID r) then
        Some (Errnew ''valid frame_id required'')
      else if op = ''act'' then
        (case dr_Action r of None \<Rightarrow> Some (Errnew ''action required'')
         | Some a \<Rightarrow>
            (if da_Target a \<noteq> [] then Some (Errnew ''use find or task for named targets'')
             else if da_Action a = ''wait'' then
               Some (Errnew ''use desktop_wait or a desktop_task step to wait'')
             else validateDesktopAction a))
      else if op = ''task'' then
        (if length (dr_Steps r) < 1 \<or> 8 < length (dr_Steps r) then
           Some (Errnew ''task requires 1..8 steps'')
         else first_error (map validateDesktopAction (dr_Steps r)))
      else None)"

definition validateDesktopRequest :: "string \<Rightarrow> desktopRequest \<Rightarrow> goerror option" where
  "validateDesktopRequest op r =
     (if dr_Node r = [] \<or> 255 < length (dr_Node r) then Some (Errnew ''node required'')
      else if op = ''status'' \<or> op = ''login'' then
        (if \<not> only_node r then
           Some (Errnew ''status/login take only node; caller identity comes from authentication'')
         else None)
      else case (if op = ''interact'' then validate_interact r
          else if dr_Interaction r \<noteq> None then Some (Errnew ''interaction fields require interact'') else None) of
        Some e \<Rightarrow> Some e
      | None \<Rightarrow>
        (if dr_WaitMS r < 0 \<or> 3000 < dr_WaitMS r then Some (Errnew ''wait_ms must be 0..3000'')
         else if dr_Force r \<and> op \<noteq> ''attach_console'' then
           Some (Errnew ''force only applies to attach_console'')
         else if (dr_Launch r \<noteq> None) \<noteq> (op = ''launch'') then
           Some (Errnew ''launch fields belong to launch only'')
         else validate_op op r))"

section \<open>The grammar of chords\<close>

lemma chord_loop_iff:
  "chord_loop single seen parts \<longleftrightarrow>
     (\<exists>mods k. map chord_part parts = mods @ [k] \<and> distinct mods \<and> set mods \<subseteq> set modifiers - set seen \<and>
        (desktopBaseKey k \<or> (single \<and> k \<in> set modifiers)))"
proof (induction single seen parts rule: chord_loop.induct)
  case (3 single seen raw nxt rest)
  let ?p = "chord_part raw" and ?m = "map chord_part (nxt # rest)"
  have split: "(\<exists>mods k. ?p # ?m = mods @ [k] \<and> P mods k) \<longleftrightarrow> (\<exists>mods k. ?m = mods @ [k] \<and> P (?p # mods) k)" for P
  proof
    assume "\<exists>mods k. ?p # ?m = mods @ [k] \<and> P mods k"
    then obtain mods k where m: "?p # ?m = mods @ [k]" "P mods k" by blast
    then obtain ms where "mods = ?p # ms" by (cases mods) auto
    then show "\<exists>mods k. ?m = mods @ [k] \<and> P (?p # mods) k" using m by auto
  next
    assume "\<exists>mods k. ?m = mods @ [k] \<and> P (?p # mods) k"
    then obtain ms k where "?m = ms @ [k]" "P (?p # ms) k" by blast
    then show "\<exists>mods k. ?p # ?m = mods @ [k] \<and> P mods k" by (intro exI [of _ "?p # ms"] exI [of _ k]) simp
  qed
  have "chord_loop single seen (raw # nxt # rest) \<longleftrightarrow>
      ?p \<in> set modifiers \<and> ?p \<notin> set seen \<and> chord_loop single (?p # seen) (nxt # rest)"
    by (simp add: Let_def)
  also have "\<dots> \<longleftrightarrow> (\<exists>mods k. ?p # ?m = mods @ [k] \<and> distinct mods \<and> set mods \<subseteq> set modifiers - set seen \<and>
        (desktopBaseKey k \<or> (single \<and> k \<in> set modifiers)))"
  proof (cases "?p \<in> set modifiers \<and> ?p \<notin> set seen")
    case True
    then show ?thesis using "3.IH" [OF refl] unfolding split by auto
  next
    case False
    then show ?thesis unfolding split by auto
  qed
  finally show ?case by simp
qed (auto simp: Let_def)

lemma high_runes: "list_all (\<lambda>r. r < 128) (runes s) \<longleftrightarrow> list_all (\<lambda>c. byte c < 128) s"
proof
  assume a: "list_all (\<lambda>r. r < 128) (runes s)"
  have "ValidString s" using a by (auto simp: ValidString_def runes_def list_all_iff RuneError_def)
  then have s: "concat (map encode_rune (runes s)) = s" using string_of_runes by (simp add: string_of_def)
  have "byte c < 128" if "c \<in> set (encode_rune r)" "r < 128" for c r
    using that by (simp add: encode_rune_def rune_bytes_def)
  then have "list_all (\<lambda>c. byte c < 128) (concat (map encode_rune (runes s)))"
    using a by (auto simp: list_all_iff)
  then show "list_all (\<lambda>c. byte c < 128) s" unfolding s .
next
  assume "list_all (\<lambda>c. byte c < 128) s"
  then show "list_all (\<lambda>r. r < 128) (runes s)"
  proof (induction s)
    case (Cons c s)
    then have "scalar (byte c)" "encode_rune (byte c) = [c]"
      by (auto simp: scalar_def encode_rune_def rune_bytes_def)
    then show ?case using Cons runes_encode [of "byte c" s] by simp
  qed simp
qed

text \<open>A key chord is accepted exactly when it is plain ASCII of at most 64 bytes and, but for case,
  spaces and the name CONTROL, consists of different modifiers followed by one key of the fixed list, or
  is one modifier alone. No expression, no second key and no repeated modifier gets through.\<close>

theorem chord_grammar:
  "validDesktopChord key \<longleftrightarrow> key \<noteq> [] \<and> length key \<le> 64 \<and> list_all (\<lambda>c. byte c < 128) key \<and>
     (\<exists>mods k. map chord_part (Split CHR ''+'' (map upper_byte key)) = mods @ [k] \<and>
        distinct mods \<and> set mods \<subseteq> {''CTRL'', ''ALT'', ''SHIFT'', ''WIN''} \<and>
        (desktopBaseKey k \<or> (mods = [] \<and> k \<in> {''CTRL'', ''ALT'', ''SHIFT'', ''WIN''})))"
proof -
  let ?parts = "Split CHR ''+'' (map upper_byte key)"
  have m: "set modifiers = {''CTRL'', ''ALT'', ''SHIFT'', ''WIN''}" by (simp add: modifiers_def)
  have r: "\<not> list_ex (\<lambda>r. 127 < r) (runes key) \<longleftrightarrow> list_all (\<lambda>c. byte c < 128) key"
    unfolding high_runes [symmetric] by (auto simp: list_all_iff list_ex_iff)
  have short: "length mods \<le> 4" if "distinct mods" "set mods \<subseteq> set modifiers" for mods :: "string list"
  proof -
    have "length mods = card (set mods)" using that(1) by (simp add: distinct_card)
    also have "\<dots> \<le> card (set modifiers)" using that(2) by (intro card_mono) auto
    also have "\<dots> = 4" by (simp add: modifiers_def)
    finally show ?thesis .
  qed
  have len: "length ?parts = Suc (length mods)" if "map chord_part ?parts = mods @ [k]" for mods k
    using arg_cong [OF that, of length] by simp
  have "chord_loop (length ?parts = 1) [] ?parts \<and> length ?parts \<le> 5 \<longleftrightarrow>
      (\<exists>mods k. map chord_part ?parts = mods @ [k] \<and> distinct mods \<and> set mods \<subseteq> set modifiers \<and>
        (desktopBaseKey k \<or> (mods = [] \<and> k \<in> set modifiers)))"
    unfolding chord_loop_iff using short len by fastforce
  then show ?thesis unfolding m using r by (auto simp: validDesktopChord_def Let_def not_less)
qed

section \<open>The budget of an interaction\<close>

definition event_ms :: "DesktopInputEvent \<Rightarrow> int" where
  "event_ms e = ie_DurationMS e + (if ie_Type e = ''key_press'' then 80 else 0)"

definition event_images :: "DesktopInputEvent \<Rightarrow> int" where
  "event_images e = (if ie_Type e = ''move'' then ie_Samples e else if ie_Type e = ''capture'' then 1 else 0)"

text \<open>An event that moves inside the largest image, presses one key, or uses one of three buttons.\<close>

definition event_ok :: "DesktopInputEvent \<Rightarrow> bool" where
  "event_ok e \<longleftrightarrow> 0 \<le> event_ms e \<and> 0 \<le> event_images e \<and>
     (if ie_Type e \<in> {''key_down'', ''key_up'', ''key_press''} then validInteractionKey (ie_Key e) else ie_Key e = []) \<and>
     (if ie_Type e \<in> {''button_down'', ''button_up''} then ie_Button e \<in> {''left'', ''right'', ''middle''}
      else ie_Button e = []) \<and>
     (if ie_Type e = ''move'' then \<exists>x y. ie_X e = Some x \<and> ie_Y e = Some y \<and> 0 \<le> x \<and> x \<le> 16000 \<and> 0 \<le> y \<and> y \<le> 16000
      else ie_X e = None \<and> ie_Y e = None)"

lemma event_step_Inr:
  assumes "event_step e (ms, f) = Inr (ms', f')"
  shows "ms' = ms + event_ms e \<and> f' = f + event_images e \<and> event_ok e"
proof -
  have t: "ie_Type e \<in> {''key_down'', ''key_up'', ''key_press'', ''button_down'', ''button_up'', ''move'', ''wait'', ''capture''}"
    using assms by (auto simp: event_step_def Let_def split: if_splits)
  then show ?thesis
    using assms by (elim insertE emptyE)
      (auto simp: event_step_def event_ms_def event_images_def event_ok_def Let_def
        split: if_splits option.splits)
qed

lemma event_loop_Inr:
  "event_loop es (ms, f) = Inr (ms', f') \<Longrightarrow>
     ms' = ms + sum_list (map event_ms es) \<and> f' = f + sum_list (map event_images es) \<and> list_all event_ok es"
proof (induction es arbitrary: ms f)
  case (Cons e es)
  obtain m1 f1 where s: "event_step e (ms, f) = Inr (m1, f1)" "event_loop es (m1, f1) = Inr (ms', f')"
    using Cons.prems by (auto split: sum.splits)
  show ?case using event_step_Inr [OF s(1)] Cons.IH [OF s(2)] by simp
qed simp

text \<open>An accepted interaction stays within its budget, whatever its events are: at most 16 events, ten
  seconds of input and six images with the final checkpoint, a lease of at most a minute, and events
  only in a begin or a continue. Every event presses one key or one button, or moves inside the
  largest screen, and no duration is negative, so the sums are exact.\<close>

theorem interaction_budget:
  assumes "validateDesktopInteraction (Some i) = None"
  shows "length (di_Events i) \<le> 16 \<and> sum_list (map event_ms (di_Events i)) \<le> 10000 \<and>
    1 + sum_list (map event_images (di_Events i)) \<le> 6 \<and> list_all event_ok (di_Events i) \<and>
    (di_LeaseMS i = 0 \<or> 1000 \<le> di_LeaseMS i \<and> di_LeaseMS i \<le> 60000) \<and>
    (di_Events i = [] \<or> di_Operation i = ''begin'' \<or> di_Operation i = ''continue'')"
proof -
  obtain ms f where l: "event_loop (di_Events i) (0, 1) = Inr (ms, f)" and b: "ms \<le> 10000" "f \<le> 6"
    using assms by (auto simp: validateDesktopInteraction_def split: if_splits sum.splits)
  show ?thesis using event_loop_Inr [OF l] b assms
    by (auto simp: validateDesktopInteraction_def split: if_splits)
qed

definition ex_event :: "string \<Rightarrow> DesktopInputEvent" where
  "ex_event typ = \<lparr>ie_Type = typ, ie_Key = [], ie_Button = [], ie_X = None, ie_Y = None, ie_DurationMS = 0,
     ie_Samples = 0\<rparr>"

definition ex_interaction :: DesktopInteraction where
  "ex_interaction = \<lparr>di_ID = [], di_Operation = ''begin'', di_LeaseMS = 0,
     di_Events = [ex_event ''capture'', (ex_event ''wait'')\<lparr>ie_DurationMS := 500\<rparr>]\<rparr>"

theorem interaction_budget_witness:
  "validateDesktopInteraction (Some ex_interaction) = None \<and>
   sum_list (map event_ms (di_Events ex_interaction)) = 500 \<and> list_all event_ok (di_Events ex_interaction)"
proof -
  have v: "validateDesktopInteraction (Some ex_interaction) = None"
    by (simp add: validateDesktopInteraction_def ex_interaction_def ex_event_def event_step_def)
  have "sum_list (map event_ms (di_Events ex_interaction)) = 500"
    by (simp add: ex_interaction_def ex_event_def event_ms_def)
  with v interaction_budget [OF v] show ?thesis by blast
qed

end
