(* ===== verification/DesktopJson.thy ===== *)
theory DesktopJson
  imports DesktopRules Control
begin

text \<open>
  How desktop requests are read and what of them is sent on: the struct tags of \<open>desktop.go\<close> and
  \<open>desktop_interaction.go\<close> as setters for decoding and as objects for encoding. The handler decodes with
  \<open>DisallowUnknownFields\<close>, so a member that is no field is an error there; \<open>strict\<close> says so.
\<close>

section \<open>Reading\<close>

definition unknown :: "bool \<Rightarrow> 'a \<Rightarrow> 'a option" where
  "unknown strict v = (if strict then None else Some v)"

definition zero_window :: DesktopWindowMatch where
  "zero_window = \<lparr>wm_Class = [], wm_Title = []\<rparr>"

definition window_field :: "bool \<Rightarrow> string \<Rightarrow> json \<Rightarrow> DesktopWindowMatch \<Rightarrow> DesktopWindowMatch option" where
  "window_field strict k j v =
     (if k = ''class'' then set_string (\<lambda>s. wm_Class_update (\<lambda>_. s)) j v
      else if k = ''title'' then set_string (\<lambda>s. wm_Title_update (\<lambda>_. s)) j v
      else unknown strict v)"

definition zero_action :: DesktopAction where
  "zero_action = \<lparr>da_Action = [], da_Label = [], da_Target = [], da_X = None, da_Y = None, da_ToX = None,
     da_ToY = None, da_Button = [], da_Axis = [], da_Steps = 0, da_DurationMS = 0, da_Key = [], da_Text = [],
     da_ExpectForeground = None, da_Until = [], da_Window = None\<rparr>"

definition action_field :: "bool \<Rightarrow> string \<Rightarrow> json \<Rightarrow> DesktopAction \<Rightarrow> DesktopAction option" where
  "action_field strict k j v =
     (if k = ''action'' then set_string (\<lambda>s. da_Action_update (\<lambda>_. s)) j v
      else if k = ''label'' then set_string (\<lambda>s. da_Label_update (\<lambda>_. s)) j v
      else if k = ''target'' then set_string (\<lambda>s. da_Target_update (\<lambda>_. s)) j v
      else if k = ''x'' then set_ptr_int (\<lambda>n. da_X_update (\<lambda>_. n)) j v
      else if k = ''y'' then set_ptr_int (\<lambda>n. da_Y_update (\<lambda>_. n)) j v
      else if k = ''to_x'' then set_ptr_int (\<lambda>n. da_ToX_update (\<lambda>_. n)) j v
      else if k = ''to_y'' then set_ptr_int (\<lambda>n. da_ToY_update (\<lambda>_. n)) j v
      else if k = ''button'' then set_string (\<lambda>s. da_Button_update (\<lambda>_. s)) j v
      else if k = ''axis'' then set_string (\<lambda>s. da_Axis_update (\<lambda>_. s)) j v
      else if k = ''steps'' then set_int (\<lambda>n. da_Steps_update (\<lambda>_. n)) j v
      else if k = ''duration_ms'' then set_int (\<lambda>n. da_DurationMS_update (\<lambda>_. n)) j v
      else if k = ''key'' then set_string (\<lambda>s. da_Key_update (\<lambda>_. s)) j v
      else if k = ''text'' then set_string (\<lambda>s. da_Text_update (\<lambda>_. s)) j v
      else if k = ''expect_foreground'' then
        set_ptr_struct (window_field strict) zero_window (da_ExpectForeground v) (\<lambda>m. da_ExpectForeground_update (\<lambda>_. m)) j v
      else if k = ''until'' then set_string (\<lambda>s. da_Until_update (\<lambda>_. s)) j v
      else if k = ''window'' then
        set_ptr_struct (window_field strict) zero_window (da_Window v) (\<lambda>m. da_Window_update (\<lambda>_. m)) j v
      else unknown strict v)"

definition zero_launch :: DesktopLaunch where
  "zero_launch = \<lparr>dl_Command = [], dl_Directory = [], dl_Wait = False, dl_TimeoutMS = 0\<rparr>"

definition launch_field :: "bool \<Rightarrow> string \<Rightarrow> json \<Rightarrow> DesktopLaunch \<Rightarrow> DesktopLaunch option" where
  "launch_field strict k j v =
     (if k = ''command'' then set_string (\<lambda>s. dl_Command_update (\<lambda>_. s)) j v
      else if k = ''directory'' then set_string (\<lambda>s. dl_Directory_update (\<lambda>_. s)) j v
      else if k = ''wait'' then set_bool (\<lambda>b. dl_Wait_update (\<lambda>_. b)) j v
      else if k = ''timeout_ms'' then set_int (\<lambda>n. dl_TimeoutMS_update (\<lambda>_. n)) j v
      else unknown strict v)"

definition zero_input :: DesktopInputEvent where
  "zero_input = \<lparr>ie_Type = [], ie_Key = [], ie_Button = [], ie_X = None, ie_Y = None, ie_DurationMS = 0,
     ie_Samples = 0\<rparr>"

definition input_field :: "bool \<Rightarrow> string \<Rightarrow> json \<Rightarrow> DesktopInputEvent \<Rightarrow> DesktopInputEvent option" where
  "input_field strict k j v =
     (if k = ''type'' then set_string (\<lambda>s. ie_Type_update (\<lambda>_. s)) j v
      else if k = ''key'' then set_string (\<lambda>s. ie_Key_update (\<lambda>_. s)) j v
      else if k = ''button'' then set_string (\<lambda>s. ie_Button_update (\<lambda>_. s)) j v
      else if k = ''x'' then set_ptr_int (\<lambda>n. ie_X_update (\<lambda>_. n)) j v
      else if k = ''y'' then set_ptr_int (\<lambda>n. ie_Y_update (\<lambda>_. n)) j v
      else if k = ''duration_ms'' then set_int (\<lambda>n. ie_DurationMS_update (\<lambda>_. n)) j v
      else if k = ''samples'' then set_int (\<lambda>n. ie_Samples_update (\<lambda>_. n)) j v
      else unknown strict v)"

definition zero_interaction :: DesktopInteraction where
  "zero_interaction = \<lparr>di_ID = [], di_Operation = [], di_LeaseMS = 0, di_Events = []\<rparr>"

definition interaction_field :: "bool \<Rightarrow> string \<Rightarrow> json \<Rightarrow> DesktopInteraction \<Rightarrow> DesktopInteraction option" where
  "interaction_field strict k j v =
     (if k = ''interaction_id'' then set_string (\<lambda>s. di_ID_update (\<lambda>_. s)) j v
      else if k = ''operation'' then set_string (\<lambda>s. di_Operation_update (\<lambda>_. s)) j v
      else if k = ''lease_ms'' then set_int (\<lambda>n. di_LeaseMS_update (\<lambda>_. n)) j v
      else if k = ''events'' then
        set_slice (input_field strict) zero_input (di_Events v) (\<lambda>es. di_Events_update (\<lambda>_. es)) j v
      else unknown strict v)"

definition zero_request :: desktopRequest where
  "zero_request = \<lparr>dr_Node = [], dr_SessionID = 0, dr_FrameID = [], dr_Description = [], dr_WaitMS = 0,
     dr_IncludeImage = None, dr_Steps = [], dr_Action = None, dr_Interaction = None, dr_Force = False,
     dr_Launch = None\<rparr>"

fun set_uint32 :: "(int \<Rightarrow> 'a \<Rightarrow> 'a) \<Rightarrow> json \<Rightarrow> 'a \<Rightarrow> 'a option" where
  "set_uint32 f (JInt n) v = (if 0 \<le> n \<and> n < 2 ^ 32 then Some (f n v) else None)"
| "set_uint32 f JNull v = Some v"
| "set_uint32 f _ v = None"

fun set_ptr_bool :: "(bool option \<Rightarrow> 'a \<Rightarrow> 'a) \<Rightarrow> json \<Rightarrow> 'a \<Rightarrow> 'a option" where
  "set_ptr_bool f (JBool b) v = Some (f (Some b) v)"
| "set_ptr_bool f JNull v = Some (f None v)"
| "set_ptr_bool f _ v = None"

definition request_field :: "string \<Rightarrow> json \<Rightarrow> desktopRequest \<Rightarrow> desktopRequest option" where
  "request_field k j v =
     (if k = ''node'' then set_string (\<lambda>s. dr_Node_update (\<lambda>_. s)) j v
      else if k = ''session_id'' then set_uint32 (\<lambda>n. dr_SessionID_update (\<lambda>_. n)) j v
      else if k = ''frame_id'' then set_string (\<lambda>s. dr_FrameID_update (\<lambda>_. s)) j v
      else if k = ''description'' then set_string (\<lambda>s. dr_Description_update (\<lambda>_. s)) j v
      else if k = ''wait_ms'' then set_int (\<lambda>n. dr_WaitMS_update (\<lambda>_. n)) j v
      else if k = ''include_image'' then set_ptr_bool (\<lambda>b. dr_IncludeImage_update (\<lambda>_. b)) j v
      else if k = ''steps'' then
        set_slice (action_field True) zero_action (dr_Steps v) (\<lambda>as. dr_Steps_update (\<lambda>_. as)) j v
      else if k = ''action'' then
        set_ptr_struct (action_field True) zero_action (dr_Action v) (\<lambda>a. dr_Action_update (\<lambda>_. a)) j v
      else if k = ''interaction'' then
        set_ptr_struct (interaction_field True) zero_interaction (dr_Interaction v) (\<lambda>i. dr_Interaction_update (\<lambda>_. i)) j v
      else if k = ''force'' then set_bool (\<lambda>b. dr_Force_update (\<lambda>_. b)) j v
      else if k = ''launch'' then
        set_ptr_struct (launch_field True) zero_launch (dr_Launch v) (\<lambda>l. dr_Launch_update (\<lambda>_. l)) j v
      else None)"

text \<open>A body holds one document of at most 24,000 bytes.\<close>

definition decode_request :: "golib \<Rightarrow> string \<Rightarrow> desktopRequest option" where
  "decode_request lib body =
     (if 24000 < length body then None
      else case decode_into request_field zero_request (gl_unmarshal lib body) of
        (r, ok) \<Rightarrow> if ok then Some r else None)"

section \<open>Writing\<close>

definition omit_ptr :: "string \<Rightarrow> ('a \<Rightarrow> json) \<Rightarrow> 'a option \<Rightarrow> jobj" where
  "omit_ptr k f x = (case x of None \<Rightarrow> [] | Some v \<Rightarrow> [(k, f v)])"

definition window_json :: "DesktopWindowMatch \<Rightarrow> json" where
  "window_json m = JObj (omitempty ''class'' (wm_Class m = []) (JStr (wm_Class m)) @
     omitempty ''title'' (wm_Title m = []) (JStr (wm_Title m)))"

definition action_json :: "DesktopAction \<Rightarrow> jobj" where
  "action_json a = [(''action'', JStr (da_Action a))] @ omitempty ''label'' (da_Label a = []) (JStr (da_Label a)) @
     omitempty ''target'' (da_Target a = []) (JStr (da_Target a)) @ omit_ptr ''x'' JInt (da_X a) @
     omit_ptr ''y'' JInt (da_Y a) @ omit_ptr ''to_x'' JInt (da_ToX a) @ omit_ptr ''to_y'' JInt (da_ToY a) @
     omitempty ''button'' (da_Button a = []) (JStr (da_Button a)) @ omitempty ''axis'' (da_Axis a = []) (JStr (da_Axis a)) @
     omitempty ''steps'' (da_Steps a = 0) (JInt (da_Steps a)) @
     omitempty ''duration_ms'' (da_DurationMS a = 0) (JInt (da_DurationMS a)) @
     omitempty ''key'' (da_Key a = []) (JStr (da_Key a)) @ omitempty ''text'' (da_Text a = []) (JStr (da_Text a)) @
     omit_ptr ''expect_foreground'' window_json (da_ExpectForeground a) @
     omitempty ''until'' (da_Until a = []) (JStr (da_Until a)) @ omit_ptr ''window'' window_json (da_Window a)"

definition launch_json :: "DesktopLaunch \<Rightarrow> jobj" where
  "launch_json l = [(''command'', JStr (dl_Command l))] @
     omitempty ''directory'' (dl_Directory l = []) (JStr (dl_Directory l)) @
     omitempty ''wait'' (\<not> dl_Wait l) (JBool (dl_Wait l)) @
     omitempty ''timeout_ms'' (dl_TimeoutMS l = 0) (JInt (dl_TimeoutMS l))"

definition input_json :: "DesktopInputEvent \<Rightarrow> json" where
  "input_json e = JObj ([(''type'', JStr (ie_Type e))] @ omitempty ''key'' (ie_Key e = []) (JStr (ie_Key e)) @
     omitempty ''button'' (ie_Button e = []) (JStr (ie_Button e)) @ omit_ptr ''x'' JInt (ie_X e) @
     omit_ptr ''y'' JInt (ie_Y e) @ omitempty ''duration_ms'' (ie_DurationMS e = 0) (JInt (ie_DurationMS e)) @
     omitempty ''samples'' (ie_Samples e = 0) (JInt (ie_Samples e)))"

definition interaction_json :: "DesktopInteraction \<Rightarrow> jobj" where
  "interaction_json i = omitempty ''interaction_id'' (di_ID i = []) (JStr (di_ID i)) @
     [(''operation'', JStr (di_Operation i))] @ omitempty ''lease_ms'' (di_LeaseMS i = 0) (JInt (di_LeaseMS i)) @
     omitempty ''events'' (di_Events i = []) (JArr (map input_json (di_Events i)))"

text \<open>An action as the audit log shows it: the digest of typed text in place of the text.\<close>

definition desktopActionSummary :: "golib \<Rightarrow> DesktopAction \<Rightarrow> jobj" where
  "desktopActionSummary lib a =
     (let out = action_json a in
      if da_Text a = [] then out
      else jput ''text_sha256'' (JStr (hex_encode (gl_sha256 lib (da_Text a))))
        (jput ''text_bytes'' (JInt (int (length (da_Text a)))) (jdel ''text'' out)))"

section \<open>What is sent is what was validated\<close>

definition int64 :: "int \<Rightarrow> bool" where
  "int64 n \<longleftrightarrow> - (2 ^ 63) \<le> n \<and> n < 2 ^ 63"

text \<open>One step of decoding per member of an encoded object, by the kind of its field.\<close>

lemma decode_str:
  assumes "\<And>j. f (fold_key k) j v = set_string u j v"
  shows "decode_struct f ((k, JStr s) # ys) v = decode_struct f ys (u s v)"
  using assms by simp

lemma decode_omit_str:
  assumes "\<And>j. f (fold_key k) j v = set_string u j v" and "u [] v = v"
  shows "decode_struct f (omitempty k (s = []) (JStr s) @ ys) v = decode_struct f ys (u s v)"
  using assms by (simp add: omitempty_def)

lemma decode_omit_int:
  assumes "\<And>j. f (fold_key k) j v = set_int u j v" and "u 0 v = v" and "int64 n"
  shows "decode_struct f (omitempty k (n = 0) (JInt n) @ ys) v = decode_struct f ys (u n v)"
  using assms by (simp add: omitempty_def int64_def)

lemma decode_omit_bool:
  assumes "\<And>j. f (fold_key k) j v = set_bool u j v" and "u False v = v"
  shows "decode_struct f (omitempty k (\<not> b) (JBool b) @ ys) v = decode_struct f ys (u b v)"
  using assms by (simp add: omitempty_def)

lemma decode_ptr_int:
  assumes "\<And>j. f (fold_key k) j v = set_ptr_int u j v" and "u None v = v"
    and "pred_option int64 x"
  shows "decode_struct f (omit_ptr k JInt x @ ys) v = decode_struct f ys (u x v)"
  using assms by (cases x) (simp_all add: omit_ptr_def int64_def)

lemma decode_ptr_struct:
  assumes "\<And>j. f (fold_key k) j v = set_ptr_struct g zero None u j v" and "u None v = v"
    and "\<And>y. x = Some y \<Longrightarrow> \<exists>ob. enc y = JObj ob \<and> decode_struct g ob zero = (y, True)"
  shows "decode_struct f (omit_ptr k enc x @ ys) v = decode_struct f ys (u x v)"
proof (cases x)
  case (Some y)
  then obtain ob where "enc y = JObj ob" "decode_struct g ob zero = (y, True)" using assms(3) by blast
  then show ?thesis using assms(1) Some by (simp add: omit_ptr_def)
qed (simp add: omit_ptr_def assms(2))

lemma decode_list_encoded:
  assumes "\<And>y. y \<in> set xs \<Longrightarrow> \<exists>ob. enc y = JObj ob \<and> decode_struct g ob zero = (y, True)"
  shows "decode_list g zero [] (map enc xs) = Some xs"
  using assms by (induction xs) force+

lemma decode_slice:
  assumes "\<And>j. f (fold_key k) j v = set_slice g zero [] u j v" and "u [] v = v"
    and "\<And>y. y \<in> set xs \<Longrightarrow> \<exists>ob. enc y = JObj ob \<and> decode_struct g ob zero = (y, True)"
  shows "decode_struct f (omitempty k (xs = []) (JArr (map enc xs)) @ ys) v = decode_struct f ys (u xs v)"
proof (cases "xs = []")
  case False
  have "decode_list g zero [] (map enc xs) = Some xs" by (rule decode_list_encoded [OF assms(3)])
  then show ?thesis using assms(1) False by (simp add: omitempty_def)
qed (simp add: omitempty_def assms(2))

definition action_ints :: "DesktopAction \<Rightarrow> bool" where
  "action_ints a \<longleftrightarrow> list_all (pred_option int64) [da_X a, da_Y a, da_ToX a, da_ToY a] \<and>
     int64 (da_Steps a) \<and> int64 (da_DurationMS a)"

lemma window_decoded:
  "decode_struct (window_field strict) (omitempty ''class'' (wm_Class m = []) (JStr (wm_Class m)) @
     omitempty ''title'' (wm_Title m = []) (JStr (wm_Title m)) @ []) zero_window = (m, True)"
  by (subst decode_omit_str, simp add: window_field_def lower_byte_def, simp add: zero_window_def)+
    (simp add: zero_window_def)

lemma window_encoded:
  "\<exists>ob. window_json m = JObj ob \<and> decode_struct (window_field strict) ob zero_window = (m, True)"
  using window_decoded [of strict m] by (simp add: window_json_def)

lemma action_decoded:
  assumes "action_ints a"
  shows "decode_struct (action_field strict) (action_json a @ []) zero_action = (a, True)"
  using assms unfolding action_ints_def list.pred_inject
  by (simp only: action_json_def append.simps append_assoc zero_action_def)
    (((subst decode_str, simp add: action_field_def lower_byte_def)
      | (subst decode_omit_str, simp add: action_field_def lower_byte_def, simp)
      | (subst decode_ptr_int, simp add: action_field_def lower_byte_def, simp, simp)
      | (subst decode_omit_int, simp add: action_field_def lower_byte_def, simp, simp)
      | (subst decode_ptr_struct, simp add: action_field_def lower_byte_def, simp, rule window_encoded))+, simp)

definition input_ints :: "DesktopInputEvent \<Rightarrow> bool" where
  "input_ints e \<longleftrightarrow> list_all (pred_option int64) [ie_X e, ie_Y e] \<and> int64 (ie_DurationMS e) \<and> int64 (ie_Samples e)"

lemma input_encoded:
  assumes "input_ints e"
  shows "\<exists>ob. input_json e = JObj ob \<and> decode_struct (input_field strict) ob zero_input = (e, True)"
proof -
  obtain ob where e: "input_json e = JObj ob" by (simp add: input_json_def)
  have "decode_struct (input_field strict) (ob @ []) zero_input = (e, True)"
    using assms e unfolding input_ints_def list.pred_inject
    by (simp only: input_json_def json.inject append.simps append_assoc zero_input_def)
      (hypsubst, simp only: append.simps append_assoc,
       ((subst decode_str, simp add: input_field_def lower_byte_def)
        | (subst decode_omit_str, simp add: input_field_def lower_byte_def, simp)
        | (subst decode_ptr_int, simp add: input_field_def lower_byte_def, simp, simp)
        | (subst decode_omit_int, simp add: input_field_def lower_byte_def, simp, simp))+, simp)
  then show ?thesis by (simp add: e)
qed

lemma interaction_decoded:
  assumes "int64 (di_LeaseMS i)" and "list_all input_ints (di_Events i)"
  shows "decode_struct (interaction_field strict) (interaction_json i @ []) zero_interaction = (i, True)"
proof -
  have e: "\<exists>ob. input_json e = JObj ob \<and> decode_struct (input_field strict) ob zero_input = (e, True)"
    if "e \<in> set (di_Events i)" for e
    using that assms(2) by (intro input_encoded) (simp add: list_all_iff)
  show ?thesis using assms(1)
    by (simp only: interaction_json_def append.simps append_assoc zero_interaction_def)
      (((subst decode_str, simp add: interaction_field_def lower_byte_def)
        | (subst decode_omit_str, simp add: interaction_field_def lower_byte_def, simp)
        | (subst decode_omit_int, simp add: interaction_field_def lower_byte_def, simp, simp)
        | (subst decode_slice, simp add: interaction_field_def lower_byte_def, simp, erule e))+, simp)
qed

text \<open>Whatever a request decodes to, its integers are those of the machine.\<close>

definition keeps :: "(string \<Rightarrow> json \<Rightarrow> 'a \<Rightarrow> 'a option) \<Rightarrow> ('a \<Rightarrow> bool) \<Rightarrow> bool" where
  "keeps f P \<longleftrightarrow> (\<forall>k j v v'. f k j v = Some v' \<longrightarrow> P v \<longrightarrow> P v')"

lemma decode_struct_inv: "keeps f P \<Longrightarrow> P v \<Longrightarrow> P (fst (decode_struct f ob v))"
  by (induction f ob v rule: decode_struct.induct) (auto simp: keeps_def split: option.splits)

lemma decode_into_inv:
  assumes "keeps f P" and "P v" and "decode_into f v d = (v', ok)"
  shows "P v'"
  using assms decode_struct_inv [OF assms(1,2)]
  by (cases "(f, v, d)" rule: decode_into.cases) (auto, metis fst_conv)

lemma decode_list_inv:
  assumes "keeps f P" and "P zero" and "list_all P old"
    and "decode_list f zero old js = Some vs"
  shows "list_all P vs"
  using assms(3,4)
proof (induction js arbitrary: old vs)
  case (Cons j js)
  let ?v = "case old of [] \<Rightarrow> zero | x # xs \<Rightarrow> x"
  obtain v where v: "decode_into f ?v (Some j) = (v, True)"
    using Cons.prems by (auto split: prod.splits if_splits)
  obtain ws where w: "decode_list f zero (tl old) js = Some ws" "vs = v # ws"
    using Cons.prems v by auto
  have "P ?v" "list_all P (tl old)" using Cons.prems(1) assms(2) by (cases old; simp)+
  then show ?case using decode_into_inv [OF assms(1) _ v] Cons.IH w by simp
qed simp

text \<open>One rule per shape of a setter: what has to be shown of the field it sets.\<close>

lemma keep_if: "(if c then a else b) = Some v' \<Longrightarrow> (a = Some v' \<Longrightarrow> P v') \<Longrightarrow> (b = Some v' \<Longrightarrow> P v') \<Longrightarrow> P v'"
  by (simp split: if_splits)

lemma keep_unknown: "unknown strict v = Some v' \<Longrightarrow> P v \<Longrightarrow> P v'"
  by (simp add: unknown_def split: if_splits)

lemma keep_string: "set_string u j v = Some v' \<Longrightarrow> P v \<Longrightarrow> (\<And>s. P (u s v)) \<Longrightarrow> P v'"
  by (cases "(u, j, v)" rule: set_string.cases) auto

lemma keep_int: "set_int u j v = Some v' \<Longrightarrow> P v \<Longrightarrow> (\<And>n. int64 n \<Longrightarrow> P (u n v)) \<Longrightarrow> P v'"
  by (cases "(u, j, v)" rule: set_int.cases) (auto simp: int64_def split: if_splits)

lemma keep_uint32: "set_uint32 u j v = Some v' \<Longrightarrow> P v \<Longrightarrow> (\<And>n. P (u n v)) \<Longrightarrow> P v'"
  by (cases "(u, j, v)" rule: set_uint32.cases) (auto split: if_splits)

lemma keep_bool: "set_bool u j v = Some v' \<Longrightarrow> P v \<Longrightarrow> (\<And>b. P (u b v)) \<Longrightarrow> P v'"
  by (cases "(u, j, v)" rule: set_bool.cases) auto

lemma keep_ptr_bool: "set_ptr_bool u j v = Some v' \<Longrightarrow> (\<And>b. P (u b v)) \<Longrightarrow> P v'"
  by (cases "(u, j, v)" rule: set_ptr_bool.cases) auto

lemma keep_ptr_int: "set_ptr_int u j v = Some v' \<Longrightarrow> (\<And>x. pred_option int64 x \<Longrightarrow> P (u x v)) \<Longrightarrow> P v'"
  by (cases "(u, j, v)" rule: set_ptr_int.cases) (auto simp: int64_def split: if_splits)

lemma keep_ptr_struct:
  assumes "set_ptr_struct g zero old u j v = Some v'" and "keeps g Q" and "Q zero" and "pred_option Q old"
    and P: "\<And>x. pred_option Q x \<Longrightarrow> P (u x v)"
  shows "P v'"
proof -
  let ?v = "case old of None \<Rightarrow> zero | Some x \<Rightarrow> x"
  have "Q ?v" using assms(3,4) by (cases old) auto
  then have x: "Q x" if "decode_into g ?v (Some j) = (x, True)" for x
    using decode_into_inv [OF assms(2) _ that] by blast
  have "v' = u None v \<or> (\<exists>x. decode_into g ?v (Some j) = (x, True) \<and> v' = u (Some x) v)"
    using assms(1) by (cases "(g, zero, old, u, j, v)" rule: set_ptr_struct.cases) (auto split: prod.splits if_splits)
  then show ?thesis using P [of None] P [of "Some _"] x by auto
qed

lemma keep_slice:
  assumes "set_slice g zero old u j v = Some v'" and "keeps g Q" and "Q zero" and "list_all Q old"
    and P: "\<And>xs. list_all Q xs \<Longrightarrow> P (u xs v)"
  shows "P v'"
proof -
  have "v' = u [] v \<or> (\<exists>js xs. decode_list g zero old js = Some xs \<and> v' = u xs v)"
    using assms(1) by (cases "(g, zero, old, u, j, v)" rule: set_slice.cases) auto
  then show ?thesis using P decode_list_inv [OF assms(2-4)] by fastforce
qed

lemma keeps_window: "keeps (window_field strict) (\<lambda>_. True)"
  by (simp add: keeps_def)

lemma action_field_ints: "keeps (action_field strict) action_ints"
  unfolding keeps_def action_field_def
  by (intro allI impI)
    (elim keep_if [where P = action_ints] keep_unknown [where P = action_ints] keep_string [where P = action_ints]
      keep_int [where P = action_ints] keep_ptr_int [where P = action_ints]
      keep_ptr_struct [where P = action_ints, OF _ keeps_window];
     simp add: action_ints_def option.pred_True)

lemma input_field_ints: "keeps (input_field strict) input_ints"
  unfolding keeps_def input_field_def
  by (intro allI impI)
    (elim keep_if [where P = input_ints] keep_unknown [where P = input_ints] keep_string [where P = input_ints]
      keep_int [where P = input_ints] keep_ptr_int [where P = input_ints]; simp add: input_ints_def)

definition interaction_ints :: "DesktopInteraction \<Rightarrow> bool" where
  "interaction_ints i \<longleftrightarrow> int64 (di_LeaseMS i) \<and> list_all input_ints (di_Events i)"

lemma zero_ints [simp]: "int64 0" "action_ints zero_action" "input_ints zero_input" "interaction_ints zero_interaction"
  by (simp_all add: int64_def action_ints_def input_ints_def interaction_ints_def zero_action_def zero_input_def
      zero_interaction_def)

lemma interaction_field_ints: "keeps (interaction_field strict) interaction_ints"
  unfolding keeps_def interaction_field_def
  by (intro allI impI)
    (elim keep_if [where P = interaction_ints] keep_unknown [where P = interaction_ints]
      keep_string [where P = interaction_ints] keep_int [where P = interaction_ints]
      keep_slice [where P = interaction_ints, OF _ input_field_ints]; simp add: interaction_ints_def)

definition request_ints :: "desktopRequest \<Rightarrow> bool" where
  "request_ints r \<longleftrightarrow> list_all action_ints (dr_Steps r) \<and> pred_option action_ints (dr_Action r) \<and>
     pred_option interaction_ints (dr_Interaction r)"

lemma keeps_launch: "keeps (launch_field strict) (\<lambda>_. True)"
  by (simp add: keeps_def)

lemma request_field_ints: "keeps request_field request_ints"
  unfolding keeps_def request_field_def
  by (intro allI impI)
    (elim keep_if [where P = request_ints] keep_string [where P = request_ints] keep_int [where P = request_ints]
      keep_uint32 [where P = request_ints] keep_bool [where P = request_ints] keep_ptr_bool [where P = request_ints]
      keep_slice [where P = request_ints, OF _ action_field_ints]
      keep_ptr_struct [where P = request_ints, OF _ action_field_ints]
      keep_ptr_struct [where P = request_ints, OF _ interaction_field_ints]
      keep_ptr_struct [where P = request_ints, OF _ keeps_launch]; simp add: request_ints_def option.pred_True)


definition ex_task :: json where
  "ex_task = JObj [(''node'', JStr ''pc''), (''steps'', JArr [JObj [(''action'', JStr ''click''), (''x'', JInt 4),
     (''Y'', JInt 5), (''expect_foreground'', JObj [(''class'', JStr ''Notepad'')])]])]"

definition ex_task_lib :: golib where
  "ex_task_lib = \<lparr>gl_sha256 = (\<lambda>s. s), gl_rfc3339 = (\<lambda>t. []), gl_compile = (\<lambda>p. Inr (\<lambda>s. False)),
     gl_unmarshal = (\<lambda>s. if s = ''task'' then Some ex_task else None), gl_marshal = (\<lambda>j. None),
     gl_url_path = (\<lambda>s. None), gl_parse_time = (\<lambda>s. None)\<rparr>"


end
