(* ===== verification/DesktopFrames.thy ===== *)
theory DesktopFrames
  imports DesktopRules Capture
begin

text \<open>
  The screenshots the desktop service keeps (\<open>remember\<close> and \<open>frame\<close> of \<open>desktop.go\<close>): a bounded store
  whose entries belong to a caller and a node and die after three minutes, the second instance of the
  locale \<open>owned_cache\<close>. And what is cut from a receipt before it is audited or answered.
\<close>

section \<open>The store\<close>

record desktopFrame =
  fr_Owner :: captureOwner
  fr_Node :: string
  fr_Created :: int
  fr_Observation :: jobj
  fr_Image :: jobj

type_synonym frames = "(string, desktopFrame) gomap"

text \<open>The decoders of base64 and of the head of a JPEG (its width and height).\<close>

record imagelib =
  im_base64 :: "string \<Rightarrow> string option"
  im_jpeg :: "string \<Rightarrow> (int \<times> int) option"

definition frameTTL :: int where
  "frameTTL = 180 * 1000000000"

definition obs_int :: "string \<Rightarrow> jobj \<Rightarrow> int" where
  "obs_int k obs = trunc (number (jget k obs))"

text \<open>The checks of \<open>remember\<close>: the observation, the image and the identifier, or the first error.\<close>

definition check_frame :: "golib \<Rightarrow> imagelib \<Rightarrow> jobj \<Rightarrow> (jobj \<times> jobj \<times> string) res" where
  "check_frame lib img out =
     (case asObj (jget ''observation'' out) of None \<Rightarrow> Inl (Errnew ''missing observation'')
      | Some obs \<Rightarrow>
      (case asObj (jget ''image'' out) of None \<Rightarrow> Inl (Errnew ''missing JPEG'')
       | Some im \<Rightarrow>
         if jget ''mimeType'' im \<noteq> Some (JStr ''image/jpeg'') then Inl (Errnew ''missing JPEG'')
         else case jget ''data'' im of
           Some (JStr encoded) \<Rightarrow>
             (if 800000 < length encoded then Inl (Errnew ''image exceeds limit'')
              else case im_base64 img encoded of None \<Rightarrow> Inl (Errnew ''invalid image encoding'')
              | Some raw \<Rightarrow>
                (case im_jpeg img raw of None \<Rightarrow> Inl (Errnew ''invalid image dimensions'')
                 | Some (w, h) \<Rightarrow>
                   (if w \<noteq> obs_int ''image_width'' obs \<or> h \<noteq> obs_int ''image_height'' obs \<or> w < 100 \<or> 16000 < w \<or>
                       h < 100 \<or> 16000 < h \<or> 16000000 < w * h
                    then Inl (Errnew ''invalid image dimensions'')
                    else if hex_encode (gl_sha256 lib raw) \<noteq> asStr (jget ''sha256'' obs)
                    then Inl (Errnew ''image hash mismatch'')
                    else let i = asStr (jget ''frame_id'' obs) in
                      if \<not> desktopID i then Inl (Errnew ''invalid frame ID'') else Inr (obs, im, i))))
         | _ \<Rightarrow> Inl (Errnew ''image exceeds limit'')))"

definition oldest_frame :: "frames \<Rightarrow> string" where
  "oldest_frame fs = fst (foldl (\<lambda>(old, t) (k, f).
     if old = [] \<or> fr_Created f < t then (k, fr_Created f) else (old, t)) ([], 0) fs)"

definition remember :: "golib \<Rightarrow> imagelib \<Rightarrow> int \<Rightarrow> captureOwner \<Rightarrow> string \<Rightarrow> jobj \<Rightarrow> frames \<Rightarrow> frames res" where
  "remember lib img now owner node out fs =
     (case check_frame lib img out of Inl e \<Rightarrow> Inl e
      | Inr (obs, im, i) \<Rightarrow>
        (let fs = filter (\<lambda>(k, f). \<not> frameTTL < now - fr_Created f) fs;
             fs = (if 64 \<le> length fs then gm_delete (oldest_frame fs) fs else fs)
         in Inr (gm_store i \<lparr>fr_Owner = owner, fr_Node = node, fr_Created = now, fr_Observation = obs,
               fr_Image = im\<rparr> fs)))"

definition frame :: "int \<Rightarrow> captureOwner \<Rightarrow> string \<Rightarrow> string \<Rightarrow> frames \<Rightarrow> desktopFrame res" where
  "frame now owner node i fs =
     (case gm_load fs i of
        Some f \<Rightarrow> (if fr_Owner f \<noteq> owner \<or> fr_Node f \<noteq> node \<or> frameTTL < now - fr_Created f
          then Inl (Errnew ''frame unavailable or expired; observe again'') else Inr f)
      | None \<Rightarrow> Inl (Errnew ''frame unavailable or expired; observe again''))"

section \<open>Receipts\<close>

fun desktopWithoutImage :: "jobj \<Rightarrow> jobj" and without_images :: "json list \<Rightarrow> json list" where
  "desktopWithoutImage [] = []"
| "desktopWithoutImage ((k, v) # m) =
     (if k = ''frames'' then (case v of JArr fs \<Rightarrow> [(k, JArr (without_images fs))] | _ \<Rightarrow> [])
      else if k \<noteq> ''image'' then [(k, v)] else []) @ desktopWithoutImage m"
| "without_images [] = []"
| "without_images (JObj m # fs) = JObj (desktopWithoutImage m) # without_images fs"
| "without_images (_ # fs) = without_images fs"

definition desktopNoteChange :: "jobj \<Rightarrow> jobj \<Rightarrow> jobj" where
  "desktopNoteChange before out = (case asObj (jget ''observation'' out) of None \<Rightarrow> out
     | Some after \<Rightarrow>
       (let hwnd = (\<lambda>m. asStr (case asObj (jget ''foreground'' m) of None \<Rightarrow> None | Some fg \<Rightarrow> jget ''hwnd'' fg));
            out = jput ''frame_changed'' (JBool (asStr (jget ''sha256'' before) \<noteq> asStr (jget ''sha256'' after))) out
        in jput ''foreground_changed'' (JBool (hwnd before \<noteq> hwnd after)) out))"

definition compact_obs :: "bool \<Rightarrow> json \<Rightarrow> json" where
  "compact_obs windows v = (case v of
     JObj ob \<Rightarrow> JObj (filter (\<lambda>(k, x). k \<noteq> ''capabilities'' \<and> (windows \<or> k \<noteq> ''windows'')) ob) | _ \<Rightarrow> v)"

definition compact_frame :: "json \<Rightarrow> json" where
  "compact_frame f = (case f of
     JObj m \<Rightarrow> JObj (case jget ''observation'' m of None \<Rightarrow> m
       | Some obs \<Rightarrow> jput ''observation'' (compact_obs False obs) m) | _ \<Rightarrow> f)"

definition desktopCompact :: "string \<Rightarrow> jobj \<Rightarrow> jobj" where
  "desktopCompact op out =
     (let res = (case jget ''observation'' out of None \<Rightarrow> out
        | Some obs \<Rightarrow> if op \<noteq> ''observe'' \<and> op \<noteq> ''attach_console''
            then jput ''observation'' (compact_obs True obs) out else out)
      in case asArr (jget ''frames'' out) of None \<Rightarrow> res
         | Some fs \<Rightarrow> jput ''frames'' (JArr (map compact_frame fs)) res)"

definition cloneDesktopReceipt :: "jobj \<Rightarrow> jobj" where
  "cloneDesktopReceipt out = foldl (\<lambda>r k. case jget k out of None \<Rightarrow> r | Some v \<Rightarrow> jput k v r) []
     [''ok'', ''error'', ''interaction_id'', ''interaction_state'', ''input_status'', ''released'', ''paused'',
      ''pause_error'', ''ended_at'', ''broker_version'']"

definition minDesktopExpiry :: "int \<Rightarrow> int \<Rightarrow> int" where
  "minDesktopExpiry a b = (if a < b then a else b)"

section \<open>A pixel point\<close>

text \<open>\<open>\s\<close> of RE2 is one of five ASCII characters.\<close>

definition re_space :: "char \<Rightarrow> bool" where
  "re_space c \<longleftrightarrow> byte c \<in> {9, 10, 12, 13, 32}"

text \<open>What \<open>desktopPoint\<close> captures: the digits of the two numbers.\<close>

definition desktopPoint :: "string \<Rightarrow> (string \<times> string) option" where
  "desktopPoint text =
     (case dropWhile re_space text of [] \<Rightarrow> None
      | c # s1 \<Rightarrow> if c \<noteq> CHR ''('' then None
        else let s2 = dropWhile re_space s1; x = takeWhile is_digit s2;
                 s3 = dropWhile re_space (dropWhile is_digit s2)
          in if x = [] \<or> \<not> HasPrefix s3 '','' then None
             else let s4 = dropWhile re_space (tl s3); y = takeWhile is_digit s4;
                      s5 = dropWhile re_space (dropWhile is_digit s4)
               in if y = [] \<or> \<not> HasPrefix s5 '')'' \<or> dropWhile re_space (tl s5) \<noteq> [] then None
                  else Some (x, y))"

definition parseDesktopPoint :: "string \<Rightarrow> int \<Rightarrow> int \<Rightarrow> (int \<times> int) res" where
  "parseDesktopPoint text width height =
     (case desktopPoint text of
        None \<Rightarrow> Inl (Errnew ''grounder did not return a single pixel point; no input sent'')
      | Some (xs, ys) \<Rightarrow>
        (case (Atoi xs, Atoi ys) of
           (Some x, Some y) \<Rightarrow> (if width \<le> x \<or> height \<le> y
             then Inl (Errnew ''grounder point outside screenshot; no input sent'') else Inr (x, y))
         | _ \<Rightarrow> Inl (Errnew ''grounder point outside screenshot; no input sent'')))"

section \<open>Invariant\<close>

definition frames_inv :: "frames \<Rightarrow> bool" where
  "frames_inv fs \<longleftrightarrow> gm_wf fs \<and> length fs \<le> 64 \<and> list_all (\<lambda>(k, f). desktopID k) fs"

definition live_frames :: "int \<Rightarrow> frames \<Rightarrow> frames" where
  "live_frames now fs = filter (\<lambda>(k, f). \<not> frameTTL < now - fr_Created f) fs"

lemma frames_inv_filter: "frames_inv fs \<Longrightarrow> frames_inv (filter P fs)"
  by (auto simp: frames_inv_def list_all_iff distinct_map_filter intro: order_trans [OF length_filter_le])

lemma oldest_frame_fold:
  assumes "list_all (\<lambda>(k, f). k \<noteq> []) fs"
  shows "case foldl (\<lambda>(old, t) (k, f). if old = [] \<or> fr_Created f < t then (k, fr_Created f) else (old, t)) ([], 0) fs of
    (old, t) \<Rightarrow> (fs = [] \<longrightarrow> old = []) \<and>
      (fs \<noteq> [] \<longrightarrow> old \<noteq> [] \<and> (\<exists>f. (old, f) \<in> set fs \<and> fr_Created f = t) \<and> (\<forall>(k, g) \<in> set fs. t \<le> fr_Created g))"
  using assms
proof (induction fs rule: rev_induct)
  case (snoc p fs)
  obtain k f where p: "p = (k, f)" by (cases p)
  let ?step = "\<lambda>(old, t) (k, f). if old = [] \<or> fr_Created f < t then (k, fr_Created f) else (old, t)"
  obtain old t where o: "foldl ?step ([], 0) fs = (old, t)" by fastforce
  have k: "k \<noteq> []" using snoc.prems by (simp add: p)
  have ih: "(fs = [] \<longrightarrow> old = []) \<and> (fs \<noteq> [] \<longrightarrow> old \<noteq> [] \<and> (\<exists>f. (old, f) \<in> set fs \<and> fr_Created f = t) \<and>
      (\<forall>(k, g) \<in> set fs. t \<le> fr_Created g))"
    using snoc.IH snoc.prems by (simp add: o)
  show ?case
  proof (cases "fs = []")
    case True
    then show ?thesis using ih k by (simp add: p)
  next
    case False
    then obtain g where g: "old \<noteq> []" "(old, g) \<in> set fs" "fr_Created g = t" "\<forall>(k, g) \<in> set fs. t \<le> fr_Created g"
      using ih by blast
    show ?thesis
    proof (cases "fr_Created f < t")
      case True
      have "fr_Created f \<le> fr_Created h" if "(k', h) \<in> set fs" for k' h
        using that g(4) True by fastforce
      then show ?thesis using True k g(1) by (auto simp: p o)
    next
      case f: False
      then show ?thesis using g by (auto simp: p o)
    qed
  qed
qed simp

lemma oldest_frame:
  assumes "frames_inv fs" and "fs \<noteq> []"
  obtains f where "gm_load fs (oldest_frame fs) = Some f" and "\<And>k g. (k, g) \<in> set fs \<Longrightarrow> fr_Created f \<le> fr_Created g"
proof -
  have "list_all (\<lambda>(k, f). k \<noteq> []) fs"
    using assms(1) by (auto simp: frames_inv_def list_all_iff desktopID_def)
  from oldest_frame_fold [OF this] obtain f where "(oldest_frame fs, f) \<in> set fs"
    "\<forall>(k, g) \<in> set fs. fr_Created f \<le> fr_Created g"
    using assms(2) by (auto simp: oldest_frame_def split: prod.splits)
  then show ?thesis using assms(1) by (intro that [of f]) (auto simp: frames_inv_def gm_wf_map_of)
qed

definition make_room :: "frames \<Rightarrow> frames" where
  "make_room fs = (if 64 \<le> length fs then gm_delete (oldest_frame fs) fs else fs)"

lemma make_room_inv:
  assumes "frames_inv fs"
  shows "frames_inv (make_room fs) \<and> length (make_room fs) < 64"
proof (cases "64 \<le> length fs")
  case True
  then have "fs \<noteq> []" by auto
  then obtain f where "gm_load fs (oldest_frame fs) = Some f" by (rule oldest_frame [OF assms])
  then have "length (gm_delete (oldest_frame fs) fs) < length fs" by (rule gm_delete_less)
  then show ?thesis using assms frames_inv_filter [OF assms] True
    by (simp add: make_room_def gm_delete_def) (simp add: frames_inv_def)
next
  case False
  then show ?thesis using assms by (simp add: make_room_def)
qed

lemma make_room_drops_oldest:
  assumes "frames_inv fs" and "(k, g) \<in> set fs" and "(k, g) \<notin> set (make_room fs)" and "h \<in> set (make_room fs)"
  shows "fr_Created g \<le> fr_Created (snd h)"
proof -
  have l: "64 \<le> length fs" using assms(2,3) by (auto simp: make_room_def split: if_splits)
  then have "k = oldest_frame fs" using assms(2,3) by (auto simp: make_room_def gm_set_delete)
  moreover have "fs \<noteq> []" using l by auto
  then obtain f where f: "gm_load fs (oldest_frame fs) = Some f"
    and old: "\<And>k g. (k, g) \<in> set fs \<Longrightarrow> fr_Created f \<le> fr_Created g"
    by (rule oldest_frame [OF assms(1)]) blast
  moreover have "gm_load fs k = Some g" using assms(1,2) by (simp add: frames_inv_def gm_wf_map_of)
  ultimately have "f = g" by simp
  moreover have "(fst h, snd h) \<in> set fs"
    using assms(4) by (auto simp: make_room_def gm_set_delete split: if_splits)
  ultimately show ?thesis using old by blast
qed

lemma check_frame_Inr:
  assumes "check_frame lib img out = Inr (obs, im, i)"
  shows "jget ''observation'' out = Some (JObj obs) \<and> jget ''image'' out = Some (JObj im) \<and>
    i = asStr (jget ''frame_id'' obs) \<and> desktopID i \<and>
    (\<exists>data raw w h. jget ''data'' im = Some (JStr data) \<and> length data \<le> 800000 \<and> im_base64 img data = Some raw \<and>
       im_jpeg img raw = Some (w, h) \<and> w = obs_int ''image_width'' obs \<and> h = obs_int ''image_height'' obs \<and>
       100 \<le> w \<and> w \<le> 16000 \<and> 100 \<le> h \<and> h \<le> 16000 \<and> w * h \<le> 16000000 \<and>
       hex_encode (gl_sha256 lib raw) = asStr (jget ''sha256'' obs))"
proof -
  have o: "asObj j = Some ob \<longleftrightarrow> j = Some (JObj ob)" for j ob by (cases j rule: asObj.cases) auto
  show ?thesis using assms
    by (auto simp: check_frame_def Let_def o not_less split: option.splits json.splits if_splits prod.splits)
qed

lemma remember_Inr:
  assumes "remember lib img now owner node out fs = Inr fs'"
  obtains obs im i where "check_frame lib img out = Inr (obs, im, i)"
    and "fs' = gm_store i \<lparr>fr_Owner = owner, fr_Node = node, fr_Created = now, fr_Observation = obs, fr_Image = im\<rparr>
      (make_room (live_frames now fs))"
  using assms by (auto simp: remember_def make_room_def live_frames_def Let_def split: sum.splits prod.splits)

lemma remember_inv [store_inv]:
  assumes "frames_inv fs" and "remember lib img now owner node out fs = Inr fs'"
  shows "frames_inv fs'"
proof -
  obtain obs im i where c: "check_frame lib img out = Inr (obs, im, i)"
    and f: "fs' = gm_store i \<lparr>fr_Owner = owner, fr_Node = node, fr_Created = now, fr_Observation = obs, fr_Image = im\<rparr>
      (make_room (live_frames now fs))"
    using remember_Inr [OF assms(2)] .
  have r: "frames_inv (make_room (live_frames now fs))" "length (make_room (live_frames now fs)) < 64"
    using make_room_inv frames_inv_filter [OF assms(1)] by (auto simp: live_frames_def)
  then show ?thesis using check_frame_Inr [OF c]
    by (auto simp: f frames_inv_def length_gm_store gm_set_store list_all_iff)
qed

section \<open>An owned cache\<close>

definition find_frame :: "int \<Rightarrow> string \<Rightarrow> captureOwner \<times> string \<Rightarrow> frames \<Rightarrow> desktopFrame option \<times> frames" where
  "find_frame now i w fs = (case frame now (fst w) (snd w) i fs of Inl e \<Rightarrow> (None, fs) | Inr f \<Rightarrow> (Some f, fs))"

interpretation screenshots: owned_cache find_frame gm_load "\<lambda>f. (fr_Owner f, fr_Node f)"
    "\<lambda>now f. now - fr_Created f \<le> frameTTL" length "\<lambda>_. 64" frames_inv
  by unfold_locales (auto simp: find_frame_def frame_def frames_inv_def not_less split: option.splits if_splits sum.splits)

lemma frame_owner:
  "frames_inv fs \<Longrightarrow> frame now owner node i fs = Inr f \<Longrightarrow> fr_Owner f = owner \<and> fr_Node f = node"
  using screenshots.owner_only [of fs now i "(owner, node)" f] by (simp add: find_frame_def)


definition ex_images :: imagelib where
  "ex_images = \<lparr>im_base64 = Some, im_jpeg = (\<lambda>raw. Some (100, 100))\<rparr>"

definition ex_frame_lib :: golib where
  "ex_frame_lib = \<lparr>gl_sha256 = (\<lambda>s. ''x''), gl_rfc3339 = Itoa, gl_compile = (\<lambda>p. Inr (\<lambda>s. False)),
     gl_unmarshal = (\<lambda>s. None), gl_marshal = (\<lambda>j. None), gl_url_path = (\<lambda>s. None),
     gl_parse_time = (\<lambda>s. None)\<rparr>"

definition ex_receipt :: jobj where
  "ex_receipt = [(''observation'', JObj [(''image_width'', JInt 100), (''image_height'', JInt 100),
      (''sha256'', JStr (hex_encode ''x'')), (''frame_id'', JStr (replicate 32 CHR ''a''))]),
     (''image'', JObj [(''mimeType'', JStr ''image/jpeg''), (''data'', JStr ''d'')])]"

definition ex_caller :: captureOwner where
  "ex_caller = \<lparr>co_TID = ''t'', co_OID = ''u'', co_AppID = ''a''\<rparr>"

lemma ex_check_frame: "\<exists>obs im. check_frame ex_frame_lib ex_images ex_receipt = Inr (obs, im, replicate 32 CHR ''a'') \<and>
    asStr (jget ''frame_id'' obs) = replicate 32 CHR ''a''"
proof -
  have "obs_int ''image_width'' [(''image_width'', JInt 100), (''image_height'', JInt 100),
      (''sha256'', JStr (hex_encode ''x'')), (''frame_id'', JStr (replicate 32 CHR ''a''))] = 100"
    "obs_int ''image_height'' [(''image_width'', JInt 100), (''image_height'', JInt 100),
      (''sha256'', JStr (hex_encode ''x'')), (''frame_id'', JStr (replicate 32 CHR ''a''))] = 100"
    using fl64_int [of 100] trunc_int [of 100] by (simp_all add: obs_int_def number_def jget_def)
  moreover have "desktopID (replicate 32 CHR ''a'')" by (simp add: desktopID_def list_all_iff)
  ultimately show ?thesis
    by (simp add: check_frame_def ex_receipt_def jget_def ex_images_def ex_frame_lib_def asStr_def Let_def)
qed


section \<open>No screenshot in the audit\<close>

text \<open>No image in a receipt, nor in any frame it holds, at any depth of frames.\<close>

fun imageless :: "jobj \<Rightarrow> bool" and imageless_all :: "json list \<Rightarrow> bool" where
  "imageless [] = True"
| "imageless ((k, v) # m) =
     (k \<noteq> ''image'' \<and> (if k = ''frames'' then (case v of JArr fs \<Rightarrow> imageless_all fs | _ \<Rightarrow> False) else True) \<and> imageless m)"
| "imageless_all [] = True"
| "imageless_all (JObj m # fs) = (imageless m \<and> imageless_all fs)"
| "imageless_all (_ # fs) = False"

lemma imageless_append: "imageless (a @ b) \<longleftrightarrow> imageless a \<and> imageless b"
  by (induction a) auto

text \<open>What is written to the audit log of a receipt holds no image, at no depth of its frames, and
  everything else of the receipt.\<close>

theorem audited_receipt_has_no_image:
  "imageless (desktopWithoutImage m) \<and>
   filter (\<lambda>(k, v). k \<noteq> ''image'' \<and> k \<noteq> ''frames'') (desktopWithoutImage m) =
     filter (\<lambda>(k, v). k \<noteq> ''image'' \<and> k \<noteq> ''frames'') m"
proof -
  have "imageless (desktopWithoutImage m)" "imageless_all (without_images fs)" for fs
    by (induction m and fs rule: desktopWithoutImage_without_images.induct)
      (auto simp: imageless_append split: json.splits)
  moreover have "filter (\<lambda>(k, v). k \<noteq> ''image'' \<and> k \<noteq> ''frames'') (desktopWithoutImage m) =
     filter (\<lambda>(k, v). k \<noteq> ''image'' \<and> k \<noteq> ''frames'') m"
    by (induction m) (auto split: json.splits)
  ultimately show ?thesis by blast
qed

end
