(* ===== verification/DesktopLogin.thy ===== *)
theory DesktopLogin
  imports Capture
begin

text \<open>
  The pure part of \<open>desktop_identity.go\<close>: account and host identifiers, the mapping from a caller to an
  account, the decision whether a session may be created, and the bytes of the signed grant. The file
  system, the parser of URLs and the RSA signature are arguments.
\<close>

section \<open>Identifiers\<close>

fun sid_values :: "string list \<Rightarrow> nat list res" where
  "sid_values [] = Inr []"
| "sid_values (part # rest) = (case ParseUint 32 part of None \<Rightarrow> Inl (Errnew ''invalid identity SID'')
     | Some v \<Rightarrow> if nat_digits v \<noteq> part then Inl (Errnew ''invalid identity SID'')
         else case sid_values rest of Inl e \<Rightarrow> Inl e | Inr vs \<Rightarrow> Inr (v # vs))"

definition identitySIDParts :: "string \<Rightarrow> nat list res" where
  "identitySIDParts sid =
     (let parts = Split (CHR ''-'') sid in
      if length parts \<noteq> 8 \<or> Join ''-'' (take 4 parts) \<noteq> ''S-1-5-21'' then
        Inl (Errnew ''identity requires a local-account SID'')
      else case sid_values (drop 4 parts) of Inl e \<Rightarrow> Inl e | Inr vs \<Rightarrow> Inr (21 # vs))"

definition desktopUUID :: "string \<Rightarrow> string res" where
  "desktopUUID value =
     (if length value \<noteq> 36 \<or> value ! 8 \<noteq> CHR ''-'' \<or> value ! 13 \<noteq> CHR ''-'' \<or> value ! 18 \<noteq> CHR ''-'' \<or>
         value ! 23 \<noteq> CHR ''-'' then Inl (Errnew ''invalid UUID'')
      else case hex_decode (filter (\<lambda>c. c \<noteq> CHR ''-'') value) of
        None \<Rightarrow> Inl (Errnew ''invalid UUID'')
      | Some b \<Rightarrow> if length b \<noteq> 16 then Inl (Errnew ''invalid UUID'') else Inr b)"

fun ok_res :: "'a res \<Rightarrow> bool" where
  "ok_res (Inl e) = False"
| "ok_res (Inr x) = True"

text \<open>What the program reads of a parsed URL; \<open>ur_User\<close> says whether it names a user.\<close>

record url =
  ur_Scheme :: string
  ur_Host :: string
  ur_User :: bool
  ur_RawQuery :: string
  ur_Fragment :: string
  ur_Path :: string

text \<open>The pins a build may carry: a node, an account and the identity of the node.\<close>

record identity_pins =
  ip_Node :: string
  ip_SID :: string
  ip_NodeURI :: string

definition identityBuildPinsValid :: "(string \<Rightarrow> url option) \<Rightarrow> identity_pins \<Rightarrow> bool" where
  "identityBuildPinsValid parse pins \<longleftrightarrow>
     ok_res (desktopUUID (ip_Node pins)) \<and> ok_res (identitySIDParts (ip_SID pins)) \<and>
     (case parse (ip_NodeURI pins) of None \<Rightarrow> False
      | Some u \<Rightarrow>
        ur_Scheme u = ''spiffe'' \<and> ur_Host u \<noteq> [] \<and> \<not> ur_User u \<and> ur_RawQuery u = [] \<and> ur_Fragment u = [] \<and>
        (let parts = Split (CHR ''/'') (ur_Path u) in
          length parts = 4 \<and> parts ! 0 = [] \<and> parts ! 1 \<noteq> [] \<and> parts ! 2 = ''node'' \<and> parts ! 3 = ip_Node pins))"

section \<open>Mappings\<close>

record desktopIdentityMapping =
  im_Node :: string
  im_Tenant :: string
  im_Principal :: string
  im_App :: string
  im_SID :: string

record desktopIdentitySettings =
  is_KeyFile :: string
  is_Mappings :: "desktopIdentityMapping list"

definition zero_mapping :: desktopIdentityMapping where
  "zero_mapping = \<lparr>im_Node = [], im_Tenant = [], im_Principal = [], im_App = [], im_SID = []\<rparr>"

text \<open>Decoding refuses a member that is no field.\<close>

definition mapping_field :: "string \<Rightarrow> json \<Rightarrow> desktopIdentityMapping \<Rightarrow> desktopIdentityMapping option" where
  "mapping_field k j v =
     (if k = ''node'' then set_string (\<lambda>s. im_Node_update (\<lambda>_. s)) j v
      else if k = ''tenant'' then set_string (\<lambda>s. im_Tenant_update (\<lambda>_. s)) j v
      else if k = ''principal'' then set_string (\<lambda>s. im_Principal_update (\<lambda>_. s)) j v
      else if k = ''app'' then set_string (\<lambda>s. im_App_update (\<lambda>_. s)) j v
      else if k = ''sid'' then set_string (\<lambda>s. im_SID_update (\<lambda>_. s)) j v
      else None)"

definition settings_field :: "string \<Rightarrow> json \<Rightarrow> desktopIdentitySettings \<Rightarrow> desktopIdentitySettings option" where
  "settings_field k j v =
     (if k = ''key_file'' then set_string (\<lambda>s. is_KeyFile_update (\<lambda>_. s)) j v
      else if k = ''mappings'' then
        set_slice mapping_field zero_mapping (is_Mappings v) (\<lambda>ms. is_Mappings_update (\<lambda>_. ms)) j v
      else None)"

fun find_mapping :: "identity_pins \<Rightarrow> captureOwner \<Rightarrow> string \<Rightarrow> desktopIdentityMapping list \<Rightarrow>
    desktopIdentityMapping option \<Rightarrow> desktopIdentityMapping option res" where
  "find_mapping pins owner node [] found = Inr found"
| "find_mapping pins owner node (m # ms) found =
     (if im_Node m \<noteq> ip_Node pins \<or> im_SID m \<noteq> ip_SID pins then
        Inl (Errnew ''only the single-host test identity backend is supported'')
      else if \<not> list_all (\<lambda>v. ok_res (desktopUUID v)) [im_Tenant m, im_Principal m, im_App m] then
        Inl (Errnew ''invalid identity mapping'')
      else if (node = ip_NodeURI pins \<or> node = im_Node m) \<and> im_Tenant m = co_TID owner \<and>
          im_Principal m = co_OID owner \<and> im_App m = co_AppID owner then
        (if found \<noteq> None then Inl (Errnew ''ambiguous identity mapping'')
         else find_mapping pins owner node ms (Some m))
      else find_mapping pins owner node ms found)"

text \<open>\<open>config\<close> is the content of the configuration file, if one is set, and \<open>None\<close> inside when it cannot be read.\<close>

definition identityMapping :: "golib \<Rightarrow> (string \<Rightarrow> url option) \<Rightarrow> identity_pins \<Rightarrow> string option option \<Rightarrow>
    captureOwner \<Rightarrow> string \<Rightarrow> (desktopIdentityMapping \<times> string) res" where
  "identityMapping lib parse pins config owner node =
     (if \<not> identityBuildPinsValid parse pins then
        Inl (Errnew ''identity login has no valid private build-time pins'')
      else case config of None \<Rightarrow> Inl (Errnew ''identity login broker is not configured'')
      | Some None \<Rightarrow> Inl (Errnew ''identity login configuration unavailable'')
      | Some (Some b) \<Rightarrow>
        (let (cfg, ok) = decode_into settings_field \<lparr>is_KeyFile = [], is_Mappings = []\<rparr> (gl_unmarshal lib b) in
         if 16384 < length b \<or> \<not> ok \<or> is_KeyFile cfg = [] \<or> 32 < length (is_Mappings cfg) then
           Inl (Errnew ''invalid identity login configuration'')
         else case find_mapping pins owner node (is_Mappings cfg) None of
           Inl e \<Rightarrow> Inl e
         | Inr None \<Rightarrow> Inl (Errnew ''caller has no identity mapping for this node'')
         | Inr (Some m) \<Rightarrow> Inr (m, is_KeyFile cfg)))"

section \<open>The grant\<close>

fun le_bytes :: "nat \<Rightarrow> nat \<Rightarrow> string" where
  "le_bytes 0 n = []"
| "le_bytes (Suc k) n = char_of (n mod 256) # le_bytes k (n div 256)"

text \<open>The 164 bytes that are signed, from their parts.\<close>

definition grant_body :: "nat \<Rightarrow> nat \<Rightarrow> string \<Rightarrow> string \<Rightarrow> string list \<Rightarrow> nat list \<Rightarrow> string" where
  "grant_body session expiry boot nonce ids sid =
     le_bytes 4 826363986 @ le_bytes 4 420 @ le_bytes 4 session @ le_bytes 4 0 @ le_bytes 8 expiry @
     boot @ nonce @ concat ids @ [CHR 0x01, CHR 0x05] @ replicate 5 (CHR 0x00) @ [CHR 0x05] @
     concat (map (le_bytes 4) sid)"

definition filetime_of :: "int \<Rightarrow> int" where
  "filetime_of now = sgn now * (\<bar>now\<bar> div 100) + 116444736000000000"

text \<open>\<open>nonce\<close> are the random bytes, or their error; \<open>sign\<close> is the signature over the digest of the body.\<close>

definition signDesktopIdentity :: "identity_pins \<Rightarrow> (string \<Rightarrow> string res) \<Rightarrow> string res \<Rightarrow>
    desktopIdentityMapping \<Rightarrow> jobj \<Rightarrow> int \<Rightarrow> string res" where
  "signDesktopIdentity pins sign nonce m c now =
     (let session = number (jget ''session'' c); filetime = filetime_of now;
          delta = trunc (number (jget ''now'' c)) - filetime
      in case hex_decode (asStr (jget ''boot'' c)) of
           None \<Rightarrow> Inl (Errnew ''invalid identity challenge'')
         | Some boot \<Rightarrow>
           (if length boot \<noteq> 32 \<or> session < 1 \<or> 4294967295 \<le> session \<or> session \<noteq> of_int (trunc session) then
              Inl (Errnew ''invalid identity challenge'')
            else if 50000000 < delta \<or> delta < - 50000000 then
              Inl (Errnew ''identity host and broker clocks differ by more than five seconds'')
            else case nonce of Inl e \<Rightarrow> Inl e
            | Inr random \<Rightarrow>
              (case (desktopUUID (im_Tenant m), desktopUUID (im_Principal m), desktopUUID (im_Node m)) of
                 (Inr tenant, Inr princ, Inr node) \<Rightarrow>
                   (if ip_SID pins = [] \<or> im_SID m \<noteq> ip_SID pins then
                      Inl (Errnew ''unsupported identity SID'')
                    else case identitySIDParts (im_SID m) of Inl e \<Rightarrow> Inl e
                    | Inr sid \<Rightarrow>
                      (let g = grant_body (nat (trunc session)) (nat ((filetime + 450000000) mod 2 ^ 64)) boot random
                             [tenant, princ, node] sid
                       in case sign g of Inl e \<Rightarrow> Inl e | Inr sig \<Rightarrow> Inr (g @ sig)))
               | _ \<Rightarrow> Inl (Errnew ''invalid UUID''))))"

section \<open>May a session be created?\<close>

definition sessionReceipt :: "string \<Rightarrow> string \<Rightarrow> jobj" where
  "sessionReceipt code reason = [(''ok'', JBool False), (''error_code'', JStr code), (''error'', JStr reason),
     (''input_status'', JStr ''not_sent''),
     (''next'', JStr ''Inspect desktop_status; do not log off users, reset their passwords, or retry an uncertain login automatically.'')]"

fun scan_sessions :: "string \<Rightarrow> json list \<Rightarrow> jobj option \<Rightarrow> jobj + jobj option" where
  "scan_sessions sid [] found = Inr found"
| "scan_sessions sid (JObj r # rows) found =
     (if asStr (jget ''sid'' r) = [] then
        Inl (sessionReceipt ''session_state_unknown'' ''A logged-on identity could not be verified'')
      else if jget ''sid'' r = Some (JStr sid) then
        (if found \<noteq> None then Inl (sessionReceipt ''session_ambiguous'' ''More than one session exists for the mapped user'')
         else scan_sessions sid rows (Some r))
      else scan_sessions sid rows found)"
| "scan_sessions sid (_ # rows) found =
     Inl (sessionReceipt ''session_state_unknown'' ''A logged-on identity could not be verified'')"

definition or_null :: "json option \<Rightarrow> json" where
  "or_null j = (case j of None \<Rightarrow> JNull | Some v \<Rightarrow> v)"

definition desktopLoginDecision :: "jobj \<Rightarrow> string \<Rightarrow> jobj option \<times> bool" where
  "desktopLoginDecision status sid =
     (if jget ''paused'' status \<noteq> Some (JBool False) then
        (Some (sessionReceipt ''desktop_paused'' ''Human pause or unknown pause state blocks login''), False)
      else case asArr (jget ''sessions'' status) of
        None \<Rightarrow> (Some (sessionReceipt ''session_state_unknown'' ''Session state could not be verified''), False)
      | Some rows \<Rightarrow>
        (case scan_sessions sid rows None of
           Inl out \<Rightarrow> (Some out, False)
         | Inr (Some found) \<Rightarrow>
           (if jget ''state'' found = Some (JStr ''disconnected'') then
              (Some (jput ''session_id'' (or_null (jget ''session_id'' found))
                 (sessionReceipt ''session_disconnected'' ''The mapped user already has a disconnected session; reconnect it explicitly'')), False)
            else if jget ''locked'' found = Some (JBool True) then
              (Some (jput ''session_id'' (or_null (jget ''session_id'' found))
                 (sessionReceipt ''identity_unlock_unsupported'' ''The existing user session is locked; identity unlock has not been implemented'')), False)
            else if jget ''state'' found \<noteq> Some (JStr ''active'') \<or> jget ''locked'' found \<noteq> Some (JBool False) then
              (Some (sessionReceipt ''session_not_ready'' ''Existing user session is not verified active and unlocked''), False)
            else (Some [(''ok'', JBool True), (''reused'', JBool True), (''identity_mode'', JStr ''caller''),
                (''session_id'', or_null (jget ''session_id'' found)), (''sid'', JStr sid),
                (''user'', or_null (jget ''user'' found)), (''console'', or_null (jget ''console'' found)),
                (''next'', JStr ''Observe this session before input; coordinate control with its human user.'')], False))
         | Inr None \<Rightarrow>
           (if rows \<noteq> [] then
              (Some (sessionReceipt ''session_conflict'' ''Another user is logged on; their session will be preserved''), False)
            else
              let backend = (case asObj (jget ''identity_login'' status) of None \<Rightarrow> [] | Some b \<Rightarrow> b) in
              if jget ''ready'' backend \<noteq> Some (JBool True) \<or> jget ''sid'' backend \<noteq> Some (JStr sid) then
                (Some (sessionReceipt ''identity_backend_unavailable'' ''The opted-in identity backend is not ready for this mapped user''), False)
              else (None, True))))"

section \<open>The decision\<close>

fun identified :: "json \<Rightarrow> bool" where
  "identified (JObj r) \<longleftrightarrow> asStr (jget ''sid'' r) \<noteq> []"
| "identified _ \<longleftrightarrow> False"

fun session_of :: "string \<Rightarrow> json \<Rightarrow> bool" where
  "session_of sid (JObj r) \<longleftrightarrow> jget ''sid'' r = Some (JStr sid)"
| "session_of sid _ \<longleftrightarrow> False"

lemma scan_sessions_found:
  "scan_sessions sid rows (Some r) = Inr f \<longleftrightarrow>
     list_all identified rows \<and> filter (session_of sid) rows = [] \<and> f = Some r"
  by (induction sid rows "Some r" rule: scan_sessions.induct) auto

lemma scan_sessions_iff:
  "scan_sessions sid rows None = Inr f \<longleftrightarrow> list_all identified rows \<and>
     (case f of None \<Rightarrow> filter (session_of sid) rows = [] | Some r \<Rightarrow> filter (session_of sid) rows = [JObj r])"
proof (induction rows)
  case (Cons j rows)
  show ?case
  proof (cases j)
    case (JObj r)
    then show ?thesis using Cons
      by (auto simp: scan_sessions_found split: option.splits)
  qed simp_all
qed (auto split: option.splits)

lemma scan_sessions_receipt:
  "scan_sessions sid rows f = Inl out \<Longrightarrow> jget ''ok'' out = Some (JBool False)"
  by (induction sid rows f rule: scan_sessions.induct)
    (auto simp: sessionReceipt_def jget_def split: if_splits)

lemma sessionReceipt_not_ok [simp]: "jget ''ok'' (sessionReceipt c r) = Some (JBool False)"
  by (simp add: sessionReceipt_def jget_def)

lemma decision_scanned:
  assumes "jget ''paused'' status = Some (JBool False)" and "jget ''sessions'' status = Some (JArr rows)"
    and "scan_sessions sid rows None = Inr (Some r)"
    and d: "desktopLoginDecision status sid = (refusal, create)"
  shows "\<not> create" and "\<exists>out. refusal = Some out \<and>
     (jget ''ok'' out = Some (JBool True) \<longleftrightarrow>
        jget ''state'' r = Some (JStr ''active'') \<and> jget ''locked'' r = Some (JBool False)) \<and>
     (jget ''ok'' out = Some (JBool True) \<longrightarrow> jget ''session_id'' out = Some (or_null (jget ''session_id'' r)))"
  using assms(1-3) d unfolding desktopLoginDecision_def
  by (auto split: if_splits) (simp_all add: jget_def)

lemma decision_empty:
  assumes "jget ''paused'' status = Some (JBool False)" and "jget ''sessions'' status = Some (JArr rows)"
    and "scan_sessions sid rows None = Inr None"
    and d: "desktopLoginDecision status sid = (refusal, create)"
  shows "create \<longleftrightarrow> rows = [] \<and> (\<exists>b. jget ''identity_login'' status = Some (JObj b) \<and>
      jget ''ready'' b = Some (JBool True) \<and> jget ''sid'' b = Some (JStr sid))"
    and "create \<longleftrightarrow> refusal = None"
    and "refusal = Some out \<Longrightarrow> jget ''ok'' out = Some (JBool False)"
proof -
  show "create \<longleftrightarrow> rows = [] \<and> (\<exists>b. jget ''identity_login'' status = Some (JObj b) \<and>
      jget ''ready'' b = Some (JBool True) \<and> jget ''sid'' b = Some (JStr sid))"
    using assms(1-3) d unfolding desktopLoginDecision_def
    by (cases "asObj (jget ''identity_login'' status)") (auto simp: asObj_Some split: if_splits)
  show "create \<longleftrightarrow> refusal = None" "refusal = Some out \<Longrightarrow> jget ''ok'' out = Some (JBool False)"
    using assms(1-3) d unfolding desktopLoginDecision_def by (auto simp: Let_def split: if_splits)
qed

lemma decision_refused:
  assumes "jget ''paused'' status \<noteq> Some (JBool False) \<or> asArr (jget ''sessions'' status) = None \<or>
      (\<exists>rows out. asArr (jget ''sessions'' status) = Some rows \<and> scan_sessions sid rows None = Inl out)"
    and d: "desktopLoginDecision status sid = (refusal, create)"
  shows "\<not> create" and "\<exists>out. refusal = Some out \<and> jget ''ok'' out = Some (JBool False)"
  using assms unfolding desktopLoginDecision_def
  by (auto split: if_splits option.splits dest: scan_sessions_receipt)

text \<open>C11: Signing in never disturbs a session that exists. The broker asks for a new session only when the
  node reports that no human has paused it, that nobody is logged on, and that its backend is ready for
  the account of the caller. It reports an existing session as usable exactly when every logged-on
  identity was verified and precisely one session belongs to the account, active and unlocked; the
  session it names is that one, so neither another user's session nor a locked one is handed out.
\<close>

theorem login_disturbs_no_session:
  assumes "desktopLoginDecision status sid = (refusal, create)"
  shows "(create \<longleftrightarrow> refusal = None) \<and>
    (create \<longleftrightarrow> jget ''paused'' status = Some (JBool False) \<and> jget ''sessions'' status = Some (JArr []) \<and>
      (\<exists>b. jget ''identity_login'' status = Some (JObj b) \<and> jget ''ready'' b = Some (JBool True) \<and>
        jget ''sid'' b = Some (JStr sid))) \<and>
    ((\<exists>out. refusal = Some out \<and> jget ''ok'' out = Some (JBool True) \<and> jget ''session_id'' out = Some i) \<longleftrightarrow>
      jget ''paused'' status = Some (JBool False) \<and>
      (\<exists>rows r. jget ''sessions'' status = Some (JArr rows) \<and> list_all identified rows \<and>
        filter (session_of sid) rows = [JObj r] \<and> jget ''state'' r = Some (JStr ''active'') \<and>
        jget ''locked'' r = Some (JBool False) \<and> or_null (jget ''session_id'' r) = i))"
proof -
  let ?p = "jget ''paused'' status = Some (JBool False)"
  consider (refused) "jget ''paused'' status \<noteq> Some (JBool False) \<or> asArr (jget ''sessions'' status) = None \<or>
      (\<exists>rows out. asArr (jget ''sessions'' status) = Some rows \<and> scan_sessions sid rows None = Inl out)"
    | (one) rows r where "?p" "jget ''sessions'' status = Some (JArr rows)" "scan_sessions sid rows None = Inr (Some r)"
    | (none) rows where "?p" "jget ''sessions'' status = Some (JArr rows)" "scan_sessions sid rows None = Inr None"
    by (metis asArr_Some not_Some_eq obj_sumE)
  then show ?thesis
  proof cases
    case refused
    note r = decision_refused [OF refused assms]
    have "\<not> (?p \<and> (\<exists>rows f. jget ''sessions'' status = Some (JArr rows) \<and> scan_sessions sid rows None = Inr f))"
      using refused by (auto simp: asArr_Some)
    then have no: "\<not> (?p \<and> jget ''sessions'' status = Some (JArr rows) \<and> list_all identified rows \<and>
        filter (session_of sid) rows = map JObj (case f of None \<Rightarrow> [] | Some r \<Rightarrow> [r]))" for rows f
      using scan_sessions_iff [of sid rows f] by (cases f) auto
    show ?thesis using r no [of "[]" None] no [of _ "Some _"] by auto
  next
    case one
    have f: "filter (session_of sid) rows = [JObj r]" "list_all identified rows"
      using one(3) by (simp_all add: scan_sessions_iff)
    then have "rows \<noteq> []" by auto
    then show ?thesis using decision_scanned [OF one assms] one(1,2) f by auto
  next
    case none
    show ?thesis using decision_empty [OF none assms] none scan_sessions_iff [of sid rows None] by auto
  qed
qed

definition ex_sid :: string where
  "ex_sid = ''S-1-5-21-1-2-3-1001''"

definition ex_session :: "string \<Rightarrow> string \<Rightarrow> json" where
  "ex_session sid state = JObj [(''sid'', JStr sid), (''state'', JStr state), (''locked'', JBool False),
     (''session_id'', JInt 2)]"

definition ex_status :: "json list \<Rightarrow> jobj" where
  "ex_status rows = [(''paused'', JBool False), (''sessions'', JArr rows),
     (''identity_login'', JObj [(''ready'', JBool True), (''sid'', JStr ex_sid)])]"

theorem login_disturbs_no_session_witness:
  "desktopLoginDecision (ex_status []) ex_sid = (None, True) \<and>
   \<not> snd (desktopLoginDecision (ex_status [ex_session ''S-1-5-21-1-2-3-500'' ''active'']) ex_sid) \<and>
   (\<exists>out. fst (desktopLoginDecision (ex_status [ex_session ''S-1-5-21-1-2-3-500'' ''active'', ex_session ex_sid ''active'']) ex_sid)
      = Some out \<and> jget ''ok'' out = Some (JBool True) \<and> jget ''session_id'' out = Some (JInt 2))"
proof -
  let ?other = "ex_session ''S-1-5-21-1-2-3-500'' ''active''"
  have "desktopLoginDecision (ex_status []) ex_sid = (None, True)" by code_simp
  moreover have "\<not> snd (desktopLoginDecision (ex_status [?other]) ex_sid)"
    using login_disturbs_no_session [OF prod.collapse [symmetric], THEN conjunct2, THEN conjunct1,
        of "ex_status [?other]" ex_sid]
    by (simp add: ex_status_def jget_def)
  moreover have "identified ?other" "identified (ex_session ex_sid ''active'')"
      "\<not> session_of ex_sid ?other" "session_of ex_sid (ex_session ex_sid ''active'')"
    by (simp_all add: ex_session_def ex_sid_def jget_def asStr_def)
  ultimately show ?thesis
    using login_disturbs_no_session [OF prod.collapse [symmetric], THEN conjunct2, THEN conjunct2,
        of "ex_status [?other, ex_session ex_sid ''active'']" ex_sid "JInt 2"]
    by (simp add: ex_status_def ex_session_def jget_def or_null_def)
qed

section \<open>Which account\<close>

definition maps_caller :: "identity_pins \<Rightarrow> captureOwner \<Rightarrow> string \<Rightarrow> desktopIdentityMapping \<Rightarrow> bool" where
  "maps_caller pins owner node m \<longleftrightarrow> (node = ip_NodeURI pins \<or> node = im_Node m) \<and> im_Tenant m = co_TID owner \<and>
     im_Principal m = co_OID owner \<and> im_App m = co_AppID owner"

definition pinned :: "identity_pins \<Rightarrow> desktopIdentityMapping \<Rightarrow> bool" where
  "pinned pins m \<longleftrightarrow> im_Node m = ip_Node pins \<and> im_SID m = ip_SID pins"

lemma find_mapping_pinned: "find_mapping pins owner node ms found = Inr f \<Longrightarrow> list_all (pinned pins) ms"
  by (induction pins owner node ms found rule: find_mapping.induct) (auto simp: pinned_def split: if_splits)

lemma find_mapping_found:
  "find_mapping pins owner node ms (Some m) = Inr f \<Longrightarrow> f = Some m \<and> filter (maps_caller pins owner node) ms = []"
  by (induction pins owner node ms "Some m" rule: find_mapping.induct) (auto simp: maps_caller_def split: if_splits)

lemma find_mapping_unique:
  "find_mapping pins owner node ms None = Inr (Some m) \<Longrightarrow> filter (maps_caller pins owner node) ms = [m]"
  by (induction ms) (auto simp: maps_caller_def dest: find_mapping_found split: if_splits)

text \<open>C12: The account a caller signs in as is never the caller's choice. A mapping is only found when the
  configuration, read afresh, decodes completely, every mapping in it is for the pinned node and account,
  and exactly one of them names the tenant, the principal and the application of the authenticated caller
  for the requested node; two of them are an error, not a choice.
\<close>

theorem account_is_bound_to_caller:
  assumes "identityMapping lib parse pins config owner node = Inr (m, key)"
  shows "(\<exists>b cfg. config = Some (Some b) \<and> length b \<le> 16384 \<and>
      decode_into settings_field \<lparr>is_KeyFile = [], is_Mappings = []\<rparr> (gl_unmarshal lib b) = (cfg, True) \<and>
      list_all (pinned pins) (is_Mappings cfg) \<and> filter (maps_caller pins owner node) (is_Mappings cfg) = [m] \<and>
      key = is_KeyFile cfg \<and> key \<noteq> []) \<and>
    im_SID m = ip_SID pins \<and> im_Node m = ip_Node pins \<and> node \<in> {ip_NodeURI pins, ip_Node pins} \<and>
    \<lparr>co_TID = im_Tenant m, co_OID = im_Principal m, co_AppID = im_App m\<rparr> = owner \<and>
    ok_res (identitySIDParts (im_SID m))"
proof -
  obtain b cfg where c: "config = Some (Some b)" and v: "identityBuildPinsValid parse pins"
    and d: "decode_into settings_field \<lparr>is_KeyFile = [], is_Mappings = []\<rparr> (gl_unmarshal lib b) = (cfg, True)"
    and k: "key = is_KeyFile cfg" "key \<noteq> []" and l: "length b \<le> 16384"
    and f: "find_mapping pins owner node (is_Mappings cfg) None = Inr (Some m)"
    using assms by (auto simp: identityMapping_def split: if_splits option.splits prod.splits sum.splits)
  note u = find_mapping_unique [OF f] and p = find_mapping_pinned [OF f]
  have "m \<in> set (filter (maps_caller pins owner node) (is_Mappings cfg))" using u by simp
  then have m: "pinned pins m" "maps_caller pins owner node m" using p by (auto simp: list_all_iff)
  show ?thesis
    by (intro conjI exI [of _ b] exI [of _ cfg] c l d p u k)
      (use m v in \<open>auto simp: pinned_def maps_caller_def identityBuildPinsValid_def\<close>)
qed

definition ex_uuid :: string where
  "ex_uuid = ''00000000-0000-4000-8000-00000000000a''"

definition ex_node_uri :: string where
  "ex_node_uri = ''spiffe://lab/t/node/'' @ ex_uuid"

definition ex_url :: "string \<Rightarrow> url option" where
  "ex_url s = (if HasPrefix s ''spiffe://lab'' then Some \<lparr>ur_Scheme = ''spiffe'', ur_Host = ''lab'', ur_User = False,
     ur_RawQuery = [], ur_Fragment = [], ur_Path = drop 12 s\<rparr> else None)"

definition ex_pins :: identity_pins where
  "ex_pins = \<lparr>ip_Node = ex_uuid, ip_SID = ex_sid, ip_NodeURI = ex_node_uri\<rparr>"

definition ex_mapping :: desktopIdentityMapping where
  "ex_mapping = \<lparr>im_Node = ex_uuid, im_Tenant = ex_uuid, im_Principal = ex_uuid, im_App = ex_uuid, im_SID = ex_sid\<rparr>"

definition ex_config :: json where
  "ex_config = JObj [(''key_file'', JStr ''/k''), (''mappings'', JArr [JObj [(''node'', JStr ex_uuid),
     (''tenant'', JStr ex_uuid), (''principal'', JStr ex_uuid), (''app'', JStr ex_uuid), (''sid'', JStr ex_sid)]])]"

definition ex_identity_lib :: golib where
  "ex_identity_lib = \<lparr>gl_sha256 = (\<lambda>s. s), gl_rfc3339 = (\<lambda>t. []), gl_compile = (\<lambda>p. Inr (\<lambda>s. False)),
     gl_unmarshal = (\<lambda>s. if s = ''config'' then Some ex_config else None), gl_marshal = (\<lambda>j. None),
     gl_url_path = (\<lambda>s. None), gl_parse_time = (\<lambda>s. None)\<rparr>"

lemma ex_sid_parts: "identitySIDParts ex_sid = Inr [21, 1, 2, 3, 1001]"
  by (simp add: identitySIDParts_def ex_sid_def ParseUint_def digits_value_def is_digit_def nat_digits.simps
        char_of_def bit_0 Let_def)

lemma ex_pins_valid: "identityBuildPinsValid ex_url ex_pins"
proof -
  have "ok_res (desktopUUID ex_uuid)" by code_simp
  then show ?thesis
    by (simp add: ex_sid_parts identityBuildPinsValid_def ex_pins_def ex_url_def ex_node_uri_def HasPrefix_def)
      (simp add: ex_uuid_def)
qed

lemma ex_decoded:
  "decode_into settings_field \<lparr>is_KeyFile = [], is_Mappings = []\<rparr> (Some ex_config) =
     (\<lparr>is_KeyFile = ''/k'', is_Mappings = [ex_mapping]\<rparr>, True)"
  by code_simp

lemma ex_identityMapping:
  "identityMapping ex_identity_lib ex_url ex_pins (Some (Some ''config''))
     \<lparr>co_TID = ex_uuid, co_OID = ex_uuid, co_AppID = ex_uuid\<rparr> ex_node_uri = Inr (ex_mapping, ''/k'')"
proof -
  have "ok_res (desktopUUID ex_uuid)" by code_simp
  then show ?thesis
    using ex_pins_valid ex_decoded
    by (simp add: identityMapping_def ex_identity_lib_def) (simp add: ex_mapping_def ex_pins_def)
qed

theorem account_is_bound_to_caller_witness: "im_SID ex_mapping = ip_SID ex_pins"
  using account_is_bound_to_caller [OF ex_identityMapping] by blast

section \<open>What is signed\<close>

definition le_value :: "string \<Rightarrow> nat" where
  "le_value s = foldr (\<lambda>c v. byte c + 256 * v) s 0"

lemma length_le_bytes [simp]: "length (le_bytes k n) = k"
  by (induction k n rule: le_bytes.induct) simp_all

lemma le_value_bytes [simp]: "le_value (le_bytes k n) = n mod 256 ^ k"
  by (induction k n rule: le_bytes.induct) (simp_all add: le_value_def mod_mult2_eq)

lemma sid_values_Inr:
  "sid_values parts = Inr vs \<Longrightarrow> parts = map nat_digits vs \<and> list_all (\<lambda>v. v < 2 ^ 32) vs"
  by (induction parts arbitrary: vs) (auto simp: ParseUint_def split: option.splits sum.splits if_splits)

lemma Join_append: "ps \<noteq> [] \<Longrightarrow> qs \<noteq> [] \<Longrightarrow> Join sep (ps @ qs) = Join sep ps @ sep @ Join sep qs"
  by (induction ps rule: induct_list012) (auto simp: Join_Cons)

lemma identitySIDParts_Inr:
  assumes "identitySIDParts sid = Inr ws"
  obtains vs where "ws = 21 # vs" "length vs = 4" "list_all (\<lambda>v. v < 2 ^ 32) vs"
    "sid = ''S-1-5-21-'' @ Join ''-'' (map nat_digits vs)"
proof -
  let ?parts = "Split (CHR ''-'') sid"
  obtain vs where l: "length ?parts = 8" "Join ''-'' (take 4 ?parts) = ''S-1-5-21''"
    and vs: "sid_values (drop 4 ?parts) = Inr vs" "ws = 21 # vs"
    using assms by (auto simp: identitySIDParts_def Let_def split: if_splits sum.splits)
  have d: "drop 4 ?parts = map nat_digits vs" "list_all (\<lambda>v. v < 2 ^ 32) vs" using sid_values_Inr [OF vs(1)] by auto
  have n: "length vs = 4" using arg_cong [OF d(1), of length] l(1) by simp
  have "sid = Join ''-'' (take 4 ?parts @ drop 4 ?parts)" using Join_Split [of "CHR ''-''" sid] by simp
  also have "\<dots> = ''S-1-5-21'' @ ''-'' @ Join ''-'' (map nat_digits vs)"
    unfolding d(1) using l n by (subst Join_append) auto
  finally show ?thesis using that vs(2) n d(2) by simp
qed

lemma desktopUUID_length: "desktopUUID v = Inr b \<Longrightarrow> length b = 16"
  by (auto simp: desktopUUID_def split: if_splits option.splits)

definition slice :: "nat \<Rightarrow> nat \<Rightarrow> string \<Rightarrow> string" where
  "slice a b s = take (b - a) (drop a s)"

lemma grant_slices:
  fixes session expiry :: nat
  assumes "length boot = 32" "length nonce = 32" "length tenant = 16" "length princ = 16" "length node = 16"
    and "length sid = 5"
  defines "b \<equiv> grant_body session expiry boot nonce [tenant, princ, node] sid"
  shows "length b = 164" "slice 8 12 b = le_bytes 4 session" "slice 16 24 b = le_bytes 8 expiry"
    "slice 24 56 b = boot" "slice 56 88 b = nonce" "slice 88 104 b = tenant" "slice 104 120 b = princ"
    "slice 120 136 b = node" "slice 144 164 (b @ sig) = concat (map (le_bytes 4) sid)"
proof -
  have l: "length (concat (map (le_bytes 4) xs)) = 4 * length xs" for xs by (induction xs) simp_all
  show "length b = 164" "slice 8 12 b = le_bytes 4 session" "slice 16 24 b = le_bytes 8 expiry"
    "slice 24 56 b = boot" "slice 56 88 b = nonce" "slice 88 104 b = tenant" "slice 104 120 b = princ"
    "slice 120 136 b = node" "slice 144 164 (b @ sig) = concat (map (le_bytes 4) sid)"
    using assms(1-6) by (simp_all add: b_def grant_body_def slice_def l del: le_bytes.simps)
qed

text \<open>C13: What the broker signs. A grant is 164 bytes and the signature over exactly those bytes. They carry
  the session and the boot identifier of the challenge, the broker's own random bytes, the tenant, the
  principal and the node of the mapping, and its security identifier as four canonical 32-bit
  sub-authorities from which the text is recovered. The expiry is 45 seconds after the broker's clock,
  never a time of the challenge, and a host whose clock is more than five seconds off gets no grant.
\<close>

theorem grant_binds_identity:
  assumes "signDesktopIdentity pins sign (Inr random) m c now = Inr grant" and "length random = 32"
  shows "(\<exists>body sig. grant = body @ sig \<and> length body = 164 \<and> sign body = Inr sig \<and>
      of_nat (le_value (slice 8 12 body)) = number (jget ''session'' c) \<and> 1 \<le> le_value (slice 8 12 body) \<and>
      int (le_value (slice 16 24 body)) = (filetime_of now + 450000000) mod 2 ^ 64 \<and>
      hex_decode (asStr (jget ''boot'' c)) = Some (slice 24 56 body) \<and> slice 56 88 body = random \<and>
      desktopUUID (im_Tenant m) = Inr (slice 88 104 body) \<and>
      desktopUUID (im_Principal m) = Inr (slice 104 120 body) \<and>
      desktopUUID (im_Node m) = Inr (slice 120 136 body)) \<and>
    (\<exists>vs. im_SID m = ''S-1-5-21-'' @ Join ''-'' (map nat_digits vs) \<and> length vs = 4 \<and>
      slice 144 164 grant = concat (map (le_bytes 4) (21 # vs)) \<and> list_all (\<lambda>v. v < 2 ^ 32) vs) \<and>
    im_SID m = ip_SID pins \<and> \<bar>trunc (number (jget ''now'' c)) - filetime_of now\<bar> \<le> 50000000"
proof -
  let ?session = "nat (trunc (number (jget ''session'' c)))" and ?expiry = "nat ((filetime_of now + 450000000) mod 2 ^ 64)"
  obtain boot tenant princ node sid sig where
    b: "hex_decode (asStr (jget ''boot'' c)) = Some boot" "length boot = 32"
    and s: "1 \<le> number (jget ''session'' c)" "number (jget ''session'' c) < 4294967295"
      "number (jget ''session'' c) = of_int (trunc (number (jget ''session'' c)))"
    and d: "\<bar>trunc (number (jget ''now'' c)) - filetime_of now\<bar> \<le> 50000000"
    and u: "desktopUUID (im_Tenant m) = Inr tenant" "desktopUUID (im_Principal m) = Inr princ"
      "desktopUUID (im_Node m) = Inr node"
    and i: "im_SID m = ip_SID pins" "identitySIDParts (im_SID m) = Inr sid"
    and g: "grant = grant_body ?session ?expiry boot random [tenant, princ, node] sid @ sig"
      "sign (grant_body ?session ?expiry boot random [tenant, princ, node] sid) = Inr sig"
    using assms(1) by (auto simp: signDesktopIdentity_def Let_def split: if_splits option.splits sum.splits)
  obtain vs where vs: "sid = 21 # vs" "length vs = 4" "list_all (\<lambda>v. v < 2 ^ 32) vs"
    "im_SID m = ''S-1-5-21-'' @ Join ''-'' (map nat_digits vs)" using identitySIDParts_Inr [OF i(2)] .
  have n: "length tenant = 16" "length princ = 16" "length node = 16" "length sid = 5"
    using u vs by (auto dest: desktopUUID_length)
  note l = grant_slices [OF b(2) assms(2) n]
  have t: "trunc (number (jget ''session'' c)) = int ?session" "1 \<le> ?session" "?session < 2 ^ 32"
    using s by (auto simp: trunc_def le_nat_iff nat_less_iff floor_less_iff le_floor_iff)
  have v: "le_value (le_bytes 4 ?session) = ?session" "int (le_value (le_bytes 8 ?expiry)) = (filetime_of now + 450000000) mod 2 ^ 64"
    using t(3) by (simp_all add: nat_less_iff)
  have "of_nat ?session = number (jget ''session'' c)" using s(3) t(1) by (metis of_int_of_nat_eq)
  then have A: "\<exists>body sig. grant = body @ sig \<and> length body = 164 \<and> sign body = Inr sig \<and>
      of_nat (le_value (slice 8 12 body)) = number (jget ''session'' c) \<and> 1 \<le> le_value (slice 8 12 body) \<and>
      int (le_value (slice 16 24 body)) = (filetime_of now + 450000000) mod 2 ^ 64 \<and>
      hex_decode (asStr (jget ''boot'' c)) = Some (slice 24 56 body) \<and> slice 56 88 body = random \<and>
      desktopUUID (im_Tenant m) = Inr (slice 88 104 body) \<and>
      desktopUUID (im_Principal m) = Inr (slice 104 120 body) \<and>
      desktopUUID (im_Node m) = Inr (slice 120 136 body)"
    using g l(1) b(1) u t(2) by (intro exI conjI) (assumption | simp only: l v)+
  have B: "\<exists>vs. im_SID m = ''S-1-5-21-'' @ Join ''-'' (map nat_digits vs) \<and> length vs = 4 \<and>
      slice 144 164 grant = concat (map (le_bytes 4) (21 # vs)) \<and> list_all (\<lambda>v. v < 2 ^ 32) vs"
    using vs g(1) l(9) by blast
  show ?thesis by (intro conjI A B i(1) d)
qed

definition ex_challenge :: jobj where
  "ex_challenge = [(''session'', JInt 1), (''now'', JInt 116444736000000000), (''boot'', JStr (replicate 64 (CHR ''0'')))]"

definition ex_sign :: "string \<Rightarrow> string res" where
  "ex_sign b = Inr ''signature''"

lemma ex_grant:
  "\<exists>g. signDesktopIdentity ex_pins ex_sign (Inr (replicate 32 (CHR 0x07))) ex_mapping ex_challenge 0 = Inr g"
proof -
  have "number (jget ''session'' ex_challenge) = 1" "number (jget ''now'' ex_challenge) = 116444736000000000"
    by code_simp+
  moreover have "trunc 1 = 1" "trunc 116444736000000000 = 116444736000000000" "ex_sid \<noteq> []"
    by (simp_all add: trunc_def ex_sid_def)
  moreover have "hex_decode (asStr (jget ''boot'' ex_challenge)) = Some (replicate 32 (CHR 0x00))" by code_simp
  moreover have "desktopUUID ex_uuid = Inr (the (hex_decode (filter (\<lambda>c. c \<noteq> CHR ''-'') ex_uuid)))" by code_simp
  ultimately show ?thesis
    by (simp add: signDesktopIdentity_def ex_mapping_def ex_sign_def ex_sid_parts ex_pins_def filetime_of_def Let_def)
qed

theorem grant_binds_identity_witness:
  "\<exists>g. signDesktopIdentity ex_pins ex_sign (Inr (replicate 32 (CHR 0x07))) ex_mapping ex_challenge 0 = Inr g \<and>
    (\<exists>vs. ex_sid = ''S-1-5-21-'' @ Join ''-'' (map nat_digits vs) \<and> length vs = 4 \<and>
      slice 144 164 g = concat (map (le_bytes 4) (21 # vs)))"
  using ex_grant grant_binds_identity [of ex_pins ex_sign "replicate 32 (CHR 0x07)" ex_mapping ex_challenge 0]
  by (fastforce simp: ex_mapping_def)

end
