(* ===== verification/DesktopExecute.thy ===== *)
theory DesktopExecute
  imports DesktopService
begin

text \<open>
  The operations of the desktop service: tasks of several steps, interactions that hold a lease,
  sign-in, and the handler that admits a request and records it.
\<close>

section \<open>Sign-in\<close>

definition caller_mapping :: "dserver \<Rightarrow> dctx \<Rightarrow> dworld \<Rightarrow> (desktopIdentityMapping \<times> string) res" where
  "caller_mapping ds cx w = identityMapping (ds_lib ds) (ds_url ds) (ds_pins ds) (ds_config ds (w_io w))
     (dx_owner cx) (dx_node cx)"

text \<open>What the status of a node says of the caller's own account there.\<close>

definition caller_identity :: "dserver \<Rightarrow> dctx \<Rightarrow> jobj \<Rightarrow> dworld \<Rightarrow> jobj" where
  "caller_identity ds cx out w =
     (let none = [(''mapped'', JBool False), (''signer_ready'', JBool False), (''unlock'', JBool False)] in
      case caller_mapping ds cx w of
        Inl e \<Rightarrow> jput ''reason'' (JStr (err_text e)) none
      | Inr (m, keyPath) \<Rightarrow>
        (let identity = jput ''sid'' (JStr (im_SID m)) (jput ''mapped'' (JBool True) none);
             identity = (case ds_key ds (w_io w) keyPath of
                 Inl e \<Rightarrow> jput ''reason'' (JStr (err_text e)) identity
               | Inr _ \<Rightarrow> jput ''signer_ready'' (JBool True) identity);
             (decision, create) = desktopLoginDecision out (im_SID m);
             told = (case decision of None \<Rightarrow> [] | Some d \<Rightarrow> d);
             identity = jput ''can_reuse'' (JBool (\<not> create \<and> jget ''ok'' told = Some (JBool True)))
               (jput ''can_sign_in'' (JBool (create \<and> jget ''signer_ready'' identity = Some (JBool True))) identity)
         in if \<not> create \<and> jget ''ok'' told \<noteq> Some (JBool True)
            then jput ''next'' (or_null (jget ''error'' told)) (jput ''blocked_by'' (or_null (jget ''error_code'' told)) identity)
            else identity))"

definition sessionStatus :: "dserver \<Rightarrow> dctx \<Rightarrow> dworld \<Rightarrow> jobj res \<times> dworld" where
  "sessionStatus ds cx w = (case dispatch ds cx [(''op'', JStr ''status'')] w of
     (Inl e, w) \<Rightarrow> (Inl e, w)
   | (Inr out, w) \<Rightarrow>
     (if jget ''ok'' out \<noteq> Some (JBool True) then (Inr out, w)
      else (Inr (jput ''caller_identity'' (JObj (caller_identity ds cx out w)) out), w)))"

definition login_unknown :: "string \<Rightarrow> jobj" where
  "login_unknown reason = [(''ok'', JBool False), (''error_code'', JStr ''login_outcome_unknown''),
     (''input_status'', JStr ''unknown''), (''error'', JStr reason)]"

text \<open>From the decision to create a session: the challenge, the grant, and its use.\<close>

definition sign_in :: "dserver \<Rightarrow> dctx \<Rightarrow> desktopIdentityMapping \<Rightarrow> string \<Rightarrow> (string \<Rightarrow> string res) \<Rightarrow> dworld \<Rightarrow>
    (jobj \<times> int) \<times> dworld" where
  "sign_in ds cx m keyPath key w =
     (let (i, w) = newID (ds_server ds) w;
          (got, w) = backend ds (dx_err cx (w_io w)) (dx_node cx) [(''id'', JStr i), (''op'', JStr ''identity_challenge'')] w
      in case got of
        Inl _ \<Rightarrow> ((sessionReceipt ''identity_backend_unavailable'' ''Identity challenge could not be obtained'', 409), w)
      | Inr response \<Rightarrow>
        (if jget ''ok'' response \<noteq> Some (JBool True)
         then ((sessionReceipt ''identity_backend_unavailable'' ''Identity challenge could not be obtained'', 409), w)
         else case asObj (jget ''challenge'' response) of
           None \<Rightarrow> ((sessionReceipt ''identity_backend_unavailable'' ''Invalid identity challenge'', 409), w)
         | Some c \<Rightarrow>
           (case signDesktopIdentity (ds_pins ds) key (ds_nonce ds (w_io w)) m c (now_of (ds_server ds) w) of
              Inl e \<Rightarrow> ((sessionReceipt ''identity_signing_failed'' (err_text e), 409), w)
            | Inr grant \<Rightarrow>
              (if caller_mapping ds cx w \<noteq> Inr (m, keyPath)
               then ((sessionReceipt ''authorization_changed'' ''Identity sign-in authorization changed'', 403), w)
               else case recheck ds cx w of
                 (Some _, w) \<Rightarrow> ((sessionReceipt ''authorization_changed'' ''Identity sign-in authorization changed'', 403), w)
               | (None, w) \<Rightarrow>
                 (case dispatch ds cx [(''op'', JStr ''identity_login''), (''identity_grant'', JStr (ds_base64 ds grant))] w of
                    (Inl _, w) \<Rightarrow>
                      ((login_unknown ''Sign-in outcome unknown; inspect desktop_status before retrying'', 409), w)
                  | (Inr out, w) \<Rightarrow>
                    (if jget ''ok'' out \<noteq> Some (JBool True) then ((out, 409), w)
                     else if jget ''sid'' out \<noteq> Some (JStr (im_SID m)) \<or> number (jget ''session_id'' out) < 1
                     then ((login_unknown ''Sign-in receipt did not verify the mapped user; inspect desktop_status'', 409), w)
                     else ((out, 200), w)))))))"

definition loginDesktop :: "dserver \<Rightarrow> dctx \<Rightarrow> dworld \<Rightarrow> (jobj \<times> int) \<times> dworld" where
  "loginDesktop ds cx w = (case caller_mapping ds cx w of
     Inl e \<Rightarrow> ((sessionReceipt ''identity_mapping_unavailable'' (err_text e), 409), w)
   | Inr (m, keyPath) \<Rightarrow>
     (case dispatch ds cx [(''op'', JStr ''status'')] w of
        (Inl _, w) \<Rightarrow> ((sessionReceipt ''session_state_unknown'' ''Could not inspect the current sessions'', 409), w)
      | (Inr status, w) \<Rightarrow>
        (if jget ''ok'' status \<noteq> Some (JBool True)
         then ((sessionReceipt ''session_state_unknown'' ''Could not inspect the current sessions'', 409), w)
         else case desktopLoginDecision status (im_SID m) of
           (decision, False) \<Rightarrow>
             (let out = (case decision of None \<Rightarrow> [] | Some d \<Rightarrow> d)
              in ((out, if jget ''ok'' out = Some (JBool True) then 200 else 409), w))
         | (_, True) \<Rightarrow>
           (case ds_key ds (w_io w) keyPath of
              Inl e \<Rightarrow> ((sessionReceipt ''identity_signer_unavailable'' (err_text e), 409), w)
            | Inr key \<Rightarrow>
              (case recheck ds cx w of
                 (Some _, w) \<Rightarrow> ((sessionReceipt ''authorization_unavailable''
                   ''Fresh caller authorization is required for identity sign-in'', 403), w)
               | (None, w) \<Rightarrow> sign_in ds cx m keyPath key w)))))"

section \<open>Interactions\<close>

text \<open>The conversion of a \<open>float64\<close> to \<open>uint32\<close>.\<close>

definition to_uint32 :: "rat \<Rightarrow> int" where
  "to_uint32 q = trunc q mod 2 ^ 32"

definition interact_fail :: "string \<Rightarrow> goerror \<Rightarrow> jobj \<times> int" where
  "interact_fail i e = ([(''ok'', JBool False), (''error'', JStr (err_text e)), (''interaction_id'', JStr i),
     (''instruction'', JStr ''Never replay input after an uncertain result. Release the interaction or wait for its lease to expire.'')], 409)"

text \<open>The lease a request may use: a new one for \<open>begin\<close>, the caller's own one otherwise.\<close>

definition claim_lease :: "dserver \<Rightarrow> dctx \<Rightarrow> desktopRequest \<Rightarrow> DesktopInteraction \<Rightarrow>
    desktopInteractionOwner option \<Rightarrow> dworld \<Rightarrow> (goerror + desktopInteractionOwner) \<times> dworld" where
  "claim_lease ds cx r spec current w =
     (let found = frame (now_of (ds_server ds) w) (dx_owner cx) (dx_node cx) (dr_FrameID r) (dw_frames w) in
      if di_Operation spec = ''begin'' then
        (if current \<noteq> None then (Inl (Errnew ''desktop already has an active interaction''), w)
         else case found of Inl e \<Rightarrow> (Inl e, w)
         | Inr f \<Rightarrow>
           (if jget ''actionable'' (fr_Observation f) \<noteq> Some (JBool True) \<or>
               or_null (jget ''interaction_id'' (fr_Observation f)) \<noteq> JNull
            then (Inl (Errnew ''begin requires a fresh ordinary desktop observation''), w)
            else let session = to_uint32 (number (jget ''session_id'' (fr_Observation f)))
              in if session = 0 then (Inl (Errnew ''observation lacks a usable session''), w)
                 else let (i, w) = newID (ds_server ds) w
                   in (Inr \<lparr>dio_Owner = dx_owner cx, dio_ID = i, dio_Session = session, dio_Expires = 0\<rparr>, w)))
      else case current of
        None \<Rightarrow> (Inl (Errnew ''interaction unavailable, expired, or owned by another caller''), w)
      | Some own \<Rightarrow>
        (if dio_Owner own \<noteq> dx_owner cx \<or> dio_ID own \<noteq> di_ID spec
         then (Inl (Errnew ''interaction unavailable, expired, or owned by another caller''), w)
         else if di_Operation spec = ''continue'' then
           (case found of Inl e \<Rightarrow> (Inl e, w)
            | Inr f \<Rightarrow>
              (if jget ''interaction_id'' (fr_Observation f) \<noteq> Some (JStr (di_ID spec)) \<or>
                  jget ''actionable'' (fr_Observation f) \<noteq> Some (JBool True)
               then (Inl (Errnew ''continue requires this interaction's final checkpoint''), w)
               else (Inr own, w)))
         else (Inr own, w)))"

text \<open>The request to end an interaction that is sent outside the context of the caller.\<close>

definition cancel_interaction :: "dserver \<Rightarrow> dctx \<Rightarrow> desktopInteractionOwner \<Rightarrow> dworld \<Rightarrow> dworld" where
  "cancel_interaction ds cx own w =
     (let (i, w) = newID (ds_server ds) w;
          (got, w) = backend ds None (dx_node cx) [(''id'', JStr i), (''op'', JStr ''interact''),
            (''session_id'', JInt (dio_Session own)), (''interaction'', JObj (interaction_json
              (zero_interaction\<lparr>di_ID := dio_ID own, di_Operation := ''cancel''\<rparr>)))] w
      in case got of
           Inr out \<Rightarrow> (if jget ''released'' out = Some (JBool True)
             then w\<lparr>dw_interactions := gm_delete (dx_node cx) (dw_interactions w)\<rparr> else w)
         | Inl _ \<Rightarrow> w)"

fun remember_all :: "dserver \<Rightarrow> dctx \<Rightarrow> json list \<Rightarrow> dworld \<Rightarrow> goerror option \<times> dworld" where
  "remember_all ds cx [] w = (None, w)"
| "remember_all ds cx (JObj f # fs) w =
     (case remember (ds_lib ds) (ds_images ds) (now_of (ds_server ds) w) (dx_owner cx) (dx_node cx) f (dw_frames w) of
        Inl e \<Rightarrow> (Some e, w) | Inr store \<Rightarrow> remember_all ds cx fs (w\<lparr>dw_frames := store\<rparr>))"
| "remember_all ds cx (_ # fs) w = (Some (Errnew ''invalid intermediate frame; cancellation requested''), w)"

text \<open>What the receipt does to the lease: renewed while the interaction waits, given up when it ended.\<close>

definition settle_lease :: "dserver \<Rightarrow> dctx \<Rightarrow> desktopInteractionOwner \<Rightarrow> jobj \<Rightarrow> dworld \<Rightarrow> dworld" where
  "settle_lease ds cx own out w =
     (let now = now_of (ds_server ds) w in
      if jget ''interaction_state'' out = Some (JStr ''thinking'') then
        (case gl_parse_time (ds_lib ds) (asStr (jget ''expires_at'' out)) of None \<Rightarrow> w
         | Some expiry \<Rightarrow> w\<lparr>dw_interactions := gm_store (dx_node cx)
             (own\<lparr>dio_Expires := minDesktopExpiry expiry (now + 65 * 1000000000)\<rparr>) (dw_interactions w)\<rparr>)
      else if jget ''released'' out = Some (JBool True) \<or> jget ''input_status'' out = Some (JStr ''not_sent'') then
        let w = w\<lparr>dw_interactions := gm_delete (dx_node cx) (dw_interactions w)\<rparr> in
        if jget ''ok'' out \<noteq> Some (JBool True) \<and> jget ''released'' out = Some (JBool True) then
          let ended = (if 64 \<le> length (dw_ended w) then tl (dw_ended w) else dw_ended w)
          in w\<lparr>dw_ended := gm_store (dio_ID own) \<lparr>dti_Owner = dx_owner cx, dti_Node = dx_node cx, dti_At = now,
               dti_Receipt = cloneDesktopReceipt out\<rparr> ended\<rparr>
        else w
      else w)"

text \<open>From the reserved lease to the answer.\<close>

definition interact_call :: "dserver \<Rightarrow> dctx \<Rightarrow> desktopRequest \<Rightarrow> DesktopInteraction \<Rightarrow> desktopInteractionOwner \<Rightarrow>
    dworld \<Rightarrow> (jobj \<times> int) \<times> dworld" where
  "interact_call ds cx r spec own w =
     (case dispatch ds cx [(''op'', JStr ''interact''), (''session_id'', JInt (dio_Session own)),
          (''frame_id'', JStr (dr_FrameID r)), (''interaction'', JObj (interaction_json spec))] w of
        (Inl e, w) \<Rightarrow> (interact_fail (di_ID spec) e, w)
      | (Inr out, w) \<Rightarrow>
        (let frames = (case asArr (jget ''frames'' out) of None \<Rightarrow> [] | Some fs \<Rightarrow> fs);
             (problem, w) = (if 5 < length frames
               then (Some (Errnew ''too many interaction images; cancellation requested''), w)
               else remember_all ds cx frames w)
         in case problem of
           Some e \<Rightarrow> (interact_fail (di_ID spec) e, cancel_interaction ds cx own w)
         | None \<Rightarrow>
           (if dx_err cx (w_io w) \<noteq> None \<and> jget ''interaction_state'' out = Some (JStr ''thinking'') then
              (interact_fail (di_ID spec) (Errnew ''caller disconnected; interaction cancellation requested''),
               cancel_interaction ds cx own w)
            else let w = settle_lease ds cx own out w;
                     shown = (if dr_IncludeImage r = Some False then desktopWithoutImage out else out)
              in ((shown, if jget ''ok'' shown \<noteq> Some (JBool True) then 409 else 200), w))))"

definition interact :: "dserver \<Rightarrow> dctx \<Rightarrow> desktopRequest \<Rightarrow> DesktopInteraction \<Rightarrow> dworld \<Rightarrow> (jobj \<times> int) \<times> dworld" where
  "interact ds cx r spec w = (case recheck ds cx w of
     (Some e, w) \<Rightarrow> (interact_fail (di_ID spec) e, w)
   | (None, w) \<Rightarrow>
     (let node = dx_node cx; now = now_of (ds_server ds) w;
          current = (case gm_load (dw_interactions w) node of None \<Rightarrow> None
            | Some own \<Rightarrow> if dio_Expires own < now then None else Some own);
          w = (if current = None then w\<lparr>dw_interactions := gm_delete node (dw_interactions w)\<rparr> else w);
          w = w\<lparr>dw_ended := filter (\<lambda>(i, e). \<not> 180 * 1000000000 < now - dti_At e) (dw_ended w)\<rparr>;
          ended = (case gm_load (dw_ended w) (di_ID spec) of None \<Rightarrow> None
            | Some e \<Rightarrow> if dti_Owner e = dx_owner cx \<and> dti_Node e = node then Some e else None)
      in if di_Operation spec \<noteq> ''begin'' \<and> ended \<noteq> None
         then ((cloneDesktopReceipt (dti_Receipt (the ended)), 409), w)
         else case claim_lease ds cx r spec current w of
           (Inl e, w) \<Rightarrow> (interact_fail (di_ID spec) e, w)
         | (Inr own, w) \<Rightarrow>
           (let spec = spec\<lparr>di_ID := dio_ID own\<rparr>;
                lease = (if di_LeaseMS spec = 0 then 60000 else di_LeaseMS spec);
                own = own\<lparr>dio_Expires := now_of (ds_server ds) w + (lease + 15000) * 1000000\<rparr>;
                w = w\<lparr>dw_interactions := gm_store node own (dw_interactions w)\<rparr>
            in interact_call ds cx r spec own w)))"

section \<open>Tasks\<close>

definition foreground_shown :: "jobj \<Rightarrow> jobj" where
  "foreground_shown obs = (case asObj (jget ''foreground'' obs) of None \<Rightarrow> []
     | Some fg \<Rightarrow> [(''foreground_after'', JObj [(''class'', or_null (jget ''class'' fg)), (''title'', or_null (jget ''title'' fg))])])"

text \<open>
  One step: the outcome or the error, and what the receipt shows of the grounding and the condition.
  A step with a target is grounded first and then points at the place that was found.
\<close>

definition wait_step :: "dserver \<Rightarrow> dctx \<Rightarrow> desktopFrame \<Rightarrow> DesktopAction \<Rightarrow> dworld \<Rightarrow> (goerror + jobj \<times> jobj) \<times> dworld" where
  "wait_step ds cx f a w =
     (let obs = fr_Observation f in
      if or_null (capability ''wait_conditions'' obs) = JNull
      then (Inl (Errnew ''node RCON does not support wait steps; upgrade RCON first''), w)
      else case wait ds cx (to_uint32 (number (jget ''session_id'' obs))) a w of
        (Inl e, w) \<Rightarrow> (Inl e, w)
      | (Inr out, w) \<Rightarrow>
        (let out = desktopNoteChange obs out; met = or_null (jget ''condition_met'' out);
             out = (if jget ''ok'' out = Some (JBool True) \<and> met \<noteq> JBool True
               then jput ''error'' (JStr (''wait until '' @ da_Until a @ '' not met within '' @ Itoa (da_DurationMS a) @
                 '' ms; task stopped'')) (jput ''ok'' (JBool False) out) else out)
         in (Inr (out, [(''condition_met'', met)]), w)))"

definition task_step :: "dserver \<Rightarrow> dctx \<Rightarrow> desktopFrame \<Rightarrow> string \<Rightarrow> DesktopAction \<Rightarrow> dworld \<Rightarrow>
    (goerror + jobj) \<times> jobj \<times> dworld" where
  "task_step ds cx f i a w =
     (let (grounded, err, w) = (if da_Target a = [] then (None, None, w) else ground ds cx f (da_Target a) w);
          shown = (if da_Target a = [] then []
            else [(''grounding'', case grounded of None \<Rightarrow> JNull | Some g \<Rightarrow> JObj g)])
      in case err of Some e \<Rightarrow> (Inl e, shown, w)
         | None \<Rightarrow>
           (let place = (case grounded of None \<Rightarrow> [] | Some g \<Rightarrow> g);
                a = (if da_Target a = [] then a
                  else a\<lparr>da_X := Some (obs_int ''x'' place), da_Y := Some (obs_int ''y'' place), da_Target := []\<rparr>)
            in if da_Action a = ''wait'' then
                 (case wait_step ds cx f a w of
                    (Inl e, w) \<Rightarrow> (Inl e, shown, w) | (Inr (out, extra), w) \<Rightarrow> (Inr out, shown @ extra, w))
               else (case act ds cx i a w of
                    (Inl e, w) \<Rightarrow> (Inl e, shown, w) | (Inr out, w) \<Rightarrow> (Inr out, shown, w))))"

definition step_receipt :: "golib \<Rightarrow> nat \<Rightarrow> DesktopAction \<Rightarrow> string \<Rightarrow> jobj" where
  "step_receipt lib n a i = [(''index'', JInt (int n)), (''action'', JObj (desktopActionSummary lib a)),
     (''before_frame'', JStr i)]"

definition step_outcome :: "jobj \<Rightarrow> jobj" where
  "step_outcome out = map (\<lambda>k. (k, or_null (jget k out)))
     [''ok'', ''input_status'', ''error'', ''frame_changed'', ''foreground_changed'']"

text \<open>
  The outcome of a step that failed before the node answered: the error and the last observation. The
  maps of a frame that was not found are nil; the observation is copied by \<open>desktopCompact\<close> and becomes
  an empty map, the image becomes \<open>null\<close>.
\<close>

definition task_stopped :: "desktopFrame option \<Rightarrow> goerror \<Rightarrow> jobj" where
  "task_stopped found e = [(''ok'', JBool False), (''error'', JStr (err_text e)),
     (''observation'', case found of None \<Rightarrow> JObj [] | Some f \<Rightarrow> JObj (fr_Observation f)),
     (''image'', case found of None \<Rightarrow> JNull | Some f \<Rightarrow> JObj (fr_Image f)),
     (''image_is_last_observation'', JBool True)]"

text \<open>
  The loop over the steps, from the frame of the last observation. The result is the outcome of the
  last step that ran and the receipts, or \<open>None\<close> when an observation is of the wrong type.
\<close>

fun task_loop :: "dserver \<Rightarrow> dctx \<Rightarrow> nat \<Rightarrow> DesktopAction list \<Rightarrow> string \<Rightarrow> jobj \<Rightarrow> jobj list \<Rightarrow> dworld \<Rightarrow>
    (jobj \<times> jobj list) option \<times> dworld" where
  "task_loop ds cx n [] i out receipts w = (Some (out, receipts), w)"
| "task_loop ds cx n (a # steps) i out receipts w =
     (let receipt = step_receipt (ds_lib ds) n a i;
          found = frame (now_of (ds_server ds) w) (dx_owner cx) (dx_node cx) i (dw_frames w);
          f = (case found of Inl _ \<Rightarrow> None | Inr f \<Rightarrow> Some f);
          (got, shown, w) = (case found of Inl e \<Rightarrow> (Inl e, [], w)
            | Inr f \<Rightarrow> (case dx_err cx (w_io w) of Some e \<Rightarrow> (Inl e, [], w)
                | None \<Rightarrow> task_step ds cx f i a w))
      in case got of
        Inl e \<Rightarrow> (Some (task_stopped f e, receipts @ [receipt @ shown @ [(''error'', JStr (err_text e))]]), w)
      | Inr out \<Rightarrow>
        (case or_null (jget ''observation'' out) of
           JNull \<Rightarrow>
             (let receipts = receipts @ [receipt @ shown @ step_outcome out]
              in if jget ''ok'' out \<noteq> Some (JBool True) then (Some (out, receipts), w)
                 else task_loop ds cx (Suc n) steps i out receipts w)
         | JObj obs \<Rightarrow>
             (let after = asStr (jget ''frame_id'' obs);
                  receipts = receipts @ [receipt @ shown @ step_outcome out @
                    [(''after_frame'', JStr after)] @ foreground_shown obs]
              in if jget ''ok'' out \<noteq> Some (JBool True) then (Some (out, receipts), w)
                 else task_loop ds cx (Suc n) steps after out receipts w)
         | _ \<Rightarrow> (None, w)))"

definition task_answer :: "jobj \<Rightarrow> jobj list \<Rightarrow> jobj" where
  "task_answer out receipts =
     jput ''status'' (JStr (if jget ''ok'' out = Some (JBool True) then ''steps_dispatched'' else ''stopped''))
       (jput ''instruction'' (JStr ''Steps report input dispatch, not task success. Inspect the final screenshot. On failure, observe before retrying; earlier steps may have completed.'')
         (jput ''goal_verified'' (JBool False) (jput ''steps'' (JArr (map JObj receipts)) out)))"

section \<open>All operations\<close>

definition execute_fail :: "goerror \<Rightarrow> jobj \<times> int" where
  "execute_fail e = ([(''ok'', JBool False), (''error'', JStr (err_text e)),
     (''instruction'', JStr ''Observe before retrying; input from earlier steps may have been sent.'')], 409)"

text \<open>The end of \<open>execute\<close>: the image is left out when the request says so.\<close>

definition execute_answer :: "desktopRequest \<Rightarrow> jobj \<Rightarrow> jobj \<times> int" where
  "execute_answer r out =
     (let out = (if dr_IncludeImage r = Some False then desktopWithoutImage out else out)
      in (out, if jget ''ok'' out \<noteq> Some (JBool True) then 409 else 200))"

text \<open>The operations that are one call to the node, behind the fresh check when they change the desktop.\<close>

definition simple_request :: "string \<Rightarrow> desktopRequest \<Rightarrow> jobj" where
  "simple_request op r =
     (if op = ''launch'' then [(''op'', JStr op), (''session_id'', JInt (dr_SessionID r)),
        (''launch'', case dr_Launch r of None \<Rightarrow> JNull | Some l \<Rightarrow> JObj (launch_json l))]
      else if op = ''attach_console'' then [(''op'', JStr op), (''session_id'', JInt (dr_SessionID r)),
        (''force'', JBool (dr_Force r))]
      else [(''op'', JStr op), (''session_id'', JInt (dr_SessionID r))])"

definition simple_op :: "dserver \<Rightarrow> dctx \<Rightarrow> string \<Rightarrow> desktopRequest \<Rightarrow> dworld \<Rightarrow> (jobj \<times> int) \<times> dworld" where
  "simple_op ds cx op r w = (case recheck ds cx w of
     (Some e, w) \<Rightarrow> (execute_fail e, w)
   | (None, w) \<Rightarrow>
     (case dispatch ds cx (simple_request op r) w of
        (Inl e, w) \<Rightarrow> (execute_fail e, w)
      | (Inr out, w) \<Rightarrow>
        (if jget ''ok'' out \<noteq> Some (JBool True) then ((out, 409), w) else (execute_answer r out, w))))"

definition find_op :: "dserver \<Rightarrow> dctx \<Rightarrow> desktopRequest \<Rightarrow> dworld \<Rightarrow> (jobj \<times> int) \<times> dworld" where
  "find_op ds cx r w =
     (case frame (now_of (ds_server ds) w) (dx_owner cx) (dx_node cx) (dr_FrameID r) (dw_frames w) of
        Inl e \<Rightarrow> (execute_fail e, w)
      | Inr f \<Rightarrow>
        (case ground ds cx f (dr_Description r) w of
           (None, Some e, w) \<Rightarrow> (execute_fail e, w)
         | (Some out, Some e, w) \<Rightarrow> ((jput ''error'' (JStr (err_text e)) out, 409), w)
         | (given, None, w) \<Rightarrow>
           (let out = (case given of None \<Rightarrow> [] | Some g \<Rightarrow> g);
                out = jput ''observation'' (JObj (fr_Observation f)) (jput ''frame_id'' (JStr (dr_FrameID r))
                  (jput ''ok'' (JBool True) out));
                out = (if dr_IncludeImage r = Some True then jput ''image'' (JObj (fr_Image f)) out else out)
            in ((out, 200), w))))"

text \<open>\<open>observe\<close>, and \<open>task\<close>, which begins with an observation.\<close>

definition observe_op :: "dserver \<Rightarrow> dctx \<Rightarrow> bool \<Rightarrow> desktopRequest \<Rightarrow> dworld \<Rightarrow> (jobj \<times> int) option \<times> dworld" where
  "observe_op ds cx is_task r w =
     (case dispatch ds cx [(''op'', JStr ''observe''), (''wait_ms'', JInt (dr_WaitMS r)),
          (''session_id'', JInt (dr_SessionID r))] w of
        (Inl e, w) \<Rightarrow> (Some (execute_fail e), w)
      | (Inr out, w) \<Rightarrow>
        (if jget ''ok'' out \<noteq> Some (JBool True) then (Some (out, 409), w)
         else case asObj (jget ''observation'' out) of
           None \<Rightarrow> (None, w)
         | Some obs \<Rightarrow>
           (if \<not> is_task then (Some (execute_answer r out), w)
            else case task_loop ds cx 0 (dr_Steps r) (asStr (jget ''frame_id'' obs)) out [] w of
              (None, w) \<Rightarrow> (None, w)
            | (Some (out, receipts), w) \<Rightarrow> (Some (execute_answer r (task_answer out receipts)), w))))"

text \<open>What runs while the operation owns the node and no interaction does.\<close>

definition execute_op :: "dserver \<Rightarrow> dctx \<Rightarrow> string \<Rightarrow> desktopRequest \<Rightarrow> dworld \<Rightarrow> (jobj \<times> int) option \<times> dworld" where
  "execute_op ds cx op r w =
     (if op = ''login'' then apfst Some (loginDesktop ds cx w)
      else if op = ''recover'' \<or> op = ''lock'' \<or> op = ''launch'' \<or> op = ''attach_console'' then
        apfst Some (simple_op ds cx op r w)
      else if op = ''wait'' then
        (case dr_Action r of None \<Rightarrow> (None, w)
         | Some a \<Rightarrow> (case wait ds cx (dr_SessionID r) a w of
             (Inl e, w) \<Rightarrow> (Some (execute_fail e), w)
           | (Inr out, w) \<Rightarrow>
             (if jget ''ok'' out \<noteq> Some (JBool True) then (Some (out, 409), w)
              else (Some (execute_answer r out), w))))
      else if op = ''observe'' \<or> op = ''task'' then observe_op ds cx (op = ''task'') r w
      else if op = ''find'' then apfst Some (find_op ds cx r w)
      else if op = ''act'' then
        (case dr_Action r of None \<Rightarrow> (None, w)
         | Some a \<Rightarrow> (case act ds cx (dr_FrameID r) a w of
             (Inl e, w) \<Rightarrow> (Some (execute_fail e), w) | (Inr out, w) \<Rightarrow> (Some (execute_answer r out), w)))
      else (Some (execute_answer r []), w))"

definition status_op :: "dserver \<Rightarrow> dctx \<Rightarrow> dworld \<Rightarrow> (jobj \<times> int) \<times> dworld" where
  "status_op ds cx w = (case sessionStatus ds cx w of
     (Inl _, w) \<Rightarrow> ((sessionReceipt ''status_unavailable'' ''Session status unavailable; no desktop changes were requested'', 409), w)
   | (Inr out, w) \<Rightarrow> ((out, if jget ''ok'' out \<noteq> Some (JBool True) then 409 else 200), w))"

definition frame_op :: "dserver \<Rightarrow> dctx \<Rightarrow> desktopRequest \<Rightarrow> dworld \<Rightarrow> jobj \<times> int" where
  "frame_op ds cx r w =
     (case frame (now_of (ds_server ds) w) (dx_owner cx) (dx_node cx) (dr_FrameID r) (dw_frames w) of
        Inl e \<Rightarrow> execute_fail e
      | Inr f \<Rightarrow> ([(''ok'', JBool True), (''observation'', JObj (fr_Observation f)),
          (''image'', JObj (fr_Image f)), (''cached'', JBool True)], 200))"

definition set_busy :: "string \<Rightarrow> dworld \<Rightarrow> dworld" where
  "set_busy node w = w\<lparr>dw_busy := gm_store node True (dw_busy w)\<rparr>"

definition clear_busy :: "string \<Rightarrow> dworld \<Rightarrow> dworld" where
  "clear_busy node w = w\<lparr>dw_busy := gm_delete node (dw_busy w)\<rparr>"

text \<open>The node is released when \<open>execute\<close> returns, also when it panics.\<close>

definition execute :: "dserver \<Rightarrow> dctx \<Rightarrow> string \<Rightarrow> desktopRequest \<Rightarrow> dworld \<Rightarrow> (jobj \<times> int) option \<times> dworld" where
  "execute ds cx op r w =
     (let node = dx_node cx in
      if op = ''status'' then apfst Some (status_op ds cx w)
      else if op = ''frame'' then (Some (frame_op ds cx r w), w)
      else if gm_load (dw_busy w) node = Some True
      then (Some (execute_fail (Errnew ''desktop busy; another operation owns this node'')), w)
      else
        let w = set_busy node w;
            (got, w) = (if op = ''interact'' then
                (case dr_Interaction r of None \<Rightarrow> (None, w) | Some spec \<Rightarrow> apfst Some (interact ds cx r spec w))
              else
                let active = gm_load (dw_interactions w) node; now = now_of (ds_server ds) w;
                    expired = (\<exists>own. active = Some own \<and> dio_Expires own < now);
                    w = (if expired then w\<lparr>dw_interactions := gm_delete node (dw_interactions w)\<rparr> else w)
                in if active \<noteq> None \<and> \<not> expired
                   then (Some (execute_fail (Errnew ''desktop interaction active; its owner must continue or release it'')), w)
                   else execute_op ds cx op r w)
        in (got, clear_busy node w))"

section \<open>The handler\<close>

definition desktop_error :: "int \<Rightarrow> string \<Rightarrow> string \<Rightarrow> response" where
  "desktop_error code msg rid = answer code [(''ok'', RJ (JBool False)), (''error'', RJ (JStr msg)),
     (''request_id'', RJ (JStr rid))]"

definition refuse :: "int \<Rightarrow> string \<Rightarrow> callEvent \<Rightarrow> response \<times> callEvent" where
  "refuse code msg ev = (desktop_error code msg (ev_RequestID ev),
     ev\<lparr>ev_Status := ''error'', ev_Reason := msg, ev_HTTPStatus := code\<rparr>)"

text \<open>The guards between the resolved node and the operation: the refusal, or \<open>None\<close>.\<close>

definition unsupported :: "string \<Rightarrow> string \<Rightarrow> broker \<Rightarrow> string option" where
  "unsupported op node b =
     (if op = ''login'' \<and> (\<not> nodeCapability node ''desktop_identity'' b \<or> \<not> nodeCapability node ''desktop_status'' b) then
        Some ''identity login is unavailable on this node; use an existing session or explicitly enabled machine recovery''
      else if \<not> supportsDesktop node b then
        Some ''node does not advertise native Windows desktop support; upgrade RCON first''
      else if op = ''attach_console'' \<and> \<not> nodeCapability node ''desktop_console'' b then
        Some ''node RCON does not support attach_console; upgrade RCON first''
      else if (op = ''wait'' \<or> op = ''launch'' \<or> op = ''recover'' \<or> op = ''lock'') \<and>
          \<not> nodeCapability node (''desktop_'' @ op) b then
        Some (''node RCON does not support desktop_'' @ op @ ''; upgrade RCON first'')
      else None)"

definition status_unsupported :: "string \<Rightarrow> broker \<Rightarrow> jobj" where
  "status_unsupported node b = [(''ok'', JBool True), (''status_supported'', JBool False),
     (''native_desktop'', JBool (supportsDesktop node b)), (''identity_login'', JObj [(''ready'', JBool False)]),
     (''instruction'', JStr ''This node cannot report live session status. Existing advertised desktop tools may still work; identity login is unavailable. An RCON upgrade does not install or enable an LSA package.'')]"

definition request_summary :: "golib \<Rightarrow> string \<Rightarrow> desktopRequest \<Rightarrow> jobj" where
  "request_summary lib op r = [(''operation'', JStr op), (''frame_id'', JStr (dr_FrameID r)),
     (''description'', JStr (dr_Description r)),
     (''action'', case dr_Action r of None \<Rightarrow> JNull | Some a \<Rightarrow> JObj (desktopActionSummary lib a)),
     (''step_count'', JInt (int (length (dr_Steps r))))] @
     (case dr_Launch r of None \<Rightarrow> [] | Some l \<Rightarrow> [(''launch'', JObj [(''command'', JStr (clip (dl_Command l) 500)),
        (''wait'', JBool (dl_Wait l)), (''timeout_ms'', JInt (dl_TimeoutMS l)), (''directory'', JStr (dl_Directory l))])])"

text \<open>What becomes of the outcome of an operation: the answer and its record.\<close>

definition desktop_answer :: "golib \<Rightarrow> string \<Rightarrow> jobj \<times> int \<Rightarrow> callEvent \<Rightarrow> response \<times> callEvent" where
  "desktop_answer lib op got ev =
     (let (out, code) = got;
          out = jput ''broker_version'' (JStr ''desktop-sessions-20261018-r1'')
            (jput ''request_id'' (JStr (ev_RequestID ev)) (desktopCompact op out));
          shown = marshal lib (desktopWithoutImage out);
          ev = ev\<lparr>ev_HTTPStatus := code,
            ev_Status := (if 400 \<le> code \<or> jget ''ok'' out = Some (JBool False) then ''error'' else ''ok''),
            ev_Output := shown\<rparr>;
          ev = (if auditOutputCap < length shown
            then ev\<lparr>ev_Output := ''{'' @ [dquote] @ ''error'' @ [dquote] @ '':'' @ [dquote] @ ''desktop audit receipt exceeded limit'' @ [dquote] @ ''}'',
              ev_Truncated := True\<rparr> else ev)
      in (answer code (json_fields out), ev))"

text \<open>Behind the resolution of the node.\<close>

definition desktop_run :: "dserver \<Rightarrow> principal \<Rightarrow> captureOwner \<Rightarrow> string \<Rightarrow> (io list \<Rightarrow> goerror option) \<Rightarrow> desktopRequest \<Rightarrow>
    string \<Rightarrow> callEvent \<Rightarrow> dworld \<Rightarrow> response option \<times> callEvent \<times> dworld" where
  "desktop_run ds p owner op err r node ev w =
     (if op = ''status'' \<and> \<not> nodeCapability node ''desktop_status'' (w_broker w) then
        (Some (answer 200 (json_fields (status_unsupported node (w_broker w)))),
         ev\<lparr>ev_Status := ''ok'', ev_HTTPStatus := 200\<rparr>, w)
      else case unsupported op node (w_broker w) of
        Some msg \<Rightarrow> (let (resp, ev) = refuse 409 msg ev in (Some resp, ev, w))
      | None \<Rightarrow>
        (let ev = ev\<lparr>ev_Detail := clip (marshal (ds_lib ds) (request_summary (ds_lib ds) op r)) detailMax\<rparr>;
             w = recordStart ev w;
             cx = \<lparr>dx_err = err, dx_principal = p, dx_owner = owner, dx_name = dr_Node r, dx_node = node,
               dx_rid = ev_RequestID ev\<rparr>;
             (got, w) = execute ds cx op r w
         in case got of None \<Rightarrow> (None, ev, w)
            | Some out \<Rightarrow> (let (resp, ev) = desktop_answer (ds_lib ds) op out ev in (Some resp, ev, w))))"

definition desktop_body :: "dserver \<Rightarrow> principal \<Rightarrow> string \<Rightarrow> (io list \<Rightarrow> goerror option) \<Rightarrow> request \<Rightarrow> callEvent \<Rightarrow>
    dworld \<Rightarrow> response option \<times> callEvent \<times> dworld" where
  "desktop_body ds p op err rq ev w =
     (let stop = (\<lambda>code msg ev w. let (resp, ev) = refuse code msg ev in (Some resp, ev, w)) in
      case decode_request (ds_lib ds) (rq_body rq) of
        None \<Rightarrow> stop 400 ''invalid desktop request'' ev w
      | Some r \<Rightarrow>
        (case validateDesktopRequest op r of Some e \<Rightarrow> stop 400 (err_text e) ev w
         | None \<Rightarrow>
           (let (reply, w) = tower (sv_env (ds_server ds)) ''/control/v1/authorize'' (authorize_body p ''full'') w in
            case authorize (ds_lib ds) reply of
              Inl _ \<Rightarrow> stop 503 ''authorization unavailable'' ev w
            | Inr (allowed, reason) \<Rightarrow>
              (let ev = ev\<lparr>ev_Allowed := allowed, ev_Reason := reason\<rparr> in
               if \<not> allowed then stop 403 ''desktop requires full authorization'' ev w
               else case captureOwnerFor p of None \<Rightarrow> stop 403 ''complete caller identity required'' ev w
               | Some owner \<Rightarrow>
                 (let (node, candidates) = resolveTarget (sv_casing (ds_server ds)) (dr_Node r) (w_broker w);
                      ev = ev\<lparr>ev_Node := dr_Node r, ev_SVID := node\<rparr>
                  in if node = [] then
                       (if candidates \<noteq> []
                        then stop 409 ''ambiguous node; use an exact node_id from list_remote_hosts'' ev w
                        else stop 404 ''no live node matched; node must contain only a host name or node_id, not task instructions'' ev w)
                     else desktop_run ds p owner op err r node ev w)))))"

text \<open>
  \<open>err\<close> is the error of the context of the request after some calls. The event is recorded in a deferred
  call, also after a panic, which takes the answer away.
\<close>

definition desktopHandler :: "dserver \<Rightarrow> string \<Rightarrow> (io list \<Rightarrow> goerror option) \<Rightarrow> request \<Rightarrow> dworld \<Rightarrow>
    response option \<times> dworld" where
  "desktopHandler ds op err rq w =
     (case auth (sv_validate (ds_server ds)) (rq_auth rq) of
        Inl _ \<Rightarrow> (Some (answer 401 [(''ok'', RJ (JBool False)), (''error'', RJ (JStr ''authentication required''))]), w)
      | Inr p \<Rightarrow>
        (let start = now_of (ds_server ds) w;
             (ev, w) = call_event (ds_server ds) p (''desktop_'' @ op) w;
             (resp, ev, w) = desktop_body ds p op err rq ev w
         in (resp, record_ev (ev\<lparr>ev_DurMs := (now_of (ds_server ds) w - start) div 1000000\<rparr>) w)))"

end
