(* ===== verification/DesktopSafe.thy ===== *)
theory DesktopSafe
  imports DesktopExecute CallerProps BrokerRun "HOL-Library.Sublist"
begin

text \<open>
  What holds of every desktop request, whatever its operation and its outcome: the calls it makes and
  the state it leaves. One relation between the worlds before and after carries both; each operation is
  shown to be in it, and the relation is reflexive and transitive.
\<close>

section \<open>Calls\<close>

text \<open>The last call was the fresh check: the token was still good and the tower granted everything.\<close>

definition rechecked :: "dserver \<Rightarrow> dctx \<Rightarrow> io list \<Rightarrow> bool" where
  "rechecked ds cx io \<longleftrightarrow> (\<exists>io0. io = io0 @ [asked (dx_principal cx) ''full''] \<and>
     granted (ds_server ds) (dx_principal cx) ''full'' io0 \<and>
     ok_res (ds_valid ds io0 (pr_Raw (dx_principal cx))))"

lemma rechecked_snoc [simp]:
  "rechecked ds cx (io @ [x]) \<longleftrightarrow> x = asked (dx_principal cx) ''full'' \<and>
     granted (ds_server ds) (dx_principal cx) ''full'' io \<and> ok_res (ds_valid ds io (pr_Raw (dx_principal cx)))"
  by (auto simp: rechecked_def)

text \<open>Requests that send no input: they look, wait, ask for a challenge or end an interaction.\<close>

definition harmless :: "jobj \<Rightarrow> bool" where
  "harmless req \<longleftrightarrow> jget ''op'' req \<in> {Some (JStr ''status''), Some (JStr ''observe''), Some (JStr ''wait''),
       Some (JStr ''identity_challenge'')} \<or>
     (jget ''op'' req = Some (JStr ''interact'') \<and> (\<exists>i. jget ''interaction'' req =
        Some (JObj (interaction_json (zero_interaction\<lparr>di_ID := i, di_Operation := ''cancel''\<rparr>)))))"

text \<open>A call is allowed after the calls \<open>io\<close>.\<close>

fun call_ok :: "dserver \<Rightarrow> dctx \<Rightarrow> io list \<Rightarrow> io \<Rightarrow> bool" where
  "call_ok ds cx io (NodeCall svid cc m path body) \<longleftrightarrow> svid = dx_node cx \<and> m = ''POST'' \<and> path = ''/desktop'' \<and>
     (\<exists>req. body = Some (marshal (ds_lib ds) req) \<and> (harmless req \<or> rechecked ds cx io))"
| "call_ok ds cx io (TowerCall m body) \<longleftrightarrow> TowerCall m body = asked (dx_principal cx) ''full''"
| "call_ok ds cx io (ModelCall body) \<longleftrightarrow> ds_nexus ds \<noteq> []"

fun calls_ok :: "dserver \<Rightarrow> dctx \<Rightarrow> io list \<Rightarrow> io list \<Rightarrow> bool" where
  "calls_ok ds cx io [] \<longleftrightarrow> True"
| "calls_ok ds cx io (x # xs) \<longleftrightarrow> call_ok ds cx io x \<and> calls_ok ds cx (io @ [x]) xs"

lemma calls_ok_append [simp]:
  "calls_ok ds cx io (xs @ ys) \<longleftrightarrow> calls_ok ds cx io xs \<and> calls_ok ds cx (io @ xs) ys"
  by (induction xs arbitrary: io) auto

lemma calls_ok_at: "calls_ok ds cx io (pre @ x # post) \<Longrightarrow> call_ok ds cx (io @ pre) x"
  by simp

lemma harmless_jput [simp]: "k \<notin> {''op'', ''interaction''} \<Longrightarrow> harmless (jput k v req) = harmless req"
  by (auto simp: harmless_def)

section \<open>Served\<close>

text \<open>A screenshot that was not there before is the caller's, of the node of the request.\<close>

definition only_own_frames :: "dctx \<Rightarrow> frames \<Rightarrow> frames \<Rightarrow> bool" where
  "only_own_frames cx fs fs' \<longleftrightarrow> (\<forall>i f. gm_load fs' i = Some f \<longrightarrow>
     gm_load fs i = Some f \<or> (fr_Owner f = dx_owner cx \<and> fr_Node f = dx_node cx))"

text \<open>The leases and the receipts of ended interactions: keys once each, at most 64 receipts.\<close>

definition leases_ok :: "dworld \<Rightarrow> bool" where
  "leases_ok w \<longleftrightarrow> gm_wf (dw_interactions w) \<and> gm_wf (dw_ended w) \<and> length (dw_ended w) \<le> 64"

text \<open>A node may be released, but is not left busy.\<close>

definition busy_left :: "dctx \<Rightarrow> dworld \<Rightarrow> dworld \<Rightarrow> bool" where
  "busy_left cx w w' \<longleftrightarrow> dw_busy w' = dw_busy w \<or> dw_busy w' = gm_delete (dx_node cx) (dw_busy w)"

text \<open>
  What may become of the lease of a node, seen from outside: during a request of \<open>me\<close>, who reads the clock
  at the times \<open>T\<close>, it expires, or \<open>me\<close> takes the free node or renews or gives up the own lease. No lease
  is promised for longer than 75 seconds.
\<close>

definition leaseMax :: int where
  "leaseMax = 75 * 1000000000"

inductive lease_step :: "captureOwner \<Rightarrow> (int \<Rightarrow> bool) \<Rightarrow> desktopInteractionOwner option \<Rightarrow>
    desktopInteractionOwner option \<Rightarrow> bool" for me T where
  expired: "T t \<Longrightarrow> dio_Expires own < t \<Longrightarrow> lease_step me T (Some own) None"
| taken: "dio_Owner own = me \<Longrightarrow> dio_Session own \<noteq> 0 \<Longrightarrow> T t \<Longrightarrow> dio_Expires own \<le> t + leaseMax \<Longrightarrow>
    lease_step me T None (Some own)"
| renewed: "dio_Owner own = me \<Longrightarrow> T t \<Longrightarrow> e \<le> t + leaseMax \<Longrightarrow>
    lease_step me T (Some own) (Some (own\<lparr>dio_Expires := e\<rparr>))"
| given_up: "dio_Owner own = me \<Longrightarrow> lease_step me T (Some own) None"

inductive_simps lease_step_None [simp]: "lease_step me T None l"

text \<open>The times between two points of the trace.\<close>

definition times :: "dserver \<Rightarrow> io list \<Rightarrow> io list \<Rightarrow> int \<Rightarrow> bool" where
  "times ds io io' t \<longleftrightarrow> (\<exists>x. prefix io x \<and> prefix x io' \<and> t = e_now (sv_env (ds_server ds)) x)"

lemma times_mono:
  assumes "prefix a a'" "prefix b b'"
  shows "times ds a' b \<le> times ds a b'"
proof (rule predicate1I)
  fix t
  assume "times ds a' b t"
  then show "times ds a b' t" using assms unfolding times_def by (blast intro: prefix_order.trans)
qed

definition leased :: "dserver \<Rightarrow> dctx \<Rightarrow> dworld \<Rightarrow> dworld \<Rightarrow> bool" where
  "leased ds cx w w' \<longleftrightarrow> (lease_step (dx_owner cx) (times ds (w_io w) (w_io w')))\<^sup>*\<^sup>*
     (gm_load (dw_interactions w) (dx_node cx)) (gm_load (dw_interactions w') (dx_node cx))"

lemma lease_step_mono: "lease_step me T a b \<Longrightarrow> T \<le> T' \<Longrightarrow> lease_step me T' a b"
  by (induction rule: lease_step.induct) (auto intro: lease_step.intros)

lemma lease_steps_mono: "(lease_step me T)\<^sup>*\<^sup>* a b \<Longrightarrow> T \<le> T' \<Longrightarrow> (lease_step me T')\<^sup>*\<^sup>* a b"
  by (induction rule: rtranclp_induct) (auto intro: lease_step_mono rtranclp.rtrancl_into_rtrancl)

lemma leased_same [simp]: "dw_interactions w' = dw_interactions w \<Longrightarrow> leased ds cx w w'"
  by (simp add: leased_def)

lemma leased_trans:
  assumes "leased ds cx u v" "leased ds cx v w" "prefix (w_io u) (w_io v)" "prefix (w_io v) (w_io w)"
  shows "leased ds cx u w"
proof -
  have "times ds (w_io u) (w_io v) \<le> times ds (w_io u) (w_io w)" "times ds (w_io v) (w_io w) \<le> times ds (w_io u) (w_io w)"
    using assms(3,4) by (simp_all add: times_mono)
  then show ?thesis using assms(1,2) unfolding leased_def
    by (meson lease_steps_mono rtranclp_trans)
qed

lemma leased_step:
  assumes "gm_load (dw_interactions w') (dx_node cx) = gm_load (dw_interactions w) (dx_node cx) \<or>
    lease_step (dx_owner cx) (\<lambda>t. t = now_of (ds_server ds) w) (gm_load (dw_interactions w) (dx_node cx))
      (gm_load (dw_interactions w') (dx_node cx))" and "w_io w' = w_io w"
  shows "leased ds cx w w'"
proof -
  have "(\<lambda>t. t = now_of (ds_server ds) w) \<le> times ds (w_io w) (w_io w)" by (auto simp: times_def now_of_def)
  with assms show ?thesis unfolding leased_def
    by (metis lease_step_mono r_into_rtranclp rtranclp.rtrancl_refl)
qed

lemma leased_expire:
  assumes "\<And>l. gm_load (dw_interactions w) (dx_node cx) = Some l \<Longrightarrow> dio_Expires l < now_of (ds_server ds) w"
  shows "leased ds cx w (w\<lparr>dw_interactions := gm_delete (dx_node cx) (dw_interactions w)\<rparr>)"
  using assms by (intro leased_step) (cases "gm_load (dw_interactions w) (dx_node cx)", auto intro: lease_step.expired)

text \<open>The stores of the other handlers: the captured outputs and the audit buffer.\<close>

abbreviation stores_ok :: "'a cworld_scheme \<Rightarrow> bool" where
  "stores_ok w \<equiv> cs_inv (cw_caps w) \<and> cs_quotas (cw_caps w) \<and> pred_option cl_inv (cw_calls w)"

lemma cl_inv_Add_iff [simp]: "cl_inv (cl_Add e c) \<longleftrightarrow> cl_inv c"
  by (cases "cl_buf c") (auto simp: cl_inv_def cl_Add_def)

lemma calls_inv_Add [simp]: "pred_option cl_inv (map_option (cl_Add e) x) \<longleftrightarrow> pred_option cl_inv x"
  by (cases x) simp_all

definition served :: "dserver \<Rightarrow> dctx \<Rightarrow> dworld \<Rightarrow> dworld \<Rightarrow> bool" where
  "served ds cx w w' \<longleftrightarrow> (\<exists>new. w_io w' = w_io w @ new \<and> calls_ok ds cx (w_io w) new) \<and>
     (frames_inv (dw_frames w) \<longrightarrow> frames_inv (dw_frames w') \<and> only_own_frames cx (dw_frames w) (dw_frames w')) \<and>
     (\<forall>n. n \<noteq> dx_node cx \<longrightarrow> gm_load (dw_interactions w') n = gm_load (dw_interactions w) n) \<and>
     (leases_ok w \<longrightarrow> leases_ok w') \<and> busy_left cx w w' \<and> leased ds cx w w' \<and>
     shrinks (w_broker w) (w_broker w') \<and> (stores_ok w \<longrightarrow> stores_ok w')"

lemmas served_defs = served_def only_own_frames_def busy_left_def leases_ok_def

lemma served_refl [simp, intro]: "served ds cx w w"
  by (auto simp: served_def only_own_frames_def busy_left_def)

lemma gm_delete_twice [simp]: "gm_delete k (gm_delete k m) = gm_delete k m"
  by (simp add: gm_delete_def)

lemma busy_left_trans: "busy_left cx u v \<Longrightarrow> busy_left cx v w \<Longrightarrow> busy_left cx u w"
  by (auto simp: busy_left_def)

lemma only_own_frames_trans: "only_own_frames cx a b \<Longrightarrow> only_own_frames cx b c \<Longrightarrow> only_own_frames cx a c"
  unfolding only_own_frames_def by metis

lemma served_trans [trans]: "served ds cx u v \<Longrightarrow> served ds cx v w \<Longrightarrow> served ds cx u w"
  by (auto simp: served_def intro: only_own_frames_trans busy_left_trans shrinks_trans elim!: leased_trans)

text \<open>A step that makes no call and leaves the two stores alone.\<close>

lemma served_lease:
  assumes "served ds cx u v" and "w_io w = w_io v" and "dw_frames w = dw_frames v"
    and "\<And>n. n \<noteq> dx_node cx \<Longrightarrow> gm_load (dw_interactions w) n = gm_load (dw_interactions v) n"
    and "leases_ok v \<Longrightarrow> leases_ok w" and "dw_busy w = dw_busy v" and "leased ds cx v w"
    and "w_broker w = w_broker v" and "stores_ok w = stores_ok v"
  shows "served ds cx u w"
  using assms leased_trans [of ds cx u v w] by (auto simp: served_def busy_left_def)

lemma served_quiet:
  assumes "served ds cx u v" and "w_io w = w_io v" and "dw_frames w = dw_frames v"
    and "dw_interactions w = dw_interactions v" and "leases_ok v \<Longrightarrow> leases_ok w" and "dw_busy w = dw_busy v"
    and "w_broker w = w_broker v" and "stores_ok w = stores_ok v"
  shows "served ds cx u w"
  using assms(1) by (rule served_lease) (simp_all add: assms)

lemma newID_simps [simp]:
  "w_io (snd (newID sv w)) = w_io w" "dw_frames (snd (newID sv w)) = dw_frames w"
  "dw_interactions (snd (newID sv w)) = dw_interactions w" "dw_busy (snd (newID sv w)) = dw_busy w"
  "dw_ended (snd (newID sv w)) = dw_ended w" "w_broker (snd (newID sv w)) = w_broker w"
  "cw_caps (snd (newID sv w)) = cw_caps w" "cw_calls (snd (newID sv w)) = cw_calls w"
  by (simp_all add: newID_def)

lemma served_newID: "newID sv w = (i, w1) \<Longrightarrow> served ds cx w w1 \<and> w_io w1 = w_io w \<and> dw_interactions w1 = dw_interactions w"
  using newID_simps [of sv w] by (auto simp: served_defs)

lemma record_ev_desktop [simp]:
  "dw_frames (record_ev e w) = dw_frames w" "dw_interactions (record_ev e w) = dw_interactions w"
  "dw_busy (record_ev e w) = dw_busy w" "dw_ended (record_ev e w) = dw_ended w"
  by (simp_all add: record_ev_def)

lemma audit_simps [simp]:
  "w_io (audit ds cx k d out w) = w_io w" "dw_frames (audit ds cx k d out w) = dw_frames w"
  "dw_interactions (audit ds cx k d out w) = dw_interactions w" "dw_busy (audit ds cx k d out w) = dw_busy w"
  "dw_ended (audit ds cx k d out w) = dw_ended w" "w_broker (audit ds cx k d out w) = w_broker w"
  "stores_ok (audit ds cx k d out w) = stores_ok w"
  by (auto simp: audit_def Let_def split: prod.splits) (auto simp: newID_def)

lemma leases_ok_same [simp]:
  "leases_ok (snd (newID sv w)) = leases_ok w" "leases_ok (record_ev e w) = leases_ok w"
  "leases_ok (audit ds cx k d out w) = leases_ok w"
  by (simp_all add: leases_ok_def)

lemma served_audit [simp]: "served ds cx u (audit ds cx k d out w) = served ds cx u w"
  by (simp add: served_def busy_left_def leased_def)

section \<open>Single calls\<close>

text \<open>A call down a tunnel touches nothing of the desktop service.\<close>

lemma inject_desktop:
  fixes w :: dworld
  assumes "injectResponseContext env c svid m p b w = (res, w')"
  shows "dw_frames w' = dw_frames w \<and> dw_interactions w' = dw_interactions w \<and> dw_busy w' = dw_busy w \<and>
    dw_ended w' = dw_ended w \<and> shrinks (w_broker w) (w_broker w') \<and> cw_caps w' = cw_caps w \<and> cw_calls w' = cw_calls w \<and>
    (w_io w' = w_io w \<or> (\<exists>cc. w_io w' = w_io w @ [NodeCall svid cc m p b]))"
  using assms shrinks_context [of w env c svid m p b] by (auto simp: injectResponseContext_def upd_broker_def Let_def
      split: option.splits http_reply.splits if_splits)

lemma backend_desktop:
  assumes "backend ds gone node req w = (res, w')"
  shows "dw_frames w' = dw_frames w \<and> dw_interactions w' = dw_interactions w \<and> dw_busy w' = dw_busy w \<and>
    dw_ended w' = dw_ended w \<and> shrinks (w_broker w) (w_broker w') \<and> cw_caps w' = cw_caps w \<and> cw_calls w' = cw_calls w \<and>
    (w_io w' = w_io w \<or>
      (\<exists>cc. w_io w' = w_io w @ [NodeCall node cc ''POST'' ''/desktop'' (Some (marshal (ds_lib ds) req))]))"
proof (cases gone)
  case None
  obtain got w1 where i: "injectResponseContext (sv_env (ds_server ds)) (ds_deadline ds (w_io w)) node ''POST''
      ''/desktop'' (Some (marshal (ds_lib ds) req)) w = (got, w1)" by fastforce
  have "w' = w1" using assms by (auto simp: backend_def None i split: sum.splits option.splits if_splits)
  then show ?thesis using inject_desktop [OF i] by simp
qed (use assms in \<open>simp add: backend_def\<close>)

lemma backend_served:
  assumes "backend ds gone (dx_node cx) req w = (res, w')" and "harmless req \<or> rechecked ds cx (w_io w)"
  shows "served ds cx w w'"
  using backend_desktop [OF assms(1)] assms(2) by (auto simp: served_defs)

lemma remember_own:
  assumes "frames_inv fs" and "remember lib img now (dx_owner cx) (dx_node cx) out fs = Inr fs'"
  shows "frames_inv fs' \<and> only_own_frames cx fs fs'"
proof -
  obtain obs im i where f: "fs' = gm_store i \<lparr>fr_Owner = dx_owner cx, fr_Node = dx_node cx, fr_Created = now,
      fr_Observation = obs, fr_Image = im\<rparr> (make_room (live_frames now fs))"
    using remember_Inr [OF assms(2)] by metis
  have wf: "gm_wf fs" using assms(1) by (simp add: frames_inv_def)
  have "gm_load fs k = Some g" if "gm_load (make_room (live_frames now fs)) k = Some g" for k g
  proof -
    have "(k, g) \<in> set fs" using gm_load_in_set [OF that]
      by (auto simp: make_room_def live_frames_def gm_set_delete split: if_splits)
    then show ?thesis using wf by (simp add: gm_wf_map_of)
  qed
  then show ?thesis using remember_inv [OF assms] by (auto simp: only_own_frames_def f)
qed

lemma served_remember:
  assumes "served ds cx u w"
    and "remember lib img now (dx_owner cx) (dx_node cx) out (dw_frames w) = Inr fs"
  shows "served ds cx u (w\<lparr>dw_frames := fs\<rparr>)"
  using assms remember_own [OF _ assms(2)] by (auto simp: served_def busy_left_def leases_ok_def leased_def intro: only_own_frames_trans)

lemma dispatch_served:
  assumes "dispatch ds cx req w = (res, w')" and "harmless req \<or> rechecked ds cx (w_io w)"
  shows "served ds cx w w'"
proof (cases "dx_err cx (w_io w)")
  case None
  obtain i w1 where n: "newID (ds_server ds) w = (i, w1)" by fastforce
  have 0: "w_io w1 = w_io w" "served ds cx w w1" using served_newID [OF n] by simp_all
  obtain got w2 where b: "backend ds (dx_err cx (w_io w1)) (dx_node cx) (jput ''id'' (JStr i) req) w1 = (got, w2)"
    by fastforce
  have 2: "served ds cx w w2"
    using served_trans [OF 0(2) backend_served [OF b]] assms(2) 0(1) by simp
  show ?thesis using assms(1) 2 served_remember [OF 2]
    by (auto simp: dispatch_def None n b Let_def split: sum.splits if_splits)
qed (use assms in \<open>simp add: dispatch_def\<close>)

lemma dispatch_leases:
  assumes "dispatch ds cx req w = (res, w')"
  shows "dw_interactions w' = dw_interactions w"
proof (cases "dx_err cx (w_io w)")
  case None
  obtain i w1 where n: "newID (ds_server ds) w = (i, w1)" by fastforce
  then have 0: "dw_interactions w1 = dw_interactions w" using newID_simps [of "ds_server ds" w] by simp
  obtain got w2 where b: "backend ds (dx_err cx (w_io w1)) (dx_node cx) (jput ''id'' (JStr i) req) w1 = (got, w2)"
    by fastforce
  show ?thesis using assms 0 backend_desktop [OF b]
    by (auto simp: dispatch_def None n b Let_def split: sum.splits if_splits)
qed (use assms in \<open>simp add: dispatch_def\<close>)

lemma recheck_served:
  assumes "recheck ds cx w = (e, w')"
  shows "served ds cx w w' \<and> (e = None \<longrightarrow> rechecked ds cx (w_io w')) \<and> dw_frames w' = dw_frames w \<and>
    dw_interactions w' = dw_interactions w \<and> dw_busy w' = dw_busy w \<and> dw_ended w' = dw_ended w"
proof (cases "ds_valid ds (w_io w) (pr_Raw (dx_principal cx))")
  case (Inr p)
  let ?w = "w\<lparr>w_io := w_io w @ [asked (dx_principal cx) ''full'']\<rparr>"
  have "w' = ?w \<and> (e = None \<longrightarrow> granted (ds_server ds) (dx_principal cx) ''full'' (w_io w))"
    using assms by (auto simp: recheck_def tower_def Inr granted_def asked_def split: sum.splits prod.splits bool.splits)
  then show ?thesis using Inr by (auto simp: served_defs asked_def)
qed (use assms in \<open>auto simp: recheck_def\<close>)

lemma act_served:
  assumes "act ds cx i a w = (res, w')"
  shows "served ds cx w w'"
proof (cases "dx_err cx (w_io w)")
  case None
  obtain e w1 where r: "recheck ds cx w = (e, w1)" by fastforce
  note s = recheck_served [OF r]
  have d: "served ds cx w w2" if "e = None" "dispatch ds cx req w1 = (got, w2)" for req got w2
    using served_trans [OF _ dispatch_served [OF that(2)]] s that(1) by blast
  show ?thesis using assms s d
    by (auto simp: act_def None r split: option.splits sum.splits prod.splits)
qed (use assms in \<open>simp add: act_def\<close>)

lemma wait_served: "wait ds cx session a w = (res, w') \<Longrightarrow> served ds cx w w'"
  by (auto simp: wait_def Let_def harmless_def split: if_splits intro!: dispatch_served)

lemma ground_served:
  assumes "ground ds cx f d w = (given, e, w')"
  shows "served ds cx w w'"
proof (cases "ds_nexus ds = []")
  case False
  obtain i w1 where n: "newID (ds_server ds) w = (i, w1)" by fastforce
  have 0: "w_io w1 = w_io w" "served ds cx w w1" "dw_interactions w1 = dw_interactions w" using served_newID [OF n] by simp_all
  then have 1: "served ds cx w (w1\<lparr>w_io := w_io w @ [ModelCall body]\<rparr>)" for body
    using False by (auto simp: served_defs)
  have "\<exists>body k det out. w' = audit ds cx k det out (w1\<lparr>w_io := w_io w @ [ModelCall body]\<rparr>)"
    using assms False 0(1) by (auto simp: ground_def n Let_def split: prod.splits)
  then show ?thesis using 1 by auto
qed (use assms in \<open>simp add: ground_def\<close>)

section \<open>Operations\<close>

lemma status_served:
  assumes "dispatch ds cx [(''op'', JStr ''status'')] w = (res, w')"
  shows "served ds cx w w'"
  using assms by (rule dispatch_served) (simp add: harmless_def jget_def)

lemma sessionStatus_served: "sessionStatus ds cx w = (res, w') \<Longrightarrow> served ds cx w w'"
  by (auto simp: sessionStatus_def split: prod.splits sum.splits if_splits dest: status_served)

lemma sign_in_served:
  assumes "sign_in ds cx m k key w = (res, w')"
  shows "served ds cx w w'"
proof -
  obtain i w1 where n: "newID (ds_server ds) w = (i, w1)" by fastforce
  let ?ch = "[(''id'', JStr i), (''op'', JStr ''identity_challenge'')]"
  obtain got w2 where b: "backend ds (dx_err cx (w_io w1)) (dx_node cx) ?ch w1 = (got, w2)" by fastforce
  have "served ds cx w w1" using served_newID [OF n] by simp
  also have "served ds cx w1 w2" using b by (rule backend_served) (simp add: harmless_def jget_def)
  finally have 2: "served ds cx w w2" .
  have 3: "served ds cx w w3 \<and> (e = None \<longrightarrow> rechecked ds cx (w_io w3))" if "recheck ds cx w2 = (e, w3)" for e w3
    using recheck_served [OF that] served_trans [OF 2] by blast
  have 4: "served ds cx w w4" if "recheck ds cx w2 = (None, w3)" "dispatch ds cx req w3 = (out, w4)" for w3 req out w4
    using 3 [OF that(1)] dispatch_served [OF that(2)] by (blast intro: served_trans)
  show ?thesis using assms 2 3 4
    by (auto simp: sign_in_def n b split: sum.splits option.splits if_splits prod.splits)
qed

lemma loginDesktop_served:
  assumes "loginDesktop ds cx w = (res, w')"
  shows "served ds cx w w'"
proof -
  obtain got w1 where d: "dispatch ds cx [(''op'', JStr ''status'')] w = (got, w1)" by fastforce
  have 1: "served ds cx w w1" using d by (rule status_served)
  have 2: "served ds cx w w2" if "recheck ds cx w1 = (e, w2)" for e w2
    using recheck_served [OF that] served_trans [OF 1] by blast
  have 3: "served ds cx w w3" if "recheck ds cx w1 = (e, w2)" "sign_in ds cx m k key w2 = (out, w3)" for e w2 m k key out w3
    using served_trans [OF 2 [OF that(1)] sign_in_served [OF that(2)]] .
  show ?thesis using assms 1 2 3
    by (auto simp: loginDesktop_def d Let_def split: sum.splits option.splits if_splits prod.splits bool.splits)
qed

lemma cancel_served:
  assumes "gm_load (dw_interactions w) (dx_node cx) = Some l" "dio_Owner l = dx_owner cx"
  shows "served ds cx w (cancel_interaction ds cx own w)"
proof -
  obtain i w1 where n: "newID (ds_server ds) w = (i, w1)" by fastforce
  let ?req = "[(''id'', JStr i), (''op'', JStr ''interact''), (''session_id'', JInt (dio_Session own)),
    (''interaction'', JObj (interaction_json (zero_interaction\<lparr>di_ID := dio_ID own, di_Operation := ''cancel''\<rparr>)))]"
  obtain got w2 where b: "backend ds None (dx_node cx) ?req w1 = (got, w2)" by fastforce
  have "served ds cx w w1" using served_newID [OF n] by simp
  also have "served ds cx w1 w2" using b by (rule backend_served) (auto simp: harmless_def jget_def)
  finally have 2: "served ds cx w w2" .
  have l: "gm_load (dw_interactions w2) (dx_node cx) = Some l"
    using assms backend_desktop [OF b] n newID_simps [of "ds_server ds" w] by simp
  have "leased ds cx w2 (w2\<lparr>dw_interactions := gm_delete (dx_node cx) (dw_interactions w2)\<rparr>)"
    by (rule leased_step) (use l assms(2) in \<open>simp_all add: lease_step.intros\<close>)
  then have "served ds cx w (w2\<lparr>dw_interactions := gm_delete (dx_node cx) (dw_interactions w2)\<rparr>)"
    by (intro served_lease [OF 2]) (simp_all add: leases_ok_def)
  then show ?thesis using 2 by (auto simp: cancel_interaction_def n b split: sum.splits)
qed

lemma remember_all_leases: "remember_all ds cx fs w = (e, w') \<Longrightarrow> dw_interactions w' = dw_interactions w"
  by (induction ds cx fs w rule: remember_all.induct) (auto split: sum.splits)

lemma remember_all_served: "served ds cx u w \<Longrightarrow> remember_all ds cx fs w = (e, w') \<Longrightarrow> served ds cx u w'"
  by (induction ds cx fs w rule: remember_all.induct) (auto split: sum.splits intro: served_remember)

lemma leases_ok_store [simp]:
  "leases_ok w \<Longrightarrow> leases_ok (w\<lparr>dw_interactions := gm_store n own (dw_interactions w)\<rparr>)"
  "leases_ok w \<Longrightarrow> leases_ok (w\<lparr>dw_interactions := gm_delete n (dw_interactions w)\<rparr>)"
  by (simp_all add: leases_ok_def)

lemma leases_ok_ended:
  assumes "leases_ok w"
  shows "leases_ok (w\<lparr>dw_ended := gm_store i t (if 64 \<le> length (dw_ended w) then tl (dw_ended w) else dw_ended w)\<rparr>)"
  using assms by (auto simp: leases_ok_def length_gm_store map_tl distinct_tl)

lemma settle_leased:
  assumes "gm_load (dw_interactions w) (dx_node cx) = Some own" "dio_Owner own = dx_owner cx"
  shows "leased ds cx w (settle_lease ds cx own out w)"
proof -
  have "minDesktopExpiry a (t + 65 * 1000000000) \<le> t + leaseMax" for a t
    by (simp add: minDesktopExpiry_def leaseMax_def)
  then show ?thesis using assms
    by (intro leased_step)
      (auto simp: settle_lease_def Let_def intro!: lease_step.intros split: option.splits)
qed

lemma settle_keeps:
  "w_io (settle_lease ds cx own out w) = w_io w" "dw_frames (settle_lease ds cx own out w) = dw_frames w"
  "dw_busy (settle_lease ds cx own out w) = dw_busy w" "w_broker (settle_lease ds cx own out w) = w_broker w"
  "cw_caps (settle_lease ds cx own out w) = cw_caps w" "cw_calls (settle_lease ds cx own out w) = cw_calls w"
  "n \<noteq> dx_node cx \<Longrightarrow> gm_load (dw_interactions (settle_lease ds cx own out w)) n = gm_load (dw_interactions w) n"
  by (simp_all add: settle_lease_def Let_def split: option.split)

lemma settle_served:
  assumes "gm_load (dw_interactions w) (dx_node cx) = Some own" "dio_Owner own = dx_owner cx"
  shows "served ds cx w (settle_lease ds cx own out w)"
proof -
  have "leases_ok (settle_lease ds cx own out w)" if "leases_ok w"
    using that leases_ok_ended [OF leases_ok_store(2) [OF that]]
    by (simp add: settle_lease_def Let_def split: option.split)
  then show ?thesis using settle_leased [OF assms] by (intro served_lease [OF served_refl]) (simp_all add: settle_keeps)
qed

lemma interact_call_served:
  assumes "interact_call ds cx r spec own w = (res, w')" and "rechecked ds cx (w_io w)"
    and own: "gm_load (dw_interactions w) (dx_node cx) = Some own" "dio_Owner own = dx_owner cx"
  shows "served ds cx w w'"
proof -
  let ?req = "[(''op'', JStr ''interact''), (''session_id'', JInt (dio_Session own)),
    (''frame_id'', JStr (dr_FrameID r)), (''interaction'', JObj (interaction_json spec))]"
  obtain got w1 where d: "dispatch ds cx ?req w = (got, w1)" by fastforce
  have 1: "served ds cx w w1" using dispatch_served [OF d] assms(2) by blast
  have 2: "served ds cx w w2" if "remember_all ds cx fs w1 = (e, w2)" for fs e w2
    using remember_all_served [OF 1 that] .
  have c: "served ds cx w (cancel_interaction ds cx own v)"
    if "served ds cx w v" "dw_interactions v = dw_interactions w" for v
    using served_trans [OF that(1) cancel_served] own that(2) by simp
  have s: "served ds cx w (settle_lease ds cx own out v)"
    if "served ds cx w v" "dw_interactions v = dw_interactions w" for v out
    using served_trans [OF that(1) settle_served] own that(2) by simp
  show ?thesis
  proof (cases got)
    case (Inl e)
    then show ?thesis using assms(1) 1 by (simp add: interact_call_def d)
  next
    case (Inr out)
    let ?fs = "case asArr (jget ''frames'' out) of None \<Rightarrow> [] | Some fs \<Rightarrow> fs"
    obtain e w2 where r: "(if 5 < length ?fs
        then (Some (Errnew ''too many interaction images; cancellation requested''), w1)
        else remember_all ds cx ?fs w1) = (e, w2)" by fastforce
    have "served ds cx w w2" "dw_interactions w2 = dw_interactions w"
      using r 1 2 dispatch_leases [OF d] remember_all_leases by (auto split: if_splits)
    then show ?thesis using assms(1) c s
      by (auto simp: interact_call_def d Inr r Let_def split: option.splits if_splits)
  qed
qed

lemma claim_lease_quiet:
  assumes "claim_lease ds cx r spec current w = (res, w')"
  shows "w_io w' = w_io w \<and> dw_frames w' = dw_frames w \<and> dw_interactions w' = dw_interactions w \<and>
    dw_busy w' = dw_busy w \<and> dw_ended w' = dw_ended w \<and> w_broker w' = w_broker w \<and>
    cw_caps w' = cw_caps w \<and> cw_calls w' = cw_calls w"
  using assms by (auto simp: claim_lease_def newID_def Let_def split: if_splits sum.splits option.splits prod.splits)

text \<open>The lease a request is given: the node was free, or it is the caller's own.\<close>

lemma claim_lease_grants:
  assumes "claim_lease ds cx r spec current w = (Inr own, w')"
  shows "dio_Owner own = dx_owner cx \<and>
    (if di_Operation spec = ''begin'' then current = None \<and> dio_Session own \<noteq> 0
     else current = Some own \<and> dio_ID own = di_ID spec)"
  using assms by (auto simp: claim_lease_def Let_def split: if_splits sum.splits option.splits prod.splits)

lemma interact_served:
  assumes "interact ds cx r spec w = (res, w')" and "di_LeaseMS spec \<le> 60000"
  shows "served ds cx w w'"
proof -
  obtain e w1 where r: "recheck ds cx w = (e, w1)" by fastforce
  note 1 = recheck_served [OF r]
  show ?thesis
  proof (cases e)
    case (Some x)
    then show ?thesis using assms(1) 1 by (simp add: interact_def r)
  next
    case None
    let ?now = "now_of (ds_server ds) w1"
    define current where "current = (case gm_load (dw_interactions w1) (dx_node cx) of None \<Rightarrow> None
      | Some own \<Rightarrow> if dio_Expires own < ?now then None else Some own)"
    define w2 where "w2 = (if current = None
      then w1\<lparr>dw_interactions := gm_delete (dx_node cx) (dw_interactions w1)\<rparr> else w1)"
    define w3 where "w3 = w2\<lparr>dw_ended := filter (\<lambda>(i, e). \<not> 180 * 1000000000 < ?now - dti_At e) (dw_ended w2)\<rparr>"
    have "leased ds cx w1 w2"
      by (auto simp: w2_def current_def intro!: leased_expire split: if_splits)
    then have 3: "served ds cx w w3" "w_io w3 = w_io w1" "gm_load (dw_interactions w3) (dx_node cx) = current"
      using 1 by (auto intro!: served_lease [of ds cx w w1] order_trans [OF length_filter_le]
          simp: w3_def w2_def current_def leases_ok_def leased_def split: option.splits)
    obtain got w4 where c: "claim_lease ds cx r spec current w3 = (got, w4)" by fastforce
    note q = claim_lease_quiet [OF c]
    have 5: "served ds cx w w4" using 3(1) by (rule served_quiet) (use q in \<open>simp_all add: leases_ok_def\<close>)
    have 4: "served ds cx w (w4\<lparr>dw_interactions := gm_store (dx_node cx) own' (dw_interactions w4)\<rparr>)"
      if "got = Inr own" "own' = own\<lparr>dio_Expires := now_of (ds_server ds) w4 + (l + 15000) * 1000000\<rparr>" "l \<le> 60000" for own own' l
    proof -
      have "dio_Expires own' \<le> now_of (ds_server ds) w4 + leaseMax" using that by (simp add: leaseMax_def)
      moreover have "gm_load (dw_interactions w4) (dx_node cx) = current" using q 3(3) by simp
      ultimately have "leased ds cx w4 (w4\<lparr>dw_interactions := gm_store (dx_node cx) own' (dw_interactions w4)\<rparr>)"
        using claim_lease_grants [OF c [unfolded that(1)]] that(2)
        by (intro leased_step) (auto intro!: lease_step.intros split: if_splits)
      then show ?thesis by (intro served_lease [OF 5]) (simp_all add: leases_ok_def)
    qed
    have chk: "rechecked ds cx (w_io w4)" using 1 None q 3(2) by simp
    have 6: "served ds cx w w6"
      if "got = Inr own" "l = (if di_LeaseMS spec = 0 then 60000 else di_LeaseMS spec)"
        "own' = own\<lparr>dio_Expires := now_of (ds_server ds) w4 + (l + 15000) * 1000000\<rparr>"
        "interact_call ds cx r s own' (w4\<lparr>dw_interactions := gm_store (dx_node cx) own' (dw_interactions w4)\<rparr>) = (x, w6)"
      for own own' l s x w6
    proof -
      have "l \<le> 60000" using that(2) assms(2) by simp
      note 7 = 4 [OF that(1,3) this]
      have "dio_Owner own' = dx_owner cx" using claim_lease_grants [OF c [unfolded that(1)]] that(3) by simp
      then show ?thesis using served_trans [OF 7 interact_call_served [OF that(4)]] chk by simp
    qed
    show ?thesis using assms(1) 3(1) 5 6
      unfolding interact_def r None Let_def option.case prod.case current_def [symmetric] w2_def [symmetric] w3_def [symmetric] c
      by (auto split: if_splits sum.splits)
  qed
qed

lemma wait_step_served: "wait_step ds cx f a w = (res, w') \<Longrightarrow> served ds cx w w'"
  by (auto simp: wait_step_def Let_def split: if_splits prod.splits sum.splits dest: wait_served)

lemma task_step_served:
  assumes "task_step ds cx f i a w = (res, shown, w')"
  shows "served ds cx w w'"
proof -
  obtain g e w1 where gr: "(if da_Target a = [] then (None, None, w) else ground ds cx f (da_Target a) w) = (g, e, w1)"
    by (cases "if da_Target a = [] then (None, None, w) else ground ds cx f (da_Target a) w")
  have 1: "served ds cx w w1" using gr by (auto split: if_splits dest: ground_served)
  have 2: "served ds cx w w2" if "act ds cx j b w1 = (x, w2)" for j b x w2
    using served_trans [OF 1 act_served [OF that]] .
  have 3: "served ds cx w w2" if "wait_step ds cx f b w1 = (x, w2)" for b x w2
    using served_trans [OF 1 wait_step_served [OF that]] .
  show ?thesis using assms 1 2 3
    unfolding task_step_def gr Let_def prod.case
    by (auto split: option.splits if_splits prod.splits sum.splits)
qed

text \<open>The outcome of one turn of the loop, apart from its receipt.\<close>

definition one_step :: "dserver \<Rightarrow> dctx \<Rightarrow> string \<Rightarrow> DesktopAction \<Rightarrow> dworld \<Rightarrow> (goerror + jobj) \<times> jobj \<times> dworld" where
  "one_step ds cx i a w = (case frame (now_of (ds_server ds) w) (dx_owner cx) (dx_node cx) i (dw_frames w) of
     Inl e \<Rightarrow> (Inl e, [], w)
   | Inr f \<Rightarrow> (case dx_err cx (w_io w) of Some e \<Rightarrow> (Inl e, [], w) | None \<Rightarrow> task_step ds cx f i a w))"

lemma one_step_served: "one_step ds cx i a w = (got, shown, w') \<Longrightarrow> served ds cx w w'"
  by (auto simp: one_step_def split: sum.splits option.splits dest: task_step_served)

lemma task_loop_turn:
  assumes "one_step ds cx i a w = (got, shown, w1)"
  shows "task_loop ds cx n (a # steps) i out rs w =
    (let receipt = step_receipt (ds_lib ds) n a i;
         f = (case frame (now_of (ds_server ds) w) (dx_owner cx) (dx_node cx) i (dw_frames w) of
           Inl _ \<Rightarrow> None | Inr f \<Rightarrow> Some f)
     in case got of
       Inl e \<Rightarrow> (Some (task_stopped f e, rs @ [receipt @ shown @ [(''error'', JStr (err_text e))]]), w1)
     | Inr out \<Rightarrow>
       (case or_null (jget ''observation'' out) of
          JNull \<Rightarrow> if jget ''ok'' out \<noteq> Some (JBool True) then (Some (out, rs @ [receipt @ shown @ step_outcome out]), w1)
            else task_loop ds cx (Suc n) steps i out (rs @ [receipt @ shown @ step_outcome out]) w1
        | JObj obs \<Rightarrow>
            (let rs = rs @ [receipt @ shown @ step_outcome out @ [(''after_frame'', JStr (asStr (jget ''frame_id'' obs)))] @
                 foreground_shown obs]
             in if jget ''ok'' out \<noteq> Some (JBool True) then (Some (out, rs), w1)
                else task_loop ds cx (Suc n) steps (asStr (jget ''frame_id'' obs)) out rs w1)
        | _ \<Rightarrow> (None, w1)))"
  using assms unfolding one_step_def
  by (auto simp: Let_def split: sum.splits option.splits json.splits)

lemma task_loop_served: "task_loop ds cx n steps i out rs w = (res, w') \<Longrightarrow> served ds cx w w'"
proof (induction steps arbitrary: n i out rs w)
  case (Cons a steps)
  obtain got shown w1 where o: "one_step ds cx i a w = (got, shown, w1)" by (cases "one_step ds cx i a w")
  have 1: "served ds cx w w1" using o by (rule one_step_served)
  have 2: "served ds cx w w'" if "task_loop ds cx m steps j out' rs' w1 = (res, w')" for m j out' rs'
    using served_trans [OF 1 Cons.IH [OF that]] .
  show ?case using Cons.prems 1 2 unfolding task_loop_turn [OF o] Let_def
    by (auto split: sum.splits json.splits if_splits)
qed simp

lemma simple_op_served:
  assumes "simple_op ds cx op r w = (res, w')"
  shows "served ds cx w w'"
proof -
  obtain e w1 where k: "recheck ds cx w = (e, w1)" by fastforce
  note 1 = recheck_served [OF k]
  have 2: "served ds cx w w2" if "e = None" "dispatch ds cx req w1 = (out, w2)" for req out w2
    using served_trans [OF _ dispatch_served [OF that(2)]] 1 that(1) by blast
  show ?thesis using assms 1 2 by (auto simp: simple_op_def k split: option.splits prod.splits sum.splits if_splits)
qed

lemma find_op_served: "find_op ds cx r w = (res, w') \<Longrightarrow> served ds cx w w'"
  by (auto simp: find_op_def Let_def split: sum.splits prod.splits option.splits dest: ground_served)

lemma observe_op_served:
  assumes "observe_op ds cx t r w = (res, w')"
  shows "served ds cx w w'"
proof -
  let ?req = "[(''op'', JStr ''observe''), (''wait_ms'', JInt (dr_WaitMS r)), (''session_id'', JInt (dr_SessionID r))]"
  obtain got w1 where d: "dispatch ds cx ?req w = (got, w1)" by fastforce
  have 1: "served ds cx w w1" using d by (rule dispatch_served) (simp add: harmless_def jget_def)
  have 2: "served ds cx w w2" if "task_loop ds cx n steps i out rs w1 = (x, w2)" for n steps i out rs x w2
    using served_trans [OF 1 task_loop_served [OF that]] .
  show ?thesis using assms 1 2
    by (auto simp: observe_op_def d Let_def split: sum.splits option.splits if_splits prod.splits)
qed

lemma execute_op_served:
  assumes "execute_op ds cx op r w = (res, w')"
  shows "served ds cx w w'"
proof -
  note s = loginDesktop_served simple_op_served observe_op_served find_op_served
  have 1: "served ds cx w (snd (loginDesktop ds cx w))" "served ds cx w (snd (simple_op ds cx op r w))"
    "served ds cx w (snd (observe_op ds cx t r w))" "served ds cx w (snd (find_op ds cx r w))" for t
    by (rule s, rule prod.collapse [symmetric])+
  have 2: "served ds cx w v" if "wait ds cx n a w = (x, v)" for n a x v using that by (rule wait_served)
  have 3: "served ds cx w v" if "act ds cx i a w = (x, v)" for i a x v using that by (rule act_served)
  have "served ds cx w (snd (execute_op ds cx op r w))"
    unfolding execute_op_def
    by (simp add: 1 split: option.split prod.split sum.split) (intro allI impI conjI, (erule 2 3 | simp)+)
  then show ?thesis using assms by simp
qed

lemma status_op_served: "status_op ds cx w = (res, w') \<Longrightarrow> served ds cx w w'"
  by (auto simp: status_op_def split: prod.splits sum.splits dest: sessionStatus_served)

lemma busy_simps [simp]:
  "w_io (set_busy n w) = w_io w" "dw_frames (set_busy n w) = dw_frames w" "dw_interactions (set_busy n w) = dw_interactions w"
  "w_io (clear_busy n w) = w_io w" "dw_frames (clear_busy n w) = dw_frames w"
  "dw_interactions (clear_busy n w) = dw_interactions w"
  by (simp_all add: set_busy_def clear_busy_def)

lemma leases_ok_busy [simp]: "leases_ok (set_busy n w) = leases_ok w" "leases_ok (clear_busy n w) = leases_ok w"
  by (simp_all add: leases_ok_def set_busy_def clear_busy_def)

lemma gm_delete_store [simp]: "gm_delete k (gm_store k v m) = gm_delete k m"
  by (induction m) (auto simp: gm_delete_def)

text \<open>Whatever runs while the node is busy, releasing the node at the end leaves it free.\<close>

lemma served_released:
  assumes "served ds cx (set_busy (dx_node cx) w) v"
  shows "served ds cx w (clear_busy (dx_node cx) v)"
  using assms by (auto simp: served_def busy_left_def set_busy_def [of _ w] leases_ok_def clear_busy_def leased_def)

text \<open>Behind the guards of \<open>execute\<close>: the lease of the node is dropped when it has expired.\<close>

definition unleased :: "dserver \<Rightarrow> dctx \<Rightarrow> dworld \<Rightarrow> dworld" where
  "unleased ds cx w = (if \<exists>own. gm_load (dw_interactions w) (dx_node cx) = Some own \<and> dio_Expires own < now_of (ds_server ds) w
     then w\<lparr>dw_interactions := gm_delete (dx_node cx) (dw_interactions w)\<rparr> else w)"

lemma unleased_served: "served ds cx w (unleased ds cx w)"
  by (auto simp: unleased_def intro!: served_lease [OF served_refl] leased_expire)

lemma execute_status: "execute ds cx ''status'' r w = apfst Some (status_op ds cx w)"
  by (simp add: execute_def)

lemma execute_frame: "execute ds cx ''frame'' r w = (Some (frame_op ds cx r w), w)"
  by (simp add: execute_def)

lemma execute_busy:
  assumes "gm_load (dw_busy w) (dx_node cx) = Some True"
  shows "execute ds cx op r w = (if op = ''status'' then apfst Some (status_op ds cx w)
    else if op = ''frame'' then (Some (frame_op ds cx r w), w)
    else (Some (execute_fail (Errnew ''desktop busy; another operation owns this node'')), w))"
  unfolding execute_def Let_def using assms by simp

lemma execute_owned:
  assumes "op \<noteq> ''status''" "op \<noteq> ''frame''" "gm_load (dw_busy w) (dx_node cx) \<noteq> Some True"
  shows "execute ds cx op r w =
    (let b = set_busy (dx_node cx) w; u = unleased ds cx b;
         (got, v) = (if op = ''interact'' then
             (case dr_Interaction r of None \<Rightarrow> (None, b) | Some spec \<Rightarrow> apfst Some (interact ds cx r spec b))
           else if gm_load (dw_interactions u) (dx_node cx) \<noteq> None
           then (Some (execute_fail (Errnew ''desktop interaction active; its owner must continue or release it'')), u)
           else execute_op ds cx op r u)
     in (got, clear_busy (dx_node cx) v))"
  using assms by (auto simp: execute_def unleased_def Let_def split_beta cong: if_cong simp del: busy_simps)

lemma execute_served:
  assumes "execute ds cx op r w = (res, w')" and "\<And>i. dr_Interaction r = Some i \<Longrightarrow> di_LeaseMS i \<le> 60000"
  shows "served ds cx w w'"
proof -
  let ?n = "dx_node cx" and ?b = "set_busy (dx_node cx) w"
  let ?u = "unleased ds cx ?b"
  have u: "served ds cx ?b ?u" by (rule unleased_served)
  have i: "served ds cx ?b (snd (interact ds cx r spec ?b))" if "dr_Interaction r = Some spec" for spec
    by (rule interact_served [OF prod.collapse [symmetric] assms(2) [OF that]])
  have o: "served ds cx ?b (snd (execute_op ds cx op r ?u))"
    using u by (blast intro: served_trans execute_op_served [OF prod.collapse [symmetric]])
  have s: "served ds cx w (snd (status_op ds cx w))" by (rule status_op_served) (rule prod.collapse [symmetric])
  show ?thesis
  proof (cases "op = ''status'' \<or> op = ''frame'' \<or> gm_load (dw_busy w) ?n = Some True")
    case True
    then show ?thesis using assms(1) s by (auto simp: execute_def Let_def apfst_def map_prod_def split: prod.splits if_splits)
  next
    case False
    let ?x = "if op = ''interact'' then
        (case dr_Interaction r of None \<Rightarrow> (None, ?b) | Some spec \<Rightarrow> apfst Some (interact ds cx r spec ?b))
      else if gm_load (dw_interactions ?u) ?n \<noteq> None
      then (Some (execute_fail (Errnew ''desktop interaction active; its owner must continue or release it'')), ?u)
      else execute_op ds cx op r ?u"
    have "w' = clear_busy ?n (snd ?x)"
      using assms(1) False by (simp add: execute_owned Let_def split_beta)
    moreover have "served ds cx ?b (snd ?x)" using u i o by (auto split: option.splits)
    ultimately show ?thesis using served_released by (simp only:)
  qed
qed

text \<open>A validated interaction holds its lease for at most a minute.\<close>

lemma valid_lease:
  assumes "validateDesktopRequest op r = None" and "dr_Interaction r = Some i"
  shows "di_LeaseMS i \<le> 60000"
proof -
  have "op \<noteq> ''status'' \<and> op \<noteq> ''login''" using assms by (auto simp: validateDesktopRequest_def only_node_def split: if_splits)
  then have "validate_interact r = None"
    using assms unfolding validateDesktopRequest_def by (auto split: if_splits option.splits)
  then have "validateDesktopInteraction (Some i) = None"
    using assms(2) unfolding validate_interact_def by (auto split: if_splits option.splits)
  then show ?thesis unfolding validateDesktopInteraction_def by (auto split: if_splits)
qed

section \<open>The handler\<close>

definition ctx_of :: "principal \<Rightarrow> captureOwner \<Rightarrow> string \<Rightarrow> string \<Rightarrow> string \<Rightarrow> (io list \<Rightarrow> goerror option) \<Rightarrow> dctx" where
  "ctx_of p owner name node rid err = \<lparr>dx_err = err, dx_principal = p, dx_owner = owner, dx_name = name,
     dx_node = node, dx_rid = rid\<rparr>"

lemma recordStart_served: "served ds cx u w \<Longrightarrow> served ds cx u (recordStart e w)"
  by (erule served_quiet) (simp_all add: recordStart_def)

lemma desktop_run_executes:
  assumes "desktop_run ds p owner op err r node ev w = (resp, ev', w')"
  shows "w' = w \<or> (supportsDesktop node (w_broker w) \<and> (\<exists>ev2 got.
    execute ds (ctx_of p owner (dr_Node r) node (ev_RequestID ev) err) op r (recordStart ev2 w) = (got, w')))"
proof (cases "(op = ''status'' \<and> \<not> nodeCapability node ''desktop_status'' (w_broker w)) \<or>
    unsupported op node (w_broker w) \<noteq> None")
  case True
  then show ?thesis using assms by (auto simp: desktop_run_def Let_def split: if_splits option.splits prod.splits)
next
  case False
  then have "supportsDesktop node (w_broker w)" by (auto simp: unsupported_def split: if_splits)
  then show ?thesis using assms False
    by (fastforce simp: desktop_run_def Let_def ctx_of_def split: option.splits prod.splits)
qed

text \<open>
  What a request did: nothing but perhaps ask the tower, or, for a caller with the full grant and a
  complete identity and a valid request for a live Windows node, what \<open>served\<close> allows.
\<close>

lemma desktop_body_admits:
  assumes "desktop_body ds p op err rq ev w = (resp, ev', w')"
  obtains (refused) "w' = w \<or> w' = w\<lparr>w_io := w_io w @ [asked p ''full'']\<rparr>"
  | (admitted) r owner node rid where "decode_request (ds_lib ds) (rq_body rq) = Some r"
      "validateDesktopRequest op r = None" "granted (ds_server ds) p ''full'' (w_io w)"
      "captureOwnerFor p = Some owner" "resolveTarget (sv_casing (ds_server ds)) (dr_Node r) (w_broker w) = (node, [])"
      "supportsDesktop node (w_broker w)"
      "\<exists>ev2 got. execute ds (ctx_of p owner (dr_Node r) node rid err) op r
        (recordStart ev2 (w\<lparr>w_io := w_io w @ [asked p ''full'']\<rparr>)) = (got, w')"
      "served ds (ctx_of p owner (dr_Node r) node rid err) (w\<lparr>w_io := w_io w @ [asked p ''full'']\<rparr>) w'"
proof -
  let ?w = "w\<lparr>w_io := w_io w @ [asked p ''full'']\<rparr>"
  have cand: "cand = []" if "resolveTarget cas n b = (node, cand)" "node \<noteq> []" for cas n b node cand
    using that by (auto simp: resolveTarget_def resolveAmong_def Let_def split: if_splits option.splits)
  show ?thesis
  proof (cases "\<exists>r owner node cand reason. decode_request (ds_lib ds) (rq_body rq) = Some r \<and>
      validateDesktopRequest op r = None \<and> authorize (ds_lib ds) (e_tower (sv_env (ds_server ds)) (w_io w)
        ''/control/v1/authorize'' (authorize_body p ''full'')) = Inr (True, reason) \<and>
      captureOwnerFor p = Some owner \<and>
      resolveTarget (sv_casing (ds_server ds)) (dr_Node r) (w_broker w) = (node, cand) \<and> node \<noteq> []")
    case True
    then obtain r owner node cand reason where d: "decode_request (ds_lib ds) (rq_body rq) = Some r"
      "validateDesktopRequest op r = None"
      and a: "authorize (ds_lib ds) (e_tower (sv_env (ds_server ds)) (w_io w)
        ''/control/v1/authorize'' (authorize_body p ''full'')) = Inr (True, reason)"
      and o: "captureOwnerFor p = Some owner"
      and t: "resolveTarget (sv_casing (ds_server ds)) (dr_Node r) (w_broker w) = (node, cand)" "node \<noteq> []" by blast
    let ?ev = "ev\<lparr>ev_Allowed := True, ev_Reason := reason, ev_Node := dr_Node r, ev_SVID := node\<rparr>"
    have run: "desktop_run ds p owner op err r node ?ev ?w = (resp, ev', w')"
      using assms d a o t by (simp add: desktop_body_def tower_def asked_def Let_def)
    show ?thesis
    proof (cases "w' = ?w")
      case True
      then show ?thesis using refused by blast
    next
      case False
      let ?cx = "ctx_of p owner (dr_Node r) node (ev_RequestID ?ev) err"
      from False desktop_run_executes [OF run] obtain ev2 got where s: "supportsDesktop node (w_broker w)"
        and x: "execute ds ?cx op r (recordStart ev2 ?w) = (got, w')" by auto
      have "served ds ?cx ?w w'"
        using served_trans [OF recordStart_served [OF served_refl] execute_served [OF x valid_lease [OF d(2)]]] .
      then show ?thesis
        using admitted [OF d _ o, of node "ev_RequestID ?ev"] a t(1) cand [OF t] s x by (auto simp: granted_def)
    qed
  next
    case False
    then have "w' = w \<or> w' = ?w"
      using assms by (auto simp: desktop_body_def tower_def asked_def Let_def
          split: option.splits sum.splits prod.splits if_splits)
    then show ?thesis by (rule refused)
  qed
qed

end
