(* ===== verification/DesktopTask.thy ===== *)
theory DesktopTask
  imports DesktopSafe
begin

text \<open>
  Tasks: what the receipts of the steps say and where the loop ends; and which operations can panic.
\<close>

section \<open>Receipts of a task\<close>

text \<open>What is shown of grounding and condition hides no other member of a receipt.\<close>

lemma wait_step_shown: "wait_step ds cx f a w = (Inr (out, extra), w') \<Longrightarrow> \<exists>v. extra = [(''condition_met'', v)]"
  by (auto simp: wait_step_def Let_def split: if_splits prod.splits sum.splits)

lemma task_step_shown:
  assumes "task_step ds cx f i a w = (got, shown, w')"
  shows "set (map fst shown) \<subseteq> {''grounding'', ''condition_met''}"
proof -
  obtain g e w1 where gr: "(if da_Target a = [] then (None, None, w) else ground ds cx f (da_Target a) w) = (g, e, w1)"
    by (cases "if da_Target a = [] then (None, None, w) else ground ds cx f (da_Target a) w")
  have x: "\<exists>v. extra = [(''condition_met'', v)]" if "wait_step ds cx f b w1 = (Inr (out, extra), w2)" for b out extra w2
    using wait_step_shown [OF that] .
  show ?thesis using assms unfolding task_step_def gr Let_def prod.case
    by (auto split: option.splits if_splits prod.splits sum.splits dest!: x)
qed

lemma jget_absent: "k \<notin> set (map fst ob) \<Longrightarrow> jget k ob = None"
  by (simp add: jget_def map_of_eq_None_iff)

lemma one_step_shown:
  assumes "one_step ds cx i a w = (got, shown, w')" and "k \<notin> {''grounding'', ''condition_met''}"
  shows "jget k shown = None"
proof -
  have "set (map fst shown) \<subseteq> {''grounding'', ''condition_met''}"
    using assms(1) task_step_shown [of ds cx _ i a w got shown w']
    by (simp add: one_step_def split: sum.splits option.splits)
  then show ?thesis using assms(2) by (intro jget_absent) blast
qed

lemma jget_outcome:
  "jget k (step_outcome out) = (if k \<in> {''ok'', ''input_status'', ''error'', ''frame_changed'', ''foreground_changed''}
     then Some (or_null (jget k out)) else None)"
  by (auto simp: step_outcome_def jget_Cons)

lemma or_null_true: "or_null x = JBool b \<longleftrightarrow> x = Some (JBool b)"
  by (cases x) (auto simp: or_null_def)

lemma jget_foreground: "k \<noteq> ''foreground_after'' \<Longrightarrow> jget k (foreground_shown obs) = None"
  by (auto simp: foreground_shown_def jget_Cons split: option.splits)

abbreviation succeeded :: "jobj \<Rightarrow> bool" where
  "succeeded r \<equiv> jget ''ok'' r = Some (JBool True)"

text \<open>The frame the next step starts from.\<close>

definition frame_after :: "jobj \<Rightarrow> json option" where
  "frame_after r = (case jget ''after_frame'' r of None \<Rightarrow> jget ''before_frame'' r | Some f \<Rightarrow> Some f)"

text \<open>
  A record of the first steps of a task from step \<open>n\<close> on: the receipts, the worlds between the steps,
  and the outcome.
\<close>

definition task_log :: "dserver \<Rightarrow> dctx \<Rightarrow> nat \<Rightarrow> DesktopAction list \<Rightarrow> string \<Rightarrow> dworld list \<Rightarrow> jobj list \<Rightarrow> jobj \<Rightarrow> bool" where
  "task_log ds cx n steps i ws rs res \<longleftrightarrow> length ws = Suc (length rs) \<and> length rs \<le> length steps \<and>
     (rs \<noteq> [] \<longrightarrow> jget ''before_frame'' (rs ! 0) = Some (JStr i)) \<and>
     (\<forall>k < length rs. jget ''index'' (rs ! k) = Some (JInt (int (n + k))) \<and>
        jget ''action'' (rs ! k) = Some (JObj (desktopActionSummary (ds_lib ds) (steps ! k))) \<and>
        (\<exists>f got shown. jget ''before_frame'' (rs ! k) = Some (JStr f) \<and>
           one_step ds cx f (steps ! k) (ws ! k) = (got, shown, ws ! Suc k)) \<and>
        (Suc k < length rs \<longrightarrow> succeeded (rs ! k) \<and> jget ''before_frame'' (rs ! Suc k) = frame_after (rs ! k))) \<and>
     (if rs = [] then steps = [] else (succeeded res \<longleftrightarrow> succeeded (last rs)) \<and>
        (succeeded res \<longrightarrow> length rs = length steps))"

lemma task_log_Cons:
  assumes "jget ''index'' r = Some (JInt (int n))" "jget ''action'' r = Some (JObj (desktopActionSummary (ds_lib ds) a))"
    and "jget ''before_frame'' r = Some (JStr i)" "one_step ds cx i a w = (got, shown, ws ! 0)"
    and "succeeded r" "frame_after r = Some (JStr j)" "task_log ds cx (Suc n) steps j ws rs res"
    and "rs = [] \<Longrightarrow> succeeded res"
  shows "task_log ds cx n (a # steps) i (w # ws) (r # rs) res"
proof -
  have "jget ''index'' ((r # rs) ! k) = Some (JInt (int (n + k))) \<and>
      jget ''action'' ((r # rs) ! k) = Some (JObj (desktopActionSummary (ds_lib ds) ((a # steps) ! k))) \<and>
      (\<exists>f got shown. jget ''before_frame'' ((r # rs) ! k) = Some (JStr f) \<and>
         one_step ds cx f ((a # steps) ! k) ((w # ws) ! k) = (got, shown, (w # ws) ! Suc k)) \<and>
      (Suc k < length (r # rs) \<longrightarrow> succeeded ((r # rs) ! k) \<and>
         jget ''before_frame'' ((r # rs) ! Suc k) = frame_after ((r # rs) ! k))" if "k < length (r # rs)" for k
  proof (cases k)
    case 0
    then show ?thesis using assms by (auto simp: task_log_def)
  next
    case (Suc m)
    then have "m < length rs" using that by simp
    then show ?thesis using assms(7) Suc by (auto simp: task_log_def)
  qed
  then show ?thesis using assms by (auto simp: task_log_def)
qed

lemma task_log_one:
  assumes "jget ''index'' r = Some (JInt (int n))" "jget ''action'' r = Some (JObj (desktopActionSummary (ds_lib ds) a))"
    and "jget ''before_frame'' r = Some (JStr i)" "one_step ds cx i a w = (got, shown, w')"
    and "\<not> succeeded r" "\<not> succeeded res"
  shows "task_log ds cx n (a # steps) i [w, w'] [r] res"
  using assms by (auto simp: task_log_def)

lemma task_loop_log:
  assumes "task_loop ds cx n steps i out rs0 w = (Some (res, rs), w')" and "n = 0 \<or> succeeded out"
  shows "\<exists>new ws. rs = rs0 @ new \<and> ws ! 0 = w \<and> last ws = w' \<and> task_log ds cx n steps i ws new res \<and>
    (new = [] \<longrightarrow> res = out)"
  using assms
proof (induction steps arbitrary: n i out rs0 w)
  case Nil
  then show ?case by (intro exI [of _ "[]"] exI [of _ "[w]"]) (auto simp: task_log_def)
next
  case (Cons a steps)
  obtain got shown w1 where o: "one_step ds cx i a w = (got, shown, w1)" by (cases "one_step ds cx i a w")
  note sh = one_step_shown [OF o]
  let ?head = "step_receipt (ds_lib ds) n a i @ shown"
  have head: "jget ''index'' (?head @ x) = Some (JInt (int n))" "jget ''action'' (?head @ x) = Some (JObj (desktopActionSummary (ds_lib ds) a))"
    "jget ''before_frame'' (?head @ x) = Some (JStr i)"
    if "jget ''index'' x = None" "jget ''action'' x = None" "jget ''before_frame'' x = None" for x
    using that sh by (auto simp: jget_append step_receipt_def jget_Cons)
  show ?case
  proof (cases got)
    case (Inl e)
    let ?r = "?head @ [(''error'', JStr (err_text e))]"
    have "\<not> succeeded ?r" using sh by (simp add: jget_append step_receipt_def jget_Cons)
    moreover obtain f where r: "rs = rs0 @ [?r]" "res = task_stopped f e" "w' = w1"
      using Cons.prems(1) unfolding task_loop_turn [OF o] by (auto simp: Inl Let_def)
    moreover have "\<not> succeeded res" by (simp add: r(2) task_stopped_def jget_Cons)
    ultimately have "task_log ds cx n (a # steps) i [w, w'] [?r] res"
      using o head [of "[(''error'', JStr (err_text e))]"] by (intro task_log_one) (auto simp: jget_Cons)
    then show ?thesis using r by (intro exI [of _ "[?r]"] exI [of _ "[w, w']"]) simp
  next
    case (Inr out')
    have turn: ?thesis
      if t: "task_loop ds cx n (a # steps) i out rs0 w = (if succeeded out' then
          task_loop ds cx (Suc n) steps j out' (rs0 @ [?head @ step_outcome out' @ x]) w1
          else (Some (out', rs0 @ [?head @ step_outcome out' @ x]), w1))"
        and x: "\<And>k. k \<notin> {''after_frame'', ''foreground_after''} \<Longrightarrow> jget k x = None"
        and j: "(case jget ''after_frame'' x of None \<Rightarrow> JStr i | Some v \<Rightarrow> v) = JStr j" for j x
    proof -
      let ?r = "?head @ step_outcome out' @ x"
      have h: "jget ''index'' ?r = Some (JInt (int n))" "jget ''action'' ?r = Some (JObj (desktopActionSummary (ds_lib ds) a))"
        "jget ''before_frame'' ?r = Some (JStr i)" "succeeded ?r \<longleftrightarrow> succeeded out'"
        using head [of "step_outcome out' @ x"] x by (simp_all add: jget_append jget_outcome or_null_true)
      have fa: "frame_after ?r = Some (JStr j)"
        using j h(3) sh by (auto simp: frame_after_def jget_append jget_outcome step_receipt_def jget_Cons split: option.splits)
      show ?thesis
      proof (cases "succeeded out'")
        case False
        then have "rs = rs0 @ [?r]" "res = out'" "w' = w1" using Cons.prems(1) t by simp_all
        moreover have "task_log ds cx n (a # steps) i [w, w1] [?r] out'"
          using h o False by (intro task_log_one) auto
        ultimately show ?thesis by (intro exI [of _ "[?r]"] exI [of _ "[w, w']"]) simp
      next
        case True
        then have "task_loop ds cx (Suc n) steps j out' (rs0 @ [?r]) w1 = (Some (res, rs), w')" using Cons.prems(1) t by simp
        from Cons.IH [OF this] True obtain new ws where n: "rs = (rs0 @ [?r]) @ new" "ws ! 0 = w1" "last ws = w'"
          "task_log ds cx (Suc n) steps j ws new res" "new = [] \<longrightarrow> res = out'" by blast
        have "ws \<noteq> []" using n(4) by (auto simp: task_log_def)
        moreover have "task_log ds cx n (a # steps) i (w # ws) (?r # new) res"
          using h o True fa n by (intro task_log_Cons [OF _ _ _ _ _ fa]) auto
        ultimately show ?thesis using n by (intro exI [of _ "?r # new"] exI [of _ "w # ws"]) simp
      qed
    qed
    show ?thesis
    proof (cases "or_null (jget ''observation'' out')")
      case JNull
      show ?thesis by (rule turn [of i "[]"]) (auto simp: task_loop_turn [OF o] Inr JNull Let_def simp del: task_loop.simps)
    next
      case (JObj obs)
      show ?thesis
        by (rule turn [of "asStr (jget ''frame_id'' obs)" "[(''after_frame'', JStr (asStr (jget ''frame_id'' obs)))] @ foreground_shown obs"])
          (auto simp: task_loop_turn [OF o] Inr JObj Let_def jget_Cons jget_foreground simp del: task_loop.simps)
    qed (use Cons.prems(1) in \<open>auto simp: task_loop_turn [OF o] Inr Let_def simp del: task_loop.simps\<close>)
  qed
qed

section \<open>Where a task stops\<close>

text \<open>C18: A task that is not cut off by a panic keeps one numbered receipt for each step it ran, from the
  first on, and stops at the first that does not succeed: all receipts but the last say so, it counts
  as successful exactly when all steps ran and the last succeeded, and each step ran in the world the one
  before left and from the frame that one ended with.\<close>

theorem task_stops_at_first_failure:
  assumes "task_loop ds cx 0 steps i out [] w = (Some (res, rs), w')" and "steps \<noteq> []"
  shows "\<exists>ws. rs \<noteq> [] \<and> length rs \<le> length steps \<and> length ws = Suc (length rs) \<and> ws ! 0 = w \<and> ws ! length rs = w' \<and>
    (jget ''ok'' res = Some (JBool True) \<longleftrightarrow> length rs = length steps \<and> (\<forall>r \<in> set rs. jget ''ok'' r = Some (JBool True))) \<and>
    (\<forall>k < length rs. jget ''index'' (rs ! k) = Some (JInt (int k)) \<and>
       jget ''action'' (rs ! k) = Some (JObj (desktopActionSummary (ds_lib ds) (steps ! k))) \<and>
       (Suc k < length rs \<longrightarrow> jget ''ok'' (rs ! k) = Some (JBool True)) \<and>
       (\<exists>f got shown. jget ''before_frame'' (rs ! k) = Some (JStr f) \<and>
          one_step ds cx f (steps ! k) (ws ! k) = (got, shown, ws ! Suc k) \<and>
          (k = 0 \<longrightarrow> f = i) \<and> (0 < k \<longrightarrow> frame_after (rs ! (k - 1)) = Some (JStr f))))"
proof -
  obtain ws where ws: "ws ! 0 = w" "last ws = w'" and l: "task_log ds cx 0 steps i ws rs res"
    using task_loop_log [OF assms(1)] by auto
  have ne: "rs \<noteq> []" using l assms(2) by (auto simp: task_log_def)
  have len: "length ws = Suc (length rs)" "length rs \<le> length steps" using l by (auto simp: task_log_def)
  have ok: "\<forall>k. Suc k < length rs \<longrightarrow> succeeded (rs ! k)" using l by (auto simp: task_log_def)
  have all: "(\<forall>r \<in> set rs. succeeded r) \<longleftrightarrow> succeeded (last rs)"
  proof
    assume "succeeded (last rs)"
    then have "succeeded (rs ! k)" if "k < length rs" for k
      using that ok ne by (cases "k = length rs - 1") (simp_all add: last_conv_nth)
    then show "\<forall>r \<in> set rs. succeeded r" by (auto simp: in_set_conv_nth)
  qed (use ne in simp)
  have "succeeded res \<longleftrightarrow> length rs = length steps \<and> succeeded (last rs)" using l ne
    by (auto simp: task_log_def)
  then have out: "succeeded res \<longleftrightarrow> length rs = length steps \<and> (\<forall>r \<in> set rs. succeeded r)" by (simp only: all)
  have at_end: "ws ! length rs = w'" using ws(2) len by (metis diff_Suc_1 last_conv_nth list.size(3) nat.distinct(1))
  have each: "jget ''index'' (rs ! k) = Some (JInt (int k)) \<and>
       jget ''action'' (rs ! k) = Some (JObj (desktopActionSummary (ds_lib ds) (steps ! k))) \<and>
       (Suc k < length rs \<longrightarrow> succeeded (rs ! k)) \<and>
       (\<exists>f got shown. jget ''before_frame'' (rs ! k) = Some (JStr f) \<and>
          one_step ds cx f (steps ! k) (ws ! k) = (got, shown, ws ! Suc k) \<and>
          (k = 0 \<longrightarrow> f = i) \<and> (0 < k \<longrightarrow> frame_after (rs ! (k - 1)) = Some (JStr f)))" if "k < length rs" for k
  proof -
    have k: "jget ''index'' (rs ! k) = Some (JInt (int k))"
      "jget ''action'' (rs ! k) = Some (JObj (desktopActionSummary (ds_lib ds) (steps ! k)))"
      using l that by (auto simp: task_log_def)
    have "\<exists>f got shown. jget ''before_frame'' (rs ! k) = Some (JStr f) \<and>
      one_step ds cx f (steps ! k) (ws ! k) = (got, shown, ws ! Suc k)"
      using l that by (simp add: task_log_def)
    then obtain f got shown where f: "jget ''before_frame'' (rs ! k) = Some (JStr f)"
      "one_step ds cx f (steps ! k) (ws ! k) = (got, shown, ws ! Suc k)" by blast
    have "k = 0 \<longrightarrow> f = i" using l f(1) ne by (auto simp: task_log_def)
    moreover have "frame_after (rs ! (k - 1)) = Some (JStr f)" if "0 < k"
    proof -
      have "Suc (k - 1) < length rs" using that \<open>k < length rs\<close> by simp
      then have "jget ''before_frame'' (rs ! Suc (k - 1)) = frame_after (rs ! (k - 1))" using l unfolding task_log_def
        using Suc_lessD by blast
      then show ?thesis using f(1) that by simp
    qed
    ultimately show ?thesis using k f ok by blast
  qed
  show ?thesis by (intro exI [of _ ws] conjI [OF ne] conjI [OF len(2)] conjI [OF len(1)] conjI [OF ws(1)] conjI [OF at_end] conjI [OF out] allI impI) (rule each)
qed

section \<open>Panics\<close>

lemma valid_action: "validateDesktopRequest op r = None \<Longrightarrow> op = ''wait'' \<or> op = ''act'' \<Longrightarrow> dr_Action r \<noteq> None"
  by (auto simp: validateDesktopRequest_def validate_op_def split: if_splits option.splits)

lemma valid_interaction: "validateDesktopRequest ''interact'' r = None \<Longrightarrow> dr_Interaction r \<noteq> None"
  by (auto simp: validateDesktopRequest_def validate_interact_def validateDesktopInteraction_def
      split: if_splits option.splits)

lemma execute_op_answers:
  assumes "validateDesktopRequest op r = None" "op \<noteq> ''observe''" "op \<noteq> ''task''"
  shows "fst (execute_op ds cx op r w) \<noteq> None"
proof (cases "dr_Action r")
  case None
  then have "op \<noteq> ''wait''" "op \<noteq> ''act''" using valid_action [OF assms(1)] by blast+
  then show ?thesis using assms(2,3) by (simp add: execute_op_def)
next
  case (Some a)
  then show ?thesis using assms(2,3) by (simp add: execute_op_def split: sum.split prod.split)
qed

lemma execute_panics:
  assumes "execute ds cx op r w = (None, w')" and "validateDesktopRequest op r = None"
  shows "op = ''observe'' \<or> op = ''task''"
proof (cases "op = ''status'' \<or> op = ''frame'' \<or> gm_load (dw_busy w) (dx_node cx) = Some True")
  case True
  have "fst (execute ds cx op r w) = None" using assms(1) by simp
  then show ?thesis using True by (elim disjE) (simp_all add: execute_status execute_frame execute_busy split: if_splits)
next
  case False
  let ?b = "set_busy (dx_node cx) w"
  have e: "fst (execute ds cx op r w) = None" using assms(1) by simp
  show ?thesis
  proof (rule ccontr)
    assume "\<not> (op = ''observe'' \<or> op = ''task'')"
    then have x: "fst (execute_op ds cx op r (unleased ds cx ?b)) \<noteq> None" using execute_op_answers [OF assms(2)] by blast
    show False
    proof (cases "op = ''interact''")
      case True
      then obtain spec where "dr_Interaction r = Some spec" using valid_interaction assms(2) by blast
      then show False using e False True by (simp add: execute_owned Let_def split_beta)
    next
      case other: False
      show False using e x False other by (simp add: execute_owned Let_def split_beta split: if_splits)
    qed
  qed
qed

end
