(* ===== verification/DesktopProps.thy ===== *)
theory DesktopProps
  imports DesktopTask
begin

text \<open>
  The properties of whole desktop requests, from what \<open>DesktopSafe\<close> shows of every operation, and a small
  world in which they are exercised.
\<close>

section \<open>Input\<close>

text \<open>C14: Whatever a desktop request is and whatever nodes and tower answer, each call to a node comes from
  the bearer of a valid token with a complete identity to whom the tower has granted everything, for a
  valid request, and goes to the one live Windows node the request names. A call that may change the
  desktop, any but looking, waiting, asking for a challenge and ending an interaction, is made directly
  after the token was validated afresh and the tower has granted everything once more.\<close>

theorem desktop_input_is_rechecked:
  assumes "desktopHandler ds op err rq w = (resp, w')"
    and "w_io w' = w_io w @ pre @ NodeCall svid cc m path b # post"
  shows "\<exists>p r req tail. auth (sv_validate (ds_server ds)) (rq_auth rq) = Inr p \<and> captureOwnerFor p \<noteq> None \<and>
    granted (ds_server ds) p ''full'' (w_io w) \<and> pre = asked p ''full'' # tail \<and>
    decode_request (ds_lib ds) (rq_body rq) = Some r \<and> validateDesktopRequest op r = None \<and>
    resolveTarget (sv_casing (ds_server ds)) (dr_Node r) (w_broker w) = (svid, []) \<and>
    supportsDesktop svid (w_broker w) \<and> m = ''POST'' \<and> path = ''/desktop'' \<and>
    b = Some (marshal (ds_lib ds) req) \<and>
    (harmless req \<or> (\<exists>io. w_io w @ pre = io @ [asked p ''full''] \<and> granted (ds_server ds) p ''full'' io \<and>
       ok_res (ds_valid ds io (pr_Raw p))))"
proof (cases "auth (sv_validate (ds_server ds)) (rq_auth rq)")
  case (Inl e)
  then show ?thesis using assms by (simp add: desktopHandler_def)
next
  case (Inr p)
  define verb where "verb = ''desktop_'' @ op"
  obtain ev w1 where c: "call_event (ds_server ds) p verb w = (ev, w1)" by fastforce
  have 1: "w_io w1 = w_io w" "w_broker w1 = w_broker w" using c by (auto simp: call_event_def newID_def)
  obtain resp1 ev1 w2 where b: "desktop_body ds p op err rq ev w1 = (resp1, ev1, w2)"
    by (cases "desktop_body ds p op err rq ev w1")
  have 2: "w_io w' = w_io w2"
    using assms(1) unfolding desktopHandler_def Inr sum.case verb_def [symmetric] c Let_def prod.case b
    by auto
  from b show ?thesis
  proof (cases rule: desktop_body_admits)
    case refused
    then show ?thesis using assms(2) 1 2 by (auto simp: asked_def Cons_eq_append_conv append_eq_Cons_conv)
  next
    case (admitted r owner node rid)
    let ?cx = "ctx_of p owner (dr_Node r) node rid err"
    obtain new where n: "w_io w2 = (w_io w @ [asked p ''full'']) @ new" "calls_ok ds ?cx (w_io w @ [asked p ''full'']) new"
      using admitted 1 by (auto simp: served_def)
    have "pre @ NodeCall svid cc m path b # post = asked p ''full'' # new" using assms(2) n(1) 2 by simp
    then obtain tail where t: "pre = asked p ''full'' # tail" "new = tail @ NodeCall svid cc m path b # post"
      by (cases pre) (auto simp: asked_def)
    have "call_ok ds ?cx (w_io w @ pre) (NodeCall svid cc m path b)"
      using calls_ok_at [OF n(2) [unfolded t(2)]] by (simp add: t(1))
    then show ?thesis using admitted 1 t(1) Inr by (auto simp: ctx_of_def rechecked_def)
  qed
qed

section \<open>State\<close>

lemma desktopHandler_served:
  assumes "desktopHandler ds op err rq w = (resp, w')"
  obtains (quiet) "dw_frames w' = dw_frames w" "dw_interactions w' = dw_interactions w" "dw_busy w' = dw_busy w"
      "dw_ended w' = dw_ended w" "w_broker w' = w_broker w"
      "stores_ok w' = stores_ok w"
  | (served) p owner r node rid u where "auth (sv_validate (ds_server ds)) (rq_auth rq) = Inr p"
      "captureOwnerFor p = Some owner" "decode_request (ds_lib ds) (rq_body rq) = Some r"
      "resolveTarget (sv_casing (ds_server ds)) (dr_Node r) (w_broker w) = (node, [])"
      "dw_frames u = dw_frames w" "dw_interactions u = dw_interactions w" "dw_busy u = dw_busy w" "dw_ended u = dw_ended w"
      "prefix (w_io w) (w_io u)" "served ds (ctx_of p owner (dr_Node r) node rid err) u w'" "w_broker u = w_broker w"
      "stores_ok u = stores_ok w"
proof (cases "auth (sv_validate (ds_server ds)) (rq_auth rq)")
  case (Inl e)
  then show ?thesis using assms quiet by (simp add: desktopHandler_def)
next
  case (Inr p)
  define verb where "verb = ''desktop_'' @ op"
  obtain ev w1 where c: "call_event (ds_server ds) p verb w = (ev, w1)" by fastforce
  have 1: "w_broker w1 = w_broker w" "dw_frames w1 = dw_frames w" "dw_interactions w1 = dw_interactions w"
    "dw_busy w1 = dw_busy w" "dw_ended w1 = dw_ended w"
    "cw_caps w1 = cw_caps w" "cw_calls w1 = cw_calls w" using c by (auto simp: call_event_def newID_def)
  obtain resp1 ev1 w2 where b: "desktop_body ds p op err rq ev w1 = (resp1, ev1, w2)"
    by (cases "desktop_body ds p op err rq ev w1")
  obtain ev2 where 2: "w' = record_ev ev2 w2"
    using assms unfolding desktopHandler_def Inr sum.case verb_def [symmetric] c Let_def prod.case b
    by auto
  from b show ?thesis
  proof (cases rule: desktop_body_admits)
    case refused
    then show ?thesis using 1 2 quiet by auto
  next
    case (admitted r owner node rid)
    let ?u = "w1\<lparr>w_io := w_io w1 @ [asked p ''full'']\<rparr>" and ?cx = "ctx_of p owner (dr_Node r) node rid err"
    have "served ds ?cx ?u w'" using admitted(8) by (rule served_quiet) (simp_all add: 2)
    moreover have "prefix (w_io w) (w_io ?u)" using c by (auto simp: call_event_def newID_def)
    moreover have "dw_frames ?u = dw_frames w" "dw_interactions ?u = dw_interactions w" "dw_busy ?u = dw_busy w"
      "dw_ended ?u = dw_ended w" "w_broker ?u = w_broker w"
      "stores_ok ?u = stores_ok w" using 1 by simp_all
    ultimately show ?thesis using admitted(1,4,5) 1(1) Inr
      by (intro served [where p = p and owner = owner and r = r and node = node and rid = rid and u = ?u]) simp_all
  qed
qed

text \<open>C20: Every desktop request, whatever its outcome, leaves the state of the service well formed: at most
  64 screenshots, each under its own identifier, one lease per node, at most 64 receipts of ended
  interactions, and no node is left busy that was not busy before, also when the operation fails.\<close>

theorem desktop_state_well_formed:
  assumes "desktopHandler ds op err rq w = (resp, w')"
    and "frames_inv (dw_frames w)" and "leases_ok w"
  shows "frames_inv (dw_frames w') \<and> leases_ok w' \<and>
    (\<forall>n b. gm_load (dw_busy w') n = Some b \<longrightarrow> gm_load (dw_busy w) n = Some b)"
  using assms(1)
proof (cases rule: desktopHandler_served)
  case (served p owner r node rid u)
  then show ?thesis using assms(2,3) by (auto simp: served_def busy_left_def leases_ok_def split: if_splits)
qed (use assms(2,3) in \<open>auto simp: leases_ok_def\<close>)

text \<open>C15: One caller's requests never touch what belongs to another: a screenshot that appears in the store
  belongs to the authenticated caller and to the node the request resolved to, and the leases of all
  other nodes stay as they were.\<close>

theorem desktop_requests_are_isolated:
  assumes "desktopHandler ds op err rq w = (resp, w')" and "frames_inv (dw_frames w)"
    and "auth (sv_validate (ds_server ds)) (rq_auth rq) = Inr p"
    and "decode_request (ds_lib ds) (rq_body rq) = Some r"
    and "resolveTarget (sv_casing (ds_server ds)) (dr_Node r) (w_broker w) = (node, cand)"
  shows "(\<forall>i f. gm_load (dw_frames w') i = Some f \<longrightarrow> gm_load (dw_frames w) i = Some f \<or>
      (captureOwnerFor p = Some (fr_Owner f) \<and> fr_Node f = node)) \<and>
    (\<forall>n. n \<noteq> node \<longrightarrow> gm_load (dw_interactions w') n = gm_load (dw_interactions w) n)"
  using assms(1)
proof (cases rule: desktopHandler_served)
  case (served p' owner r' node' rid u)
  then have "p' = p" "r' = r" "node' = node" using assms(3-5) by auto
  with served show ?thesis using assms(2) by (simp add: served_def only_own_frames_def ctx_of_def) metis
qed auto

section \<open>Panics\<close>


section \<open>A small desktop\<close>

text \<open>
  One Windows node. Its answer to the first call after a single authorization lacks an observation; to all
  other calls it answers with the same screenshot.
\<close>

definition ex_node_answer :: jobj where
  "ex_node_answer = [(''id'', JStr (hex_encode ''A'')), (''ok'', JBool True)] @ ex_receipt"

definition ex_bare_answer :: jobj where
  "ex_bare_answer = [(''id'', JStr (hex_encode ''A'')), (''ok'', JBool True)]"

definition ex_desktop_lib :: golib where
  "ex_desktop_lib = ex_frame_lib\<lparr>gl_unmarshal := map_of [(''yes'', JObj [(''allowed'', JBool True)]),
     (''lock'', JObj [(''node'', JStr ''a'')]), (''shot'', JObj ex_node_answer),
     (''bare'', JObj ex_bare_answer)]\<rparr>"

definition ex_desktop_server :: dserver where
  "ex_desktop_server = \<lparr>ds_server = ex_server\<lparr>sv_lib := ex_desktop_lib, sv_rand := (\<lambda>n. ''A''),
       sv_env := ex_call_env\<lparr>e_node := (\<lambda>io _ _ _ _. Reply 200 (if length io = 1 then ''bare'' else ''shot''))\<rparr>\<rparr>,
     ds_images = ex_images, ds_valid = (\<lambda>io tok. Inr ex_principal), ds_deadline = (\<lambda>io. False), ds_nexus = [],
     ds_model = (\<lambda>io body. (NetError ''off'', [])), ds_url = ex_url, ds_pins = ex_pins, ds_config = (\<lambda>io. None),
     ds_key = (\<lambda>io f. Inr ex_sign), ds_nonce = (\<lambda>io. Inr (replicate 32 (CHR 0x07))), ds_base64 = (\<lambda>s. s)\<rparr>"

definition ex_desktop_broker :: broker where
  "ex_desktop_broker = ex_broker\<lparr>br_versions := [(''spiffe://x/t1/node/a'', zero_ver\<lparr>nv_Version := ''1'', nv_GOOS := ''windows'',
     nv_Capabilities := [(''desktop'', True), (''desktop_lock'', True)]\<rparr>)]\<rparr>"

definition ex_dworld :: dworld where
  "ex_dworld = \<lparr>w_broker = ex_desktop_broker, w_io = [], cw_calls = Some (NewCallLog 10),
     cw_caps = newCaptureStore defaultCaptureStoreConfig, cw_draws = [], cw_ids = 0, dw_busy = [], dw_frames = [],
     dw_interactions = [], dw_ended = []\<rparr>"

lemma ex_lock_request:
  "decode_request ex_desktop_lib ''lock'' = Some (zero_request\<lparr>dr_Node := ''a''\<rparr>)"
  by (simp add: decode_request_def ex_desktop_lib_def request_field_def zero_request_def lower_byte_def)

lemma ex_lock_valid: "validateDesktopRequest ''lock'' (zero_request\<lparr>dr_Node := ''a''\<rparr>) = None"
  by (simp add: validateDesktopRequest_def zero_request_def validate_op_def)

lemma ex_desktop_resolve: "resolveTarget ascii_casing ''a'' ex_desktop_broker = (''spiffe://x/t1/node/a'', [])"
proof -
  have "nodeIDOf ''spiffe://x/t1/node/a'' = ''a''" by (simp add: nodeIDOf_def TrimRightByte_def)
  then have "find (id_hit ascii_casing ''a'') (LiveHosts ex_desktop_broker) = Some (hd (LiveHosts ex_desktop_broker))"
    and "hi_SVID (hd (LiveHosts ex_desktop_broker)) = ''spiffe://x/t1/node/a''"
    by (simp_all add: LiveHosts_def ex_desktop_broker_def ex_broker_def id_hit_def ascii_casing_def lower_byte_def Let_def)
  then show ?thesis by (simp add: resolveTarget_def resolveAmong_def trim_ab)
qed

definition ex_ctx :: "dctx" where
  "ex_ctx = ctx_of ex_principal ex_caller ''a'' ''spiffe://x/t1/node/a'' (hex_encode ''A'') (\<lambda>io. None)"

lemma ex_owner_of: "captureOwnerFor ex_principal = Some ex_caller"
  by (simp add: captureOwnerFor_def ex_principal_def ex_caller_def)

lemma ex_allowed: "authorize ex_desktop_lib (Reply 200 ''yes'') = Inr (True, [])"
  by (simp add: authorize_def call_def callWithLimit_def read_bounded_def controlResponseLimit_def
      decode_out_def ex_desktop_lib_def member_def) (simp add: jget_def)

lemma ex_receipt_jget:
  "jget k ex_node_answer = (if k = ''id'' then Some (JStr (hex_encode ''A''))
     else if k = ''ok'' then Some (JBool True) else jget k ex_receipt)"
  by (auto simp: ex_node_answer_def jget_append jget_Cons ex_receipt_def)

lemma ex_node_frame: "check_frame ex_desktop_lib ex_images (jmap ex_node_answer) = check_frame ex_frame_lib ex_images ex_receipt"
  by (simp add: check_frame_def ex_receipt_jget ex_desktop_lib_def ex_frame_lib_def split: option.split json.split)

lemma ex_backend:
  assumes "w_broker w = ex_desktop_broker" and "decode_map ex_desktop_lib (if length (w_io w) = 1 then ''bare'' else ''shot'') = Some out"
    and "jget ''id'' out = Some (JStr (hex_encode ''A''))"
  shows "backend ex_desktop_server None ''spiffe://x/t1/node/a'' (jput ''id'' (JStr (hex_encode ''A'')) req)
      (w\<lparr>cw_ids := Suc (cw_ids w)\<rparr>) = (Inr out, w\<lparr>cw_ids := Suc (cw_ids w),
        w_io := w_io w @ [NodeCall ''spiffe://x/t1/node/a'' 1 ''POST'' ''/desktop'' (Some [])]\<rparr>)"
  using assms
  by (simp add: backend_def injectResponseContext_def ex_desktop_server_def ex_desktop_broker_def ex_broker_def
      ex_server_def read_bounded_def injectResponseCap_def Let_def marshal_def split: if_splits)
    (simp_all add: ex_desktop_lib_def ex_frame_lib_def)

lemma ex_new_id: "newID (ds_server ex_desktop_server) w = (hex_encode ''A'', w\<lparr>cw_ids := Suc (cw_ids w)\<rparr>)"
  by (simp add: newID_def ex_desktop_server_def)

lemma ex_dispatch:
  assumes "w_broker w = ex_desktop_broker" "length (w_io w) \<noteq> 1"
  shows "\<exists>w'. dispatch ex_desktop_server ex_ctx req w = (Inr (jmap ex_node_answer), w') \<and>
    w_io w' = w_io w @ [NodeCall ''spiffe://x/t1/node/a'' 1 ''POST'' ''/desktop'' (Some [])] \<and>
    (\<exists>f. gm_load (dw_frames w') (replicate 32 CHR ''a'') = Some f \<and> fr_Owner f = ex_caller \<and>
      fr_Node f = ''spiffe://x/t1/node/a'' \<and> fr_Created f = int (length (w_io w')))"
proof -
  have "decode_map ex_desktop_lib ''shot'' = Some (jmap ex_node_answer)" by (simp add: decode_map_def ex_desktop_lib_def)
  with assms have b: "backend ex_desktop_server None ''spiffe://x/t1/node/a'' (jput ''id'' (JStr (hex_encode ''A'')) req)
      (w\<lparr>cw_ids := Suc (cw_ids w)\<rparr>) = (Inr (jmap ex_node_answer), w\<lparr>cw_ids := Suc (cw_ids w),
        w_io := w_io w @ [NodeCall ''spiffe://x/t1/node/a'' 1 ''POST'' ''/desktop'' (Some [])]\<rparr>)"
    by (intro ex_backend) (simp_all add: ex_receipt_jget)
  obtain obs im where "check_frame ex_frame_lib ex_images ex_receipt = Inr (obs, im, replicate 32 CHR ''a'')"
    using ex_check_frame by blast
  then have r: "remember (ds_lib ex_desktop_server) (ds_images ex_desktop_server) now ex_caller node (jmap ex_node_answer) fs =
      Inr (gm_store (replicate 32 CHR ''a'') \<lparr>fr_Owner = ex_caller, fr_Node = node, fr_Created = now,
        fr_Observation = obs, fr_Image = im\<rparr> (make_room (live_frames now fs)))" for now node fs
    using ex_node_frame by (simp add: remember_def ex_desktop_server_def ex_server_def make_room_def live_frames_def Let_def)
  have o: "or_null (jget ''observation'' (jmap ex_node_answer)) \<noteq> JNull"
    by (simp add: ex_receipt_jget ex_receipt_def jget_Cons or_null_def)
  have "now_of (ds_server ex_desktop_server) v = int (length (w_io v))" for v :: dworld
    by (simp add: now_of_def ex_desktop_server_def ex_call_env_def ex_server_def)
  then show ?thesis
    using o by (simp add: dispatch_def ex_new_id ex_ctx_def ctx_of_def b r ex_receipt_jget Let_def)
qed

lemma ex_dispatch_bare:
  assumes "w_broker w = ex_desktop_broker" "length (w_io w) = 1"
  shows "\<exists>w'. dispatch ex_desktop_server ex_ctx req w = (Inr (jmap ex_bare_answer), w') \<and>
    dw_frames w' = dw_frames w \<and> length (w_io w') = 2"
proof -
  have "decode_map ex_desktop_lib ''bare'' = Some (jmap ex_bare_answer)" by (simp add: decode_map_def ex_desktop_lib_def)
  with assms have b: "backend ex_desktop_server None ''spiffe://x/t1/node/a'' (jput ''id'' (JStr (hex_encode ''A'')) req)
      (w\<lparr>cw_ids := Suc (cw_ids w)\<rparr>) = (Inr (jmap ex_bare_answer), w\<lparr>cw_ids := Suc (cw_ids w),
        w_io := w_io w @ [NodeCall ''spiffe://x/t1/node/a'' 1 ''POST'' ''/desktop'' (Some [])]\<rparr>)"
    by (intro ex_backend) (simp_all add: ex_bare_answer_def jget_Cons)
  show ?thesis
    using assms by (simp add: dispatch_def ex_new_id ex_ctx_def ctx_of_def b Let_def)
      (simp add: ex_bare_answer_def jget_Cons or_null_def)
qed

lemma ex_recheck:
  assumes "w_broker w = ex_desktop_broker"
  shows "recheck ex_desktop_server ex_ctx w = (None, w\<lparr>w_io := w_io w @ [asked ex_principal ''full'']\<rparr>)"
  by (simp add: recheck_def tower_def asked_def ex_desktop_server_def ex_ctx_def ctx_of_def ex_call_env_def ex_server_def
      ex_allowed Let_def)

lemma ex_execute_lock:
  assumes "w_broker w = ex_desktop_broker" and "dw_busy w = []" and "w_io w = [asked ex_principal ''full'']"
    and "gm_load (dw_interactions (unleased ex_desktop_server ex_ctx (set_busy ''spiffe://x/t1/node/a'' w)))
      ''spiffe://x/t1/node/a'' = None"
  shows "\<exists>got w'. execute ex_desktop_server ex_ctx ''lock'' (zero_request\<lparr>dr_Node := ''a''\<rparr>) w = (Some got, w') \<and>
    w_io w' = w_io w @ [asked ex_principal ''full'', NodeCall ''spiffe://x/t1/node/a'' 1 ''POST'' ''/desktop'' (Some [])] \<and>
    (\<exists>f. gm_load (dw_frames w') (replicate 32 CHR ''a'') = Some f \<and> fr_Owner f = ex_caller) \<and>
    gm_load (dw_interactions w') ''spiffe://x/t1/node/a'' = None"
proof -
  let ?n = "''spiffe://x/t1/node/a''" and ?r = "zero_request\<lparr>dr_Node := ''a''\<rparr>"
  define u where "u = unleased ex_desktop_server ex_ctx (set_busy ?n w)"
  have u: "w_broker u = ex_desktop_broker" "w_io u = w_io w"
    using assms(1) by (simp_all add: u_def unleased_def) (simp_all add: set_busy_def)
  obtain w' where d: "dispatch ex_desktop_server ex_ctx (simple_request ''lock'' ?r)
      (u\<lparr>w_io := w_io u @ [asked ex_principal ''full'']\<rparr>) = (Inr (jmap ex_node_answer), w')"
    "w_io w' = w_io w @ [asked ex_principal ''full'', NodeCall ?n 1 ''POST'' ''/desktop'' (Some [])]"
    "\<exists>f. gm_load (dw_frames w') (replicate 32 CHR ''a'') = Some f \<and> fr_Owner f = ex_caller"
    using ex_dispatch [of "u\<lparr>w_io := w_io u @ [asked ex_principal ''full'']\<rparr>" "simple_request ''lock'' ?r"] u assms(3) by auto
  have s: "simple_op ex_desktop_server ex_ctx ''lock'' ?r u = (execute_answer ?r (jmap ex_node_answer), w')"
    using ex_recheck [OF u(1)] d(1) by (simp add: simple_op_def ex_receipt_jget)
  have n: "dx_node ex_ctx = ?n" by (simp add: ex_ctx_def ctx_of_def)
  have "execute ex_desktop_server ex_ctx ''lock'' ?r w =
      (Some (execute_answer ?r (jmap ex_node_answer)), clear_busy ?n w')"
    using s assms(2,4) u_def by (simp add: execute_owned execute_op_def n Let_def)
  with d dispatch_leases [OF d(1)] assms(4) u_def show ?thesis by auto
qed

lemma ex_desktop_auth: "auth (sv_validate (ds_server ex_desktop_server)) (rq_auth (ex_request body)) = Inr ex_principal"
  using ex_auth by (simp add: ex_desktop_server_def)

text \<open>The handler up to the operation, for requests that name the node and nothing else.\<close>

lemma ex_handler:
  assumes "validateDesktopRequest op (zero_request\<lparr>dr_Node := ''a''\<rparr>) = None"
    and "unsupported op ''spiffe://x/t1/node/a'' ex_desktop_broker = None" and "op \<noteq> ''status''"
    and run: "\<And>w. w_broker w = ex_desktop_broker \<Longrightarrow> dw_busy w = [] \<Longrightarrow> dw_interactions w = L \<Longrightarrow>
      w_io w = [asked ex_principal ''full''] \<Longrightarrow>
      \<exists>got w'. execute ex_desktop_server ex_ctx op (zero_request\<lparr>dr_Node := ''a''\<rparr>) w = (got, w') \<and> P got w'"
    and keep: "\<And>got w' ev. P got w' \<Longrightarrow> P got (record_ev ev w')"
  shows "\<exists>resp got w'. desktopHandler ex_desktop_server op (\<lambda>io. None) (ex_request ''lock'')
      (ex_dworld\<lparr>dw_interactions := L\<rparr>) = (resp, w') \<and> P got w' \<and> (got = None \<longleftrightarrow> resp = None)"
proof -
  let ?r = "zero_request\<lparr>dr_Node := ''a''\<rparr>"
  define verb where "verb = ''desktop_'' @ op"
  obtain ev w1 where c: "call_event (ds_server ex_desktop_server) ex_principal verb
      (ex_dworld\<lparr>dw_interactions := L\<rparr>) = (ev, w1)" by fastforce
  have 1: "w_broker w1 = ex_desktop_broker" "w_io w1 = []" "dw_busy w1 = []" "dw_interactions w1 = L" "ev_RequestID ev = hex_encode ''A''"
    using c by (auto simp: call_event_def newID_def ex_dworld_def ex_desktop_server_def zero_event_def)
  let ?ev = "ev\<lparr>ev_Allowed := True, ev_Reason := [], ev_Node := ''a'', ev_SVID := ''spiffe://x/t1/node/a''\<rparr>"
  let ?w = "w1\<lparr>w_io := [asked ex_principal ''full'']\<rparr>"
  have body: "desktop_body ex_desktop_server ex_principal op (\<lambda>io. None) (ex_request ''lock'') ev w1 =
      desktop_run ex_desktop_server ex_principal ex_caller op (\<lambda>io. None) ?r ''spiffe://x/t1/node/a'' ?ev ?w"
    using ex_lock_request assms(1) ex_owner_of ex_allowed ex_desktop_resolve 1
    by (simp add: desktop_body_def tower_def asked_def ex_desktop_server_def ex_server_def ex_request_def ex_call_env_def
        zero_request_def Let_def)
  define ev2 where "ev2 = ?ev\<lparr>ev_Detail := clip (marshal (ds_lib ex_desktop_server)
    (request_summary (ds_lib ex_desktop_server) op ?r)) detailMax\<rparr>"
  define w2 where "w2 = recordStart ev2 ?w"
  have w2: "w_broker w2 = ex_desktop_broker" "dw_busy w2 = []" "dw_interactions w2 = L" "w_io w2 = [asked ex_principal ''full'']"
    using 1 by (simp_all add: w2_def recordStart_def record_ev_def)
  obtain got w' where x: "execute ex_desktop_server ex_ctx op ?r w2 = (got, w')" and p: "P got w'"
    using run [OF w2] by blast
  have u: "unsupported op ''spiffe://x/t1/node/a'' (w_broker ?w) = None" using assms(2) 1 by simp
  have cx: "\<lparr>dx_err = (\<lambda>io. None), dx_principal = ex_principal, dx_owner = ex_caller, dx_name = dr_Node ?r,
      dx_node = ''spiffe://x/t1/node/a'', dx_rid = ev_RequestID ev2\<rparr> = ex_ctx"
    using 1 by (simp add: ex_ctx_def ctx_of_def ev2_def)
  have "\<exists>resp ev3. desktop_run ex_desktop_server ex_principal ex_caller op (\<lambda>io. None) ?r ''spiffe://x/t1/node/a'' ?ev ?w =
      (resp, ev3, w') \<and> (got = None \<longleftrightarrow> resp = None)"
    unfolding desktop_run_def u Let_def ev2_def [symmetric] option.case w2_def [symmetric] cx x prod.case
    using assms(3) by (simp split: option.split prod.split)
  then obtain resp ev3 where "desktop_run ex_desktop_server ex_principal ex_caller op (\<lambda>io. None) ?r ''spiffe://x/t1/node/a'' ?ev ?w =
      (resp, ev3, w')" "got = None \<longleftrightarrow> resp = None" by blast
  then show ?thesis using p keep
    unfolding desktopHandler_def ex_desktop_auth sum.case verb_def [symmetric] c Let_def prod.case body by auto
qed

text \<open>
  Locking the screen: authorized on arrival and once more before the one call to the node. A lease that
  has expired is in nobody's way.
\<close>

lemma ex_lock_leased:
  assumes "\<And>l. gm_load L ''spiffe://x/t1/node/a'' = Some l \<Longrightarrow> dio_Expires l < 0"
  shows "\<exists>resp w'. desktopHandler ex_desktop_server ''lock'' (\<lambda>io. None) (ex_request ''lock'')
      (ex_dworld\<lparr>dw_interactions := L\<rparr>) = (resp, w') \<and>
    w_io w' = [asked ex_principal ''full'', asked ex_principal ''full'',
      NodeCall ''spiffe://x/t1/node/a'' 1 ''POST'' ''/desktop'' (Some [])] \<and>
    (\<exists>f. gm_load (dw_frames w') (replicate 32 CHR ''a'') = Some f \<and> fr_Owner f = ex_caller) \<and>
    gm_load (dw_interactions w') ''spiffe://x/t1/node/a'' = None"
proof -
  let ?P = "\<lambda>(got :: (jobj \<times> int) option) w'. w_io w' = [asked ex_principal ''full'', asked ex_principal ''full'',
      NodeCall ''spiffe://x/t1/node/a'' 1 ''POST'' ''/desktop'' (Some [])] \<and>
    (\<exists>f. gm_load (dw_frames w') (replicate 32 CHR ''a'') = Some f \<and> fr_Owner f = ex_caller) \<and>
    gm_load (dw_interactions w') ''spiffe://x/t1/node/a'' = None"
  have free: "gm_load (dw_interactions (unleased ex_desktop_server ex_ctx (set_busy ''spiffe://x/t1/node/a'' w)))
      ''spiffe://x/t1/node/a'' = None" if "dw_interactions w = L" "w_io w = [asked ex_principal ''full'']" for w
    using assms that
    by (cases "gm_load L ''spiffe://x/t1/node/a''") (auto simp: unleased_def ex_ctx_def ctx_of_def now_of_def
        ex_desktop_server_def ex_call_env_def ex_server_def)
  have "\<exists>resp got w'. desktopHandler ex_desktop_server ''lock'' (\<lambda>io. None) (ex_request ''lock'')
      (ex_dworld\<lparr>dw_interactions := L\<rparr>) = (resp, w') \<and> ?P got w' \<and> (got = None \<longleftrightarrow> resp = None)"
  proof (rule ex_handler)
    show "unsupported ''lock'' ''spiffe://x/t1/node/a'' ex_desktop_broker = None"
      by (simp add: unsupported_def supportsDesktop_def nodeCapability_def ex_desktop_broker_def)
    show "\<exists>got w'. execute ex_desktop_server ex_ctx ''lock'' (zero_request\<lparr>dr_Node := ''a''\<rparr>) w = (got, w') \<and> ?P got w'"
      if "w_broker w = ex_desktop_broker" "dw_busy w = []" "dw_interactions w = L" "w_io w = [asked ex_principal ''full'']" for w
      using ex_execute_lock [OF that(1,2,4) free [OF that(3,4)]] that(4) by auto
  qed (simp_all add: ex_lock_valid)
  then show ?thesis by blast
qed

lemma ex_lock:
  "\<exists>resp w'. desktopHandler ex_desktop_server ''lock'' (\<lambda>io. None) (ex_request ''lock'') ex_dworld = (resp, w') \<and>
    w_io w' = [asked ex_principal ''full'', asked ex_principal ''full'',
      NodeCall ''spiffe://x/t1/node/a'' 1 ''POST'' ''/desktop'' (Some [])] \<and>
    (\<exists>f. gm_load (dw_frames w') (replicate 32 CHR ''a'') = Some f \<and> fr_Owner f = ex_caller)"
proof -
  have "ex_dworld\<lparr>dw_interactions := []\<rparr> = ex_dworld" by (simp add: ex_dworld_def)
  then show ?thesis using ex_lock_leased [of "[]"] by auto
qed

text \<open>The three properties at work.\<close>

theorem desktop_input_is_rechecked_witness:
  "\<exists>resp w'. desktopHandler ex_desktop_server ''lock'' (\<lambda>io. None) (ex_request ''lock'') ex_dworld = (resp, w') \<and>
     w_io w' \<noteq> [] \<and> granted (ds_server ex_desktop_server) ex_principal ''full'' [] \<and>
     supportsDesktop ''spiffe://x/t1/node/a'' ex_desktop_broker"
proof -
  obtain resp w' where h: "desktopHandler ex_desktop_server ''lock'' (\<lambda>io. None) (ex_request ''lock'') ex_dworld = (resp, w')"
    and io: "w_io w' = [asked ex_principal ''full'', asked ex_principal ''full'',
      NodeCall ''spiffe://x/t1/node/a'' 1 ''POST'' ''/desktop'' (Some [])]" using ex_lock by blast
  have "w_io w' = w_io ex_dworld @ [asked ex_principal ''full'', asked ex_principal ''full''] @
      NodeCall ''spiffe://x/t1/node/a'' 1 ''POST'' ''/desktop'' (Some []) # []"
    by (simp add: io ex_dworld_def)
  from desktop_input_is_rechecked [OF h this] h io show ?thesis by (auto simp: ex_desktop_auth) (auto simp: ex_dworld_def)
qed

theorem desktop_state_well_formed_witness:
  "\<exists>resp w'. desktopHandler ex_desktop_server ''lock'' (\<lambda>io. None) (ex_request ''lock'') ex_dworld = (resp, w') \<and>
     dw_frames w' \<noteq> [] \<and> frames_inv (dw_frames w') \<and> gm_load (dw_busy w') ''spiffe://x/t1/node/a'' = None"
proof -
  obtain resp w' f where h: "desktopHandler ex_desktop_server ''lock'' (\<lambda>io. None) (ex_request ''lock'') ex_dworld = (resp, w')"
    and f: "gm_load (dw_frames w') (replicate 32 CHR ''a'') = Some f" using ex_lock by blast
  have "frames_inv (dw_frames ex_dworld)" "leases_ok ex_dworld"
    by (simp_all add: ex_dworld_def frames_inv_def leases_ok_def)
  from desktop_state_well_formed [OF h this] h f show ?thesis
    by (cases "gm_load (dw_busy w') ''spiffe://x/t1/node/a''") (auto simp: ex_dworld_def)
qed

theorem desktop_requests_are_isolated_witness:
  "\<exists>resp w' f. desktopHandler ex_desktop_server ''lock'' (\<lambda>io. None) (ex_request ''lock'') ex_dworld = (resp, w') \<and>
     gm_load (dw_frames w') (replicate 32 CHR ''a'') = Some f \<and> captureOwnerFor ex_principal = Some (fr_Owner f) \<and>
     fr_Node f = ''spiffe://x/t1/node/a''"
proof -
  obtain resp w' f where h: "desktopHandler ex_desktop_server ''lock'' (\<lambda>io. None) (ex_request ''lock'') ex_dworld = (resp, w')"
    and f: "gm_load (dw_frames w') (replicate 32 CHR ''a'') = Some f" using ex_lock by blast
  have "frames_inv (dw_frames ex_dworld)" by (simp add: ex_dworld_def frames_inv_def)
  moreover note ex_desktop_auth [of "''lock''"]
  moreover have "decode_request (ds_lib ex_desktop_server) (rq_body (ex_request ''lock'')) = Some (zero_request\<lparr>dr_Node := ''a''\<rparr>)"
    using ex_lock_request by (simp add: ex_desktop_server_def ex_request_def)
  moreover have "resolveTarget (sv_casing (ds_server ex_desktop_server)) (dr_Node (zero_request\<lparr>dr_Node := ''a''\<rparr>))
      (w_broker ex_dworld) = (''spiffe://x/t1/node/a'', [])"
    using ex_desktop_resolve by (simp add: ex_desktop_server_def ex_server_def ex_dworld_def)
  ultimately show ?thesis using desktop_requests_are_isolated [OF h] h f by (force simp: ex_dworld_def)
qed


definition ex_seen :: dworld where
  "ex_seen = ex_dworld\<lparr>dw_frames := [(replicate 32 CHR ''a'', \<lparr>fr_Owner = ex_caller,
     fr_Node = ''spiffe://x/t1/node/a'', fr_Created = 0, fr_Observation = [], fr_Image = []\<rparr>)]\<rparr>"

text \<open>A task of three steps: a key is pressed, then a target is to be found, but no model is configured.\<close>

theorem task_stops_at_first_failure_witness:
  "\<exists>res rs w'. task_loop ex_desktop_server ex_ctx 0 [zero_action\<lparr>da_Action := ''key''\<rparr>, zero_action\<lparr>da_Target := ''x''\<rparr>,
       zero_action] (replicate 32 CHR ''a'') [] [] ex_seen = (Some (res, rs), w') \<and>
     length rs = 2 \<and> jget ''ok'' (rs ! 0) = Some (JBool True) \<and> jget ''ok'' res \<noteq> Some (JBool True)"
proof -
  let ?i = "replicate 32 CHR ''a''" and ?a = "zero_action\<lparr>da_Action := ''key''\<rparr>" and ?b = "zero_action\<lparr>da_Target := ''x''\<rparr>"
  let ?f = "\<lparr>fr_Owner = ex_caller, fr_Node = ''spiffe://x/t1/node/a'', fr_Created = 0, fr_Observation = [], fr_Image = []\<rparr>"
  have cx: "dx_owner ex_ctx = ex_caller" "dx_node ex_ctx = ''spiffe://x/t1/node/a''" "dx_err ex_ctx = (\<lambda>io. None)"
    by (simp_all add: ex_ctx_def ctx_of_def)
  have f: "frame (now_of (ds_server ex_desktop_server) w) ex_caller ''spiffe://x/t1/node/a'' ?i (dw_frames w) = Inr ?f"
    if "dw_frames w = dw_frames ex_seen" "length (w_io w) \<le> 2" for w
    using that by (simp add: frame_def ex_seen_def frameTTL_def now_of_def ex_desktop_server_def ex_call_env_def ex_server_def)
  have seen: "w_io ex_seen = []" by (simp add: ex_seen_def ex_dworld_def)
  let ?w = "ex_seen\<lparr>w_io := [asked ex_principal ''full'']\<rparr>"
  have r: "recheck ex_desktop_server ex_ctx ex_seen = (None, ?w)"
    using ex_recheck [of ex_seen] by (simp add: ex_seen_def ex_dworld_def)
  obtain w1 where d: "dispatch ex_desktop_server ex_ctx (act_request ?f ?i ?a) ?w = (Inr (jmap ex_bare_answer), w1)"
    "dw_frames w1 = dw_frames ex_seen" "length (w_io w1) = 2"
    using ex_dispatch_bare [of ?w] by (auto simp: ex_seen_def ex_dworld_def)
  have "act ex_desktop_server ex_ctx ?i ?a ex_seen = (Inr (jmap ex_bare_answer), w1)"
    using d f [of ?w] by (simp add: act_def cx r act_check_def pointer_outside_def zero_action_def desktopNoteChange_def)
      (simp add: ex_bare_answer_def jget_Cons)
  then have 1: "one_step ex_desktop_server ex_ctx ?i ?a ex_seen = (Inr (jmap ex_bare_answer), [], w1)"
    using f [of ex_seen] seen by (simp add: one_step_def cx task_step_def zero_action_def)
  have 2: "one_step ex_desktop_server ex_ctx ?i ?b w1 = (Inl (Errnew
      ''GUI grounding is not configured; use observe and explicit coordinates''), [(''grounding'', JNull)], w1)"
    using f [of w1] d by (simp add: one_step_def cx task_step_def ground_def ex_desktop_server_def)
  have b: "or_null (jget ''observation'' ex_bare_answer) = JNull" "jget ''ok'' ex_bare_answer = Some (JBool True)"
    by (simp_all add: ex_bare_answer_def jget_Cons or_null_def)
  obtain res rs where t: "task_loop ex_desktop_server ex_ctx 0 [?a, ?b, zero_action] ?i [] [] ex_seen = (Some (res, rs), w1)"
    and l: "length rs = 2" unfolding task_loop_turn [OF 1] task_loop_turn [OF 2] Let_def
    by (simp add: b task_loop_turn [OF 2] Let_def del: task_loop.simps)
  from task_stops_at_first_failure [OF t] obtain ws where
    "jget ''ok'' res = Some (JBool True) \<longleftrightarrow> length rs = length [?a, ?b, zero_action] \<and> (\<forall>r \<in> set rs. jget ''ok'' r = Some (JBool True))"
    "\<forall>k < length rs. Suc k < length rs \<longrightarrow> jget ''ok'' (rs ! k) = Some (JBool True)" by blast
  with t l show ?thesis by (intro exI conjI) auto
qed

end
