(* ===== verification/DesktopLease.thy ===== *)
theory DesktopLease
  imports DesktopProps
begin

text \<open>
  The lease of a node as an abstract machine: what every desktop request may do to it, and that a live
  lease keeps the requests of all others away from the node.
\<close>

section \<open>The machine\<close>

text \<open>C16: Seen from outside, the lease of a node is a small machine, and every desktop request of any caller
  is a run of it: a lease expires when the clock read during the request is past its end; a free node is
  taken by the caller for a session of the node; the caller's own lease is renewed, with the same
  identifier and session, or given up; no end is set more than 75 seconds ahead; nothing else happens.\<close>

theorem requests_refine_lease_machine:
  assumes "desktopHandler ds op err rq w = (resp, w')"
  shows "(\<forall>n. gm_load (dw_interactions w') n = gm_load (dw_interactions w) n) \<or>
    (\<exists>p owner. auth (sv_validate (ds_server ds)) (rq_auth rq) = Inr p \<and> captureOwnerFor p = Some owner \<and>
      (\<forall>n. (lease_step owner (times ds (w_io w) (w_io w')))\<^sup>*\<^sup>*
        (gm_load (dw_interactions w) n) (gm_load (dw_interactions w') n)))"
  using assms
proof (cases rule: desktopHandler_served)
  case (served p owner r node rid u)
  note u = served(6,9) and s = served(10)
  have "times ds (w_io u) (w_io w') \<le> times ds (w_io w) (w_io w')"
    using u(2) by (intro times_mono) simp_all
  moreover have "(lease_step owner (times ds (w_io u) (w_io w')))\<^sup>*\<^sup>*
      (gm_load (dw_interactions w) node) (gm_load (dw_interactions w') node)"
    using s u(1) by (simp add: served_def leased_def ctx_of_def)
  ultimately have "(lease_step owner (times ds (w_io w) (w_io w')))\<^sup>*\<^sup>*
      (gm_load (dw_interactions w) node) (gm_load (dw_interactions w') node)"
    by (rule lease_steps_mono [rotated])
  moreover have "gm_load (dw_interactions w') n = gm_load (dw_interactions w) n" if "n \<noteq> node" for n
    using s u(1) that by (simp add: served_def ctx_of_def)
  ultimately have "(lease_step owner (times ds (w_io w) (w_io w')))\<^sup>*\<^sup>*
      (gm_load (dw_interactions w) n) (gm_load (dw_interactions w') n)" for n
    by (cases "n = node") auto
  then show ?thesis using served(1,2) by blast
qed auto

section \<open>A live lease excludes\<close>

lemma recheck_io:
  assumes "recheck ds cx w = (e, w')"
  shows "w' = w \<or> w' = w\<lparr>w_io := w_io w @ [asked (dx_principal cx) ''full'']\<rparr>"
  using assms by (auto simp: recheck_def tower_def asked_def Let_def split: sum.splits prod.splits bool.splits)

lemma interact_excluded:
  assumes "interact ds cx r spec w = (res, w')" and "gm_load (dw_interactions w) (dx_node cx) = Some own"
    and "dio_Owner own \<noteq> dx_owner cx"
    and live: "\<And>a. a \<in> {[], [asked (dx_principal cx) ''full'']} \<Longrightarrow> e_now (sv_env (ds_server ds)) (w_io w @ a) \<le> dio_Expires own"
  shows "dw_interactions w' = dw_interactions w \<and> w_io w' \<in> {w_io w, w_io w @ [asked (dx_principal cx) ''full'']}"
proof -
  obtain e w1 where k: "recheck ds cx w = (e, w1)" by fastforce
  have 1: "w_io w1 \<in> {w_io w, w_io w @ [asked (dx_principal cx) ''full'']}" "dw_interactions w1 = dw_interactions w"
    using recheck_io [OF k] by auto
  then have "\<not> dio_Expires own < now_of (ds_server ds) w1"
    using live [of "[]"] live [of "[asked (dx_principal cx) ''full'']"] by (auto simp: now_of_def)
  then have cur: "(case gm_load (dw_interactions w1) (dx_node cx) of None \<Rightarrow> None
      | Some own \<Rightarrow> if dio_Expires own < now_of (ds_server ds) w1 then None else Some own) = Some own"
    using 1 assms(2) by simp
  have "\<exists>e'. \<forall>v. claim_lease ds cx r spec (Some own) v = (Inl e', v)"
    using assms(3) by (cases "di_Operation spec = ''begin''") (simp_all add: claim_lease_def Let_def)
  then obtain e' where claim: "claim_lease ds cx r spec (Some own) v = (Inl e', v)" for v by blast
  show ?thesis using assms(1) 1
    unfolding interact_def k prod.case Let_def cur claim by (auto split: option.splits if_splits sum.splits prod.splits)
qed

lemma execute_excluded:
  assumes "execute ds cx op r w = (res, w')" and "gm_load (dw_interactions w) (dx_node cx) = Some own"
    and "dio_Owner own \<noteq> dx_owner cx \<or> op \<noteq> ''interact''" and "op \<noteq> ''status''"
    and live: "\<And>a. a \<in> {[], [asked (dx_principal cx) ''full'']} \<Longrightarrow> e_now (sv_env (ds_server ds)) (w_io w @ a) \<le> dio_Expires own"
  shows "dw_interactions w' = dw_interactions w \<and> w_io w' \<in> {w_io w, w_io w @ [asked (dx_principal cx) ''full'']}"
proof -
  let ?b = "set_busy (dx_node cx) w"
  have b: "w_io ?b = w_io w" "dw_interactions ?b = dw_interactions w" by simp_all
  have "\<not> dio_Expires own < now_of (ds_server ds) ?b" using live [of "[]"] by (simp add: now_of_def)
  then have u: "unleased ds cx ?b = ?b" using assms(2) by (simp add: unleased_def)
  consider "op = ''frame''" | "gm_load (dw_busy w) (dx_node cx) = Some True"
    | "op \<noteq> ''frame''" "gm_load (dw_busy w) (dx_node cx) \<noteq> Some True" by blast
  then show ?thesis
  proof cases
    case 3
    note x = execute_owned [OF assms(4) 3, of ds r]
    have "(case dr_Interaction r of None \<Rightarrow> (None, ?b) | Some spec \<Rightarrow> apfst Some (interact ds cx r spec ?b)) = (g, v) \<Longrightarrow>
        op = ''interact'' \<Longrightarrow>
        dw_interactions v = dw_interactions w \<and> w_io v \<in> {w_io w, w_io w @ [asked (dx_principal cx) ''full'']}" for g v
      using interact_excluded [of ds cx r _ ?b _ v own] assms(2,3) live b
      by (auto simp: apfst_def map_prod_def split: option.splits prod.splits)
    then show ?thesis using assms(1,2) by (auto simp: x u Let_def split: if_splits prod.splits)
  qed (use assms in \<open>auto simp: execute_frame execute_busy split: if_splits\<close>)
qed


section \<open>At work\<close>

definition ex_lease :: "int \<Rightarrow> desktopInteractionOwner" where
  "ex_lease t = \<lparr>dio_Owner = \<lparr>co_TID = ''t'', co_OID = ''other'', co_AppID = ''a''\<rparr>, dio_ID = ''i'', dio_Session = 2,
     dio_Expires = t\<rparr>"

definition ex_leased :: "int \<Rightarrow> dworld" where
  "ex_leased t = ex_dworld\<lparr>dw_interactions := [(''spiffe://x/t1/node/a'', ex_lease t)]\<rparr>"

theorem requests_refine_lease_machine_witness:
  "\<exists>resp w'. desktopHandler ex_desktop_server ''lock'' (\<lambda>io. None) (ex_request ''lock'') (ex_leased (- 1)) = (resp, w') \<and>
     gm_load (dw_interactions w') ''spiffe://x/t1/node/a'' = None \<and>
     (lease_step ex_caller (times ex_desktop_server [] (w_io w')))\<^sup>*\<^sup>* (Some (ex_lease (- 1))) None"
proof -
  obtain resp w' where h: "desktopHandler ex_desktop_server ''lock'' (\<lambda>io. None) (ex_request ''lock'')
      (ex_leased (- 1)) = (resp, w')" and n: "gm_load (dw_interactions w') ''spiffe://x/t1/node/a'' = None"
    using ex_lock_leased [of "[(''spiffe://x/t1/node/a'', ex_lease (- 1))]"] by (auto simp: ex_leased_def ex_lease_def)
  have "gm_load (dw_interactions (ex_leased (- 1))) ''spiffe://x/t1/node/a'' = Some (ex_lease (- 1))"
    "w_io (ex_leased (- 1)) = []"
    by (simp_all add: ex_leased_def ex_dworld_def)
  with requests_refine_lease_machine [OF h] have
    "(lease_step ex_caller (times ex_desktop_server [] (w_io w')))\<^sup>*\<^sup>* (Some (ex_lease (- 1))) None"
    using n by (metis ex_desktop_auth ex_owner_of option.distinct(1) option.inject sum.inject(2))
  with h n show ?thesis by blast
qed


end
