(* ===== verification/Bootstrap.thy ===== *)
theory Bootstrap
  imports Caller BrokerProps
begin

text \<open>
  The ingress of nodes that have no identity yet: \<open>bootstrap.go\<close>. Enrollment is relayed to the tower, the
  agent's binary is read from a directory, and the install script is a text with the public address in
  it, which a shell runs as root.
\<close>

section \<open>File names\<close>

text \<open>\<open>filepath.Clean\<close> and \<open>filepath.Join\<close> of a directory and a name.\<close>

fun clean_segments :: "bool \<Rightarrow> string list \<Rightarrow> string list \<Rightarrow> string list" where
  "clean_segments rooted acc [] = rev acc"
| "clean_segments rooted acc (s # ss) =
     (if s = [] \<or> s = ''.'' then clean_segments rooted acc ss
      else if s = ''..'' then (case acc of
          [] \<Rightarrow> clean_segments rooted (if rooted then [] else [''..'']) ss
        | a # as \<Rightarrow> clean_segments rooted (if a = ''..'' then ''..'' # acc else as) ss)
      else clean_segments rooted (s # acc) ss)"

definition path_clean :: "string \<Rightarrow> string" where
  "path_clean p = (let rooted = HasPrefix p ''/''; out = Join ''/'' (clean_segments rooted [] (Split (CHR ''/'') p))
     in if rooted then CHR ''/'' # out else if out = [] then ''.'' else out)"

definition path_join :: "string \<Rightarrow> string \<Rightarrow> string" where
  "path_join dir name = (if dir = [] then (if name = [] then [] else path_clean name)
     else if name = [] then path_clean dir else path_clean (dir @ CHR ''/'' # name))"

section \<open>State and patterns\<close>

text \<open>\<open>bs_files\<close>: the files that can be opened, by path; \<open>bs_decode\<close>: the first JSON value of a text.\<close>

record bootstrap =
  bs_lib :: golib
  bs_env :: env
  bs_binDir :: string
  bs_publicURL :: string
  bs_files :: "string \<Rightarrow> string option"
  bs_decode :: "string \<Rightarrow> json option"

datatype boot_response = BootJSON response | BootFile string string | BootScript string

definition is_lower :: "char \<Rightarrow> bool" where
  "is_lower c \<longleftrightarrow> 97 \<le> byte c \<and> byte c \<le> 122"

definition is_upper :: "char \<Rightarrow> bool" where
  "is_upper c \<longleftrightarrow> 65 \<le> byte c \<and> byte c \<le> 90"

text \<open>\<open>^[a-z0-9_]{1,16}$\<close>\<close>

definition archTok :: "string \<Rightarrow> bool" where
  "archTok s \<longleftrightarrow> 1 \<le> length s \<and> length s \<le> 16 \<and>
     list_all (\<lambda>c. is_lower c \<or> is_digit c \<or> c = CHR ''_'') s"

definition host_char :: "char \<Rightarrow> bool" where
  "host_char c \<longleftrightarrow> is_upper c \<or> is_lower c \<or> is_digit c \<or> c = CHR ''.'' \<or> c = CHR ''-''"

text \<open>\<open>^[A-Za-z0-9.-]{1,253}(:[0-9]{1,5})?$\<close>\<close>

definition hostTok :: "string \<Rightarrow> bool" where
  "hostTok s \<longleftrightarrow> (let h = takeWhile host_char s; p = dropWhile host_char s in
     1 \<le> length h \<and> length h \<le> 253 \<and>
     (p = [] \<or> (hd p = CHR '':'' \<and> 1 \<le> length (tl p) \<and> length (tl p) \<le> 5 \<and> list_all is_digit (tl p))))"

section \<open>Limits\<close>

text \<open>\<open>limitBody\<close> with the 4 MiB of \<open>hardenedServe\<close>: what a handler can read of a body.\<close>

definition limitBody :: "string \<Rightarrow> string" where
  "limitBody body = take (4 * 2 ^ 20) body"

section \<open>Enrollment\<close>

record enroll_request =
  er_JoinToken :: string
  er_CSR :: string
  er_Name :: string

definition enroll_field :: "string \<Rightarrow> json \<Rightarrow> enroll_request \<Rightarrow> enroll_request option" where
  "enroll_field k j v =
     (if k = ''join_token'' then set_string (\<lambda>s. er_JoinToken_update (\<lambda>_. s)) j v
      else if k = ''csr'' then set_string (\<lambda>s. er_CSR_update (\<lambda>_. s)) j v
      else if k = ''name'' then set_string (\<lambda>s. er_Name_update (\<lambda>_. s)) j v
      else Some v)"

definition enroll_body :: "enroll_request \<Rightarrow> jobj" where
  "enroll_body q = [(''purpose'', JStr ''enroll''), (''csr'', JStr (er_CSR q)), (''join_token'', JStr (er_JoinToken q)),
     (''name'', JStr (er_Name q))]"

definition control_enroll :: "golib \<Rightarrow> http_reply \<Rightarrow> call_result" where
  "control_enroll lib reply = call lib ''/control/v1/sign'' reply"

definition enrollStatus :: "golib \<Rightarrow> http_reply \<Rightarrow> call_result" where
  "enrollStatus lib reply = call lib ''/control/v1/enroll_status'' reply"

text \<open>What the tower says of a failure, if it says anything, or else the error.\<close>

definition orErr :: "jobj option \<Rightarrow> goerror \<Rightarrow> (string \<times> rval) list" where
  "orErr out e = (if member ''error'' out \<noteq> None then json_fields (the out) else [(''error'', RErr [] e)])"

text \<open>The answer of the tower may be the document \<open>null\<close>, a nil map, which is written as \<open>null\<close>.\<close>

definition boot_answer :: "int \<Rightarrow> jobj option \<Rightarrow> response" where
  "boot_answer code out = (case out of None \<Rightarrow> \<lparr>rs_code = code, rs_body = None\<rparr> | Some ob \<Rightarrow> answer code (json_fields ob))"

definition enroll :: "bootstrap \<Rightarrow> string \<Rightarrow> 'a world_scheme \<Rightarrow> response \<times> 'a world_scheme" where
  "enroll bs body w =
     (let (q, ok) = decode_into enroll_field \<lparr>er_JoinToken = [], er_CSR = [], er_Name = []\<rparr>
            (bs_decode bs (limitBody body)) in
      if \<not> ok then (reply_error 400 ''body must be JSON {join_token, csr, name}'', w)
      else if er_JoinToken q = [] \<or> er_CSR q = [] then (reply_error 400 ''join_token and csr are required'', w)
      else let (reply, w) = tower (bs_env bs) ''/control/v1/sign'' (enroll_body q) w
        in case control_enroll (bs_lib bs) reply of
             (out, Some e) \<Rightarrow> (answer 400 (orErr out e), w)
           | (out, None) \<Rightarrow> (boot_answer 200 out, w))"

text \<open>\<open>query\<close>: the parameters of the request; one that is missing is empty.\<close>

definition cert :: "bootstrap \<Rightarrow> (string \<Rightarrow> string) \<Rightarrow> 'a world_scheme \<Rightarrow> response \<times> 'a world_scheme" where
  "cert bs query w =
     (if query ''id'' = [] then (reply_error 400 ''query param 'id' (enrollment_id) required'', w)
      else let (reply, w) = tower (bs_env bs) ''/control/v1/enroll_status'' [(''enrollment_id'', JStr (query ''id''))] w
        in case enrollStatus (bs_lib bs) reply of
             (out, Some e) \<Rightarrow> (answer 404 (orErr out e), w)
           | (out, None) \<Rightarrow> (boot_answer 200 out, w))"

section \<open>The binary\<close>

definition binary :: "bootstrap \<Rightarrow> (string \<Rightarrow> string) \<Rightarrow> boot_response" where
  "binary bs query =
     (let goos = (if query ''os'' = [] then ''linux'' else query ''os'');
          goarch = (if query ''arch'' = [] then ''amd64'' else query ''arch'') in
      if \<not> archTok goos \<or> \<not> archTok goarch then BootJSON (reply_error 400 ''bad os/arch'')
      else let path = path_join (bs_binDir bs) (''rcon-'' @ goos @ ''-'' @ goarch);
               (path, filename) = (if goos = ''windows'' then (path @ ''.exe'', ''rcon.exe'') else (path, ''rcon''))
        in case bs_files bs path of
             None \<Rightarrow> BootJSON (reply_error 404 (''no binary for '' @ goos @ ''/'' @ goarch))
           | Some content \<Rightarrow> BootFile filename content)"

section \<open>The install script\<close>

text \<open>
  The script after the line that sets \<open>XC\<close>, line by line. A tilde stands for a double quote and a
  circumflex and an at sign for the three bytes of an ellipsis and of a long dash; none of them occurs in
  the script itself.
\<close>

definition script_char :: "char \<Rightarrow> string" where
  "script_char c = (if c = CHR ''~'' then [CHR 0x22]
     else if c = CHR ''^'' then [CHR 0xE2, CHR 0x80, CHR 0xA6]
     else if c = CHR ''@'' then [CHR 0xE2, CHR 0x80, CHR 0x94] else [c])"

definition script_rest :: "string list" where
  "script_rest = [
     ''case ~$(uname -m)~ in'',
     ''  x86_64|amd64) ARCH=amd64 ;;'',
     ''  aarch64|arm64) ARCH=arm64 ;;'',
     ''  *) echo ~unsupported arch $(uname -m)~; exit 1 ;;'',
     ''esac'',
     ''echo ~fetching rcon (linux/$ARCH)^~'',
     ''curl -fsS ~$XC/bootstrap/binary?os=linux&arch=$ARCH~ -o /usr/local/bin/rcon'',
     ''chmod 0755 /usr/local/bin/rcon'',
     ''mkdir -p /etc/rcon'',
     ''echo ~installed /usr/local/bin/rcon ($(/usr/local/bin/rcon --version 2>/dev/null || echo v?))~'',
     ''if [ -n ~${RCON_JOIN_TOKEN:-}~ ]; then'',
     ''  echo ~enrolling as service (non-blocking; will wait for operator approval)^~'',
     ''  # Forward an out-of-band CA pin if the operator supplied one (RCON_CA_PIN) @'',
     ''  # defeats an enrollment-time MITM even when the origin TLS is self-signed.'',
     ''  if [ -n ~${RCON_CA_PIN:-}~ ]; then'',
     ''    /usr/local/bin/rcon install --token ~$RCON_JOIN_TOKEN~ --xconnect ~$XC~ --name ~${RCON_NAME:-$(hostname)}~ --ca-pin ~$RCON_CA_PIN~'',
     ''  else'',
     ''    /usr/local/bin/rcon install --token ~$RCON_JOIN_TOKEN~ --xconnect ~$XC~ --name ~${RCON_NAME:-$(hostname)}~'',
     ''  fi'',
     ''else'',
     ''  echo ~binary installed. To enroll the whole way, re-run with a token in the env:~'',
     ''  echo ~  curl -fsS $XC/bootstrap/install.sh | RCON_JOIN_TOKEN=pjt_^ sh~'',
     ''  echo ~or interactively: rcon enroll --token <JOIN_TOKEN> --xconnect $XC --etc /etc/rcon --name <name>~'',
     ''fi'']"

definition lines_text :: "string list \<Rightarrow> string" where
  "lines_text ls = concat (map (\<lambda>l. l @ [CHR 0x0A]) ls)"

definition script_head :: string where
  "script_head = lines_text [''#!/bin/sh'', ''set -eu''] @ ''XC='' @ [CHR 0x27]"

definition script_tail :: string where
  "script_tail = CHR 0x27 # CHR 0x0A # concat (map script_char (lines_text script_rest))"

text \<open>\<open>host\<close>: the \<open>Host\<close> of the request.\<close>

definition installScript :: "bootstrap \<Rightarrow> string \<Rightarrow> boot_response" where
  "installScript bs host =
     (if bs_publicURL bs = [] \<and> \<not> hostTok host
      then BootJSON (reply_error 400 ''cannot determine a safe public host from the request; set XCONNECT_PUBLIC_BOOTSTRAP_URL'')
      else let xc = (if bs_publicURL bs = [] then ''https://'' @ host else bs_publicURL bs)
        in BootScript (script_head @ xc @ script_tail))"

section \<open>Paths\<close>

lemma clean_segments_snoc:
  "n \<noteq> [] \<Longrightarrow> n \<noteq> ''.'' \<Longrightarrow> n \<noteq> ''..'' \<Longrightarrow> clean_segments r acc (ss @ [n]) = clean_segments r acc ss @ [n]"
  by (induction r acc ss rule: clean_segments.induct) (auto split: list.split)

lemma Join_snoc: "Join sep (xs @ [n]) = (if xs = [] then n else Join sep xs @ sep @ n)"
  by (induction sep xs rule: Join.induct) auto

lemma Split_whole: "c \<notin> set t \<Longrightarrow> Split c t = [t]"
  by (induction t) auto

lemma Split_Join: "ps \<noteq> [] \<Longrightarrow> \<forall>p \<in> set ps. c \<notin> set p \<Longrightarrow> Split c (Join [c] ps) = ps"
proof (induction ps rule: rev_induct)
  case (snoc p ps)
  then show ?case using Split_last_append [of c p] Split_last_append [of c p "[]"]
    by (cases "ps = []") (auto simp: Join_snoc Split_whole)
qed simp

text \<open>Cleaned segments: none is empty or a dot, and none holds a slash.\<close>

lemma clean_segments_plain:
  assumes "s \<in> set (clean_segments r [] ss)" and "\<And>x. x \<in> set ss \<Longrightarrow> CHR ''/'' \<notin> set x"
  shows "s \<noteq> [] \<and> s \<noteq> ''.'' \<and> CHR ''/'' \<notin> set s"
proof -
  have "set (clean_segments r acc ss) \<subseteq> set acc \<union> {x \<in> set ss. x \<noteq> [] \<and> x \<noteq> ''.''} \<union> {''..''}" for acc
    by (induction r acc ss rule: clean_segments.induct) (auto split: list.splits if_splits)
  from this [of "[]"] assms show ?thesis by auto
qed

lemma Join_plain:
  assumes "\<And>s. s \<in> set ss \<Longrightarrow> s \<noteq> [] \<and> s \<noteq> ''.'' \<and> CHR ''/'' \<notin> set s"
  shows "Join ''/'' ss \<noteq> ''/''" "Join ''/'' ss \<noteq> ''.''" "Join ''/'' ss = [] \<longleftrightarrow> ss = []"
proof -
  have "Split (CHR ''/'') (Join ''/'' ss) = ss" if "ss \<noteq> []" using that assms by (intro Split_Join) auto
  then have "Join ''/'' ss \<noteq> x" if "ss \<noteq> []" "\<exists>y \<in> set (Split (CHR ''/'') x). y = [] \<or> y = ''.''" for x
    using that assms by metis
  from this [of "''/''"] this [of "''.''"] this [of "[]"]
  show "Join ''/'' ss \<noteq> ''/''" "Join ''/'' ss \<noteq> ''.''" "Join ''/'' ss = [] \<longleftrightarrow> ss = []"
    by (cases "ss = []"; simp)+
qed

text \<open>A plain name is joined to its directory as it is.\<close>

lemma path_join_name:
  assumes "d \<noteq> []" and "CHR ''/'' \<notin> set n" "n \<noteq> []" "n \<noteq> ''.''" "n \<noteq> ''..''"
  shows "path_join d n = (if path_clean d = ''.'' then n else if path_clean d = ''/'' then CHR ''/'' # n
    else path_clean d @ CHR ''/'' # n)"
proof -
  let ?r = "HasPrefix d ''/''" and ?s = "clean_segments (HasPrefix d ''/'') [] (Split (CHR ''/'') d)"
  have r: "HasPrefix (d @ CHR ''/'' # n) ''/'' = ?r" using assms(1) by (cases d) (auto simp: HasPrefix_def)
  have "path_join d n = (if ?r then CHR ''/'' # Join ''/'' (?s @ [n]) else Join ''/'' (?s @ [n]))"
    using assms r by (auto simp: path_join_def path_clean_def Split_last_append clean_segments_snoc Join_snoc Let_def)
  moreover have "Join ''/'' ?s \<noteq> ''/''" "Join ''/'' ?s \<noteq> ''.''" "Join ''/'' ?s = [] \<longleftrightarrow> ?s = []"
    using clean_segments_plain [of _ ?r "Split (CHR ''/'') d"] by (auto intro!: Join_plain dest: Split_no_sep)
  moreover have "path_clean d = (if ?r then CHR ''/'' # Join ''/'' ?s else if Join ''/'' ?s = [] then ''.'' else Join ''/'' ?s)"
    by (simp add: path_clean_def Let_def)
  ultimately show ?thesis by (cases ?r) (simp_all add: Join_snoc)
qed

section \<open>The three doors\<close>

text \<open>The characters between the quotes of the line that sets \<open>XC\<close>, as a shell reads them.\<close>

definition quoted_word :: "string \<Rightarrow> string" where
  "quoted_word s = takeWhile (\<lambda>c. c \<noteq> CHR 0x27) (drop (length script_head) s)"

lemma hostTok_chars:
  assumes "hostTok h"
  shows "(\<forall>c \<in> set h. host_char c \<or> c = CHR '':'') \<and> length h \<le> 259"
proof -
  let ?t = "takeWhile host_char h" and ?d = "dropWhile host_char h"
  have p: "?d = [] \<or> (\<exists>d. ?d = CHR '':'' # d \<and> length d \<le> 5 \<and> list_all is_digit d)"
    using assms by (cases ?d) (auto simp: hostTok_def Let_def)
  then have "\<forall>c \<in> set ?d. host_char c \<or> c = CHR '':''" 
    by (elim disjE exE conjE) (simp_all add: host_char_def list_all_iff del: dropWhile_eq_Nil_conv)
  moreover have "\<forall>c \<in> set ?t. host_char c" by (auto dest: set_takeWhileD)
  moreover have "set h = set ?t \<union> set ?d"
    using arg_cong [OF takeWhile_dropWhile_id [of host_char h], of set] unfolding set_append by (rule sym)
  moreover have "length h = length ?t + length ?d"
    using arg_cong [OF takeWhile_dropWhile_id [of host_char h], of length] unfolding length_append by (rule sym)
  moreover have "length ?t \<le> 253" using assms by (simp add: hostTok_def Let_def)
  moreover have "length ?d \<le> 6" using p by (elim disjE exE conjE) (simp_all del: dropWhile_eq_Nil_conv)
  ultimately show ?thesis by auto
qed

lemma archTok_chars: "archTok s \<Longrightarrow> CHR ''/'' \<notin> set s \<and> s \<noteq> []"
  by (auto simp: archTok_def list_all_iff is_lower_def is_digit_def)


text \<open>A binary that is handed out is a file of the configured directory itself, named after a system
  and an architecture: no request reaches another directory.\<close>

theorem binary_stays_in_directory:
  assumes "binary bs query = BootFile name content" and "bs_binDir bs \<noteq> []"
  shows "\<exists>goos goarch. archTok goos \<and> archTok goarch \<and> (let file = ''rcon-'' @ goos @ ''-'' @ goarch @
      (if goos = ''windows'' then ''.exe'' else []); dir = path_clean (bs_binDir bs) in
    CHR ''/'' \<notin> set file \<and> bs_files bs (if dir = ''.'' then file else if dir = ''/'' then CHR ''/'' # file
      else dir @ CHR ''/'' # file) = Some content)"
proof -
  obtain goos goarch where a: "archTok goos" "archTok goarch"
    and f: "bs_files bs (path_join (bs_binDir bs) (''rcon-'' @ goos @ ''-'' @ goarch) @
      (if goos = ''windows'' then ''.exe'' else [])) = Some content"
    using assms(1) by (auto simp: binary_def Let_def split: if_splits option.splits)
  let ?n = "''rcon-'' @ goos @ ''-'' @ goarch"
  have "CHR ''/'' \<notin> set ?n" using archTok_chars a by auto
  then have "path_join (bs_binDir bs) ?n = (if path_clean (bs_binDir bs) = ''.'' then ?n
      else if path_clean (bs_binDir bs) = ''/'' then CHR ''/'' # ?n else path_clean (bs_binDir bs) @ CHR ''/'' # ?n)"
    using assms(2) by (intro path_join_name) auto
  then show ?thesis using a f archTok_chars [OF a(1)] archTok_chars [OF a(2)]
    by (intro exI [of _ goos] exI [of _ goarch]) (auto simp: Let_def split: if_splits)
qed

text \<open>An enrollment is relayed to the tower as it came, once, and only with a token and a request for a
  certificate; it succeeds only when the tower accepted it, and no node or tunnel is touched.\<close>

theorem enrollment_is_relayed_once:
  assumes "enroll bs body w = (resp, w')"
  shows "(w' = w \<and> rs_code resp = 400) \<or>
    (\<exists>q. decode_into enroll_field \<lparr>er_JoinToken = [], er_CSR = [], er_Name = []\<rparr> (bs_decode bs (limitBody body)) = (q, True) \<and>
      er_JoinToken q \<noteq> [] \<and> er_CSR q \<noteq> [] \<and>
      w' = w\<lparr>w_io := w_io w @ [TowerCall ''/control/v1/sign'' (enroll_body q)]\<rparr> \<and>
      (if snd (control_enroll (bs_lib bs) (e_tower (bs_env bs) (w_io w) ''/control/v1/sign'' (enroll_body q))) = None
       then rs_code resp = 200 else rs_code resp = 400))"
  using assms
  by (auto simp: enroll_def tower_def Let_def reply_error_def answer_def boot_answer_def split: prod.splits option.splits if_splits)

section \<open>At work\<close>

definition ex_boot_lib :: golib where
  "ex_boot_lib = ex_control_lib\<lparr>gl_unmarshal := (\<lambda>s. if s = ''ok'' then Some (JObj [(''state'', JStr ''pending'')]) else None)\<rparr>"

definition ex_boot_env :: env where
  "ex_boot_env = \<lparr>e_tower = (\<lambda>_ _ _. Reply 200 ''ok''), e_node = (\<lambda>_ _ _ _ _. NetError ''none''), e_now = (\<lambda>io. 0)\<rparr>"

definition ex_boot :: bootstrap where
  "ex_boot = \<lparr>bs_lib = ex_boot_lib, bs_env = ex_boot_env, bs_binDir = ''/b/./x/../y'', bs_publicURL = [],
     bs_files = map_of [(''/b/y/rcon-windows-arm64.exe'', ''MZ'')],
     bs_decode = (\<lambda>s. if s = ''csr'' then Some (JObj [(''csr'', JStr ''c''), (''join_token'', JStr ''t'')]) else None)\<rparr>"


theorem binary_stays_in_directory_witness:
  "binary ex_boot (\<lambda>k. if k = ''os'' then ''windows'' else ''arm64'') = BootFile ''rcon.exe'' ''MZ'' \<and>
   path_clean (bs_binDir ex_boot) = ''/b/y'' \<and>
   (\<exists>file. CHR ''/'' \<notin> set file \<and> bs_files ex_boot (''/b/y/'' @ file) = Some ''MZ'')"
proof -
  have c: "path_clean (bs_binDir ex_boot) = ''/b/y''" by (simp add: ex_boot_def path_clean_def HasPrefix_def)
  have b: "binary ex_boot (\<lambda>k. if k = ''os'' then ''windows'' else ''arm64'') = BootFile ''rcon.exe'' ''MZ''"
    by (simp add: binary_def archTok_def is_lower_def is_digit_def path_join_def path_clean_def HasPrefix_def ex_boot_def)
  have "bs_binDir ex_boot \<noteq> []" by (simp add: ex_boot_def)
  from binary_stays_in_directory [OF b this] obtain name where
    "CHR ''/'' \<notin> set name" "bs_files ex_boot (''/b/y'' @ CHR ''/'' # name) = Some ''MZ''"
    unfolding c Let_def by (simp only: if_False list.inject char.inject list.distinct simp_thms) blast
  then show ?thesis using b c by (intro conjI exI [of _ name]) simp_all
qed

theorem enrollment_is_relayed_once_witness:
  "\<exists>resp w'. enroll ex_boot ''csr'' ex_world = (resp, w') \<and> length (w_io w') = 1"
proof -
  let ?z = "\<lparr>er_JoinToken = [], er_CSR = [], er_Name = []\<rparr>"
  have d: "decode_into enroll_field ?z (bs_decode ex_boot (limitBody ''csr'')) =
      (\<lparr>er_JoinToken = ''t'', er_CSR = ''c'', er_Name = []\<rparr>, True)"
    by (simp add: ex_boot_def limitBody_def enroll_field_def lower_byte_def)
  obtain resp w' where e: "enroll ex_boot ''csr'' ex_world = (resp, w')" by fastforce
  then have "rs_code resp = 200" using d
    by (auto simp: enroll_def tower_def Let_def control_enroll_def call_def callWithLimit_def read_bounded_def decode_out_def
        boot_answer_def answer_def ex_boot_env_def ex_boot_lib_def ex_boot_def controlResponseLimit_def split: prod.splits option.splits)
  with enrollment_is_relayed_once [OF e] have "length (w_io w') = 1" by (auto simp: ex_world_def)
  with e show ?thesis by blast
qed

end
