(* ===== verification/Listen.thy ===== *)
theory Listen
  imports GoText
begin

text \<open>
  \<open>isLoopbackAddr\<close> of \<open>server.go\<close>, with what it uses of the package \<open>net\<close>: splitting an address into host
  and port, and reading an IP address of either version into its bytes.
\<close>

section \<open>Host and port\<close>

definition LastIndexByte :: "string \<Rightarrow> char \<Rightarrow> nat option" where
  "LastIndexByte s c = map_option (\<lambda>i. length s - 1 - i) (IndexByte (rev s) c)"

definition SplitHostPort :: "string \<Rightarrow> (string \<times> string) option" where
  "SplitHostPort s = (case LastIndexByte s (CHR '':'') of None \<Rightarrow> None
    | Some i \<Rightarrow>
      (if HasPrefix s ''['' then
         (case IndexByte s (CHR '']'') of None \<Rightarrow> None
          | Some e \<Rightarrow>
            (if e + 1 \<noteq> i \<or> CHR ''['' \<in> set (drop 1 s) \<or> CHR '']'' \<in> set (drop i s) then None
             else Some (take (e - 1) (drop 1 s), drop (i + 1) s)))
       else if CHR '':'' \<in> set (take i s) \<or> CHR ''['' \<in> set s \<or> CHR '']'' \<in> set s then None
       else Some (take i s, drop (i + 1) s)))"

section \<open>Addresses\<close>

definition v4_field :: "string \<Rightarrow> bool" where
  "v4_field f \<longleftrightarrow> f \<noteq> [] \<and> list_all is_digit f \<and> (length f = 1 \<or> hd f \<noteq> CHR ''0'') \<and> digits_value f \<le> 255"

definition parse_v4 :: "string \<Rightarrow> nat list option" where
  "parse_v4 s = (let fs = Split (CHR ''.'') s in
     if length fs = 4 \<and> list_all v4_field fs then Some (map digits_value fs) else None)"

definition hex_char :: "char \<Rightarrow> bool" where
  "hex_char c \<longleftrightarrow> is_digit c \<or> (97 \<le> byte c \<and> byte c \<le> 102) \<or> (65 \<le> byte c \<and> byte c \<le> 70)"

definition nibble :: "char \<Rightarrow> nat" where
  "nibble c = (if is_digit c then byte c - 48 else if 97 \<le> byte c then byte c - 87 else byte c - 55)"

definition group_value :: "string \<Rightarrow> nat" where
  "group_value s = foldl (\<lambda>v c. 16 * v + nibble c) 0 s"

text \<open>
  The groups of a version 6 address: \<open>acc\<close> are the bytes read so far and \<open>ell\<close> is the place of the double
  colon among them.
\<close>

function v6_groups :: "string \<Rightarrow> nat list \<Rightarrow> nat option \<Rightarrow> (nat list \<times> nat option) option" where
  "v6_groups s acc ell =
     (if 16 \<le> length acc then (if s = [] then Some (acc, ell) else None)
      else let d = takeWhile hex_char s; r = dropWhile hex_char s in
        if d = [] \<or> 4 < length d then None
        else if r \<noteq> [] \<and> hd r = CHR ''.'' then
          (if (ell = None \<and> length acc \<noteq> 12) \<or> 16 < length acc + 4 then None
           else map_option (\<lambda>v. (acc @ v, ell)) (parse_v4 s))
        else let acc = acc @ [group_value d div 256, group_value d mod 256] in
          if r = [] then Some (acc, ell)
          else if hd r \<noteq> CHR '':'' \<or> tl r = [] then None
          else if hd (tl r) \<noteq> CHR '':'' then v6_groups (tl r) acc ell
          else if ell \<noteq> None then None
          else if tl (tl r) = [] then Some (acc, Some (length acc))
          else v6_groups (tl (tl r)) acc (Some (length acc)))"
  by pat_completeness auto
termination
proof (relation "measure (\<lambda>(s, acc, ell). length s)", goal_cases)
  case (2 s acc ell d r acc')
  then have "length d + length r = length s" "d \<noteq> []"
    by (simp_all add: length_append [symmetric] del: length_append)
  then show ?case by (cases d; cases r) auto
next
  case (3 s acc ell d r acc')
  then have "length d + length r = length s" "d \<noteq> []"
    by (simp_all add: length_append [symmetric] del: length_append)
  then show ?case by (cases d; cases r) auto
qed simp

declare v6_groups.simps [simp del]

text \<open>The double colon stands for the zeros that are missing, at least one group.\<close>

definition v6_expand :: "nat list \<times> nat option \<Rightarrow> nat list option" where
  "v6_expand p = (case p of (acc, ell) \<Rightarrow>
     (if length acc < 16 then map_option (\<lambda>e. take e acc @ replicate (16 - length acc) 0 @ drop e acc) ell
      else if ell = None then Some acc else None))"

text \<open>\<open>net.ParseIP\<close> takes no zone.\<close>

definition parse_v6 :: "string \<Rightarrow> nat list option" where
  "parse_v6 s = (if CHR ''%'' \<in> set s then None
     else if HasPrefix s ''::'' then
       (if length s = 2 then Some (replicate 16 0) else Option.bind (v6_groups (drop 2 s) [] (Some 0)) v6_expand)
     else Option.bind (v6_groups s [] None) v6_expand)"

definition ParseIP :: "string \<Rightarrow> nat list option" where
  "ParseIP s = (case find (\<lambda>c. c = CHR ''.'' \<or> c = CHR '':'' \<or> c = CHR ''%'') s of
     Some c \<Rightarrow> (if c = CHR ''.'' then parse_v4 s else if c = CHR '':'' then parse_v6 s else None)
   | None \<Rightarrow> None)"

definition To4 :: "nat list \<Rightarrow> nat list option" where
  "To4 ip = (if length ip = 4 then Some ip
     else if length ip = 16 \<and> take 10 ip = replicate 10 0 \<and> take 2 (drop 10 ip) = [255, 255] then Some (drop 12 ip)
     else None)"

definition IsLoopback :: "nat list \<Rightarrow> bool" where
  "IsLoopback ip = (case To4 ip of Some v4 \<Rightarrow> v4 ! 0 = 127 | None \<Rightarrow> ip = replicate 15 0 @ [1])"

definition isLoopbackAddr :: "string \<Rightarrow> bool" where
  "isLoopbackAddr addr = (case SplitHostPort addr of None \<Rightarrow> False
     | Some (host, _) \<Rightarrow>
       (if host = [] then False else if host = ''localhost'' then True
        else case ParseIP host of None \<Rightarrow> False | Some ip \<Rightarrow> IsLoopback ip))"

section \<open>Lemmas\<close>

lemma IndexByte_None: "IndexByte s c = None \<longleftrightarrow> c \<notin> set s"
  by (induction s) auto

lemma LastIndexByte_append: "c \<notin> set t \<Longrightarrow> LastIndexByte (s @ c # t) c = Some (length s)"
  using IndexByte_append [of c "rev t" "rev s"] by (simp add: LastIndexByte_def)

text \<open>A plain host and a port are found again.\<close>

lemma SplitHostPort_plain:
  assumes "set host \<inter> {CHR '':'', CHR ''['', CHR '']''} = {}" and "set port \<inter> {CHR '':'', CHR ''['', CHR '']''} = {}"
  shows "SplitHostPort (host @ CHR '':'' # port) = Some (host, port)"
proof -
  have "\<not> HasPrefix (host @ CHR '':'' # port) ''[''" using assms by (cases host) (auto simp: HasPrefix_def)
  moreover have "LastIndexByte (host @ CHR '':'' # port) (CHR '':'') = Some (length host)"
    using assms by (intro LastIndexByte_append) auto
  ultimately show ?thesis using assms by (auto simp: SplitHostPort_def)
qed

lemma parse_v4_length: "parse_v4 s = Some ip \<Longrightarrow> length ip = 4 \<and> (\<forall>x \<in> set ip. x \<le> 255)"
  by (auto simp: parse_v4_def Let_def list_all_iff v4_field_def split: if_splits)

lemma v6_groups_length:
  "v6_groups s acc ell = Some (acc', ell') \<Longrightarrow> even (length acc) \<Longrightarrow> length acc \<le> 16 \<Longrightarrow> length acc' \<le> 16"
proof (induction s acc ell rule: v6_groups.induct)
  case (1 s acc ell)
  define d r where "d = takeWhile hex_char s" and "r = dropWhile hex_char s"
  define a where "a = acc @ [group_value d div 256, group_value d mod 256]"
  show ?case
  proof (cases "16 \<le> length acc")
    case True
    then show ?thesis using "1.prems" by (subst (asm) v6_groups.simps) (auto split: if_splits)
  next
    case False
    then have a: "length a \<le> 16" "even (length a)" using "1.prems"(2) by (auto simp: a_def elim!: evenE)
    note IH = "1.IH" [OF False d_def r_def _ _ a_def]
    show ?thesis
    proof (cases "d = [] \<or> 4 < length d \<or> (r \<noteq> [] \<and> hd r = CHR ''.'')")
      case True
      then show ?thesis using "1.prems" False parse_v4_length
        by (subst (asm) v6_groups.simps) (fastforce simp: Let_def d_def [symmetric] r_def [symmetric] split: if_splits)
    next
      case other: False
      have e: "v6_groups s acc ell = (if r = [] then Some (a, ell) else if hd r \<noteq> CHR '':'' \<or> tl r = [] then None
          else if hd (tl r) \<noteq> CHR '':'' then v6_groups (tl r) a ell else if ell \<noteq> None then None
          else if tl (tl r) = [] then Some (a, Some (length a)) else v6_groups (tl (tl r)) a (Some (length a)))"
        using False other
        by (subst v6_groups.simps) (simp only: Let_def d_def [symmetric] r_def [symmetric] a_def if_False de_Morgan_disj simp_thms)
      have n: "\<not> (d = [] \<or> 4 < length d)" "\<not> (r \<noteq> [] \<and> hd r = CHR ''.'')" using other by simp_all
      note IH' = IH [OF n]
      from "1.prems"(1) consider "acc' = a" | "r \<noteq> []" "\<not> (hd r \<noteq> CHR '':'' \<or> tl r = [])" "hd (tl r) \<noteq> CHR '':''" "v6_groups (tl r) a ell = Some (acc', ell')"
        | "r \<noteq> []" "\<not> (hd r \<noteq> CHR '':'' \<or> tl r = [])" "\<not> hd (tl r) \<noteq> CHR '':''" "\<not> ell \<noteq> None" "tl (tl r) \<noteq> []" "v6_groups (tl (tl r)) a (Some (length a)) = Some (acc', ell')"
        unfolding e by (auto split: if_splits)
      then show ?thesis
      proof cases
        case 1
        then show ?thesis using a by simp
      next
        case 2
        show ?thesis by (rule IH' (1) [OF 2(1-4) a(2,1)])
      next
        case 3
        show ?thesis by (rule IH' (2) [OF 3(1-6) a(2,1)])
      qed
    qed
  qed
qed

lemma v6_expand_length: "length acc \<le> 16 \<Longrightarrow> v6_expand (acc, ell) = Some ip \<Longrightarrow> length ip = 16"
  by (auto simp: v6_expand_def split: if_splits)

lemma ParseIP_length: "ParseIP s = Some ip \<Longrightarrow> length ip = 4 \<or> length ip = 16"
  using v6_expand_length v6_groups_length [of _ "[]"]
  by (fastforce simp: ParseIP_def parse_v6_def bind_eq_Some_conv split: option.splits if_splits dest!: parse_v4_length)

text \<open>The bytes of the loopback addresses, as they are read.\<close>

lemma IsLoopback_bytes:
  assumes "length ip = 4 \<or> length ip = 16"
  shows "IsLoopback ip \<longleftrightarrow> ip = replicate 15 0 @ [1] \<or>
    (\<exists>b c d. ip = [127, b, c, d] \<or> ip = replicate 10 0 @ [255, 255, 127, b, c, d])"
proof -
  have four: "xs ! 0 = 127 \<longleftrightarrow> (\<exists>b c d. xs = [127, b, c, d])" if "length xs = 4" for xs :: "nat list"
    using that by (auto simp: length_Suc_conv numeral_eq_Suc)
  show ?thesis
  proof (cases "length ip = 4")
    case True
    then show ?thesis using four [of ip] by (auto simp: IsLoopback_def To4_def)
  next
    case False
    with assms have l: "length ip = 16" by simp
    show ?thesis
    proof (cases "take 10 ip = replicate 10 0 \<and> take 2 (drop 10 ip) = [255, 255]")
      case True
      then have "ip = replicate 10 0 @ [255, 255] @ drop 12 ip"
        using append_take_drop_id [of 10 ip] append_take_drop_id [of 2 "drop 10 ip"] by simp
      then show ?thesis using True l four [of "drop 12 ip"]
        by (auto simp: IsLoopback_def To4_def numeral_eq_Suc)
    next
      case False
      then show ?thesis using l by (auto simp: IsLoopback_def To4_def)
    qed
  qed
qed

end
