(* ===== verification/AdminApi.thy ===== *)
theory AdminApi
  imports Listen Bootstrap BrokerRun CallerProps
begin

text \<open>
  \<open>ServeAdmin\<close> of \<open>admin.go\<close>: the unauthenticated interface of the operator. Where it listens, and what its
  five handlers do with the broker.
\<close>

section \<open>Where it listens\<close>

text \<open>
  A socket (and whether its permissions could be set), a loopback port, no interface because the socket
  could not be opened, or the end of the process.
\<close>

datatype admin_door = AdminSocket string bool | AdminLoopback string | AdminClosed | AdminFatal

definition admin_listen :: "(string \<Rightarrow> bool) \<Rightarrow> (string \<Rightarrow> bool) \<Rightarrow> string \<Rightarrow> admin_door" where
  "admin_listen listens chmods addr =
     (if HasPrefix addr ''/'' then (if \<not> listens addr then AdminClosed else AdminSocket addr (chmods addr))
      else if \<not> isLoopbackAddr addr then AdminFatal else AdminLoopback addr)"

section \<open>The handlers\<close>

record admin =
  ad_lib :: golib
  ad_env :: env
  ad_casing :: casing
  ad_tenant :: string
  ad_decode :: "string \<Rightarrow> json option"

record call_request =
  aq_Node :: string
  aq_Method :: string
  aq_Path :: string
  aq_Body :: string

definition zero_call :: call_request where
  "zero_call = \<lparr>aq_Node = [], aq_Method = [], aq_Path = [], aq_Body = []\<rparr>"

definition call_field :: "string \<Rightarrow> json \<Rightarrow> call_request \<Rightarrow> call_request option" where
  "call_field k j v =
     (if k = ''node'' then set_string (\<lambda>s. aq_Node_update (\<lambda>_. s)) j v
      else if k = ''method'' then set_string (\<lambda>s. aq_Method_update (\<lambda>_. s)) j v
      else if k = ''path'' then set_string (\<lambda>s. aq_Path_update (\<lambda>_. s)) j v
      else if k = ''body'' then set_string (\<lambda>s. aq_Body_update (\<lambda>_. s)) j v
      else Some v)"

text \<open>A nil slice is written as \<open>null\<close>.\<close>

definition slice_json :: "('a \<Rightarrow> json) \<Rightarrow> 'a list \<Rightarrow> json" where
  "slice_json f xs = (if xs = [] then JNull else JArr (map f xs))"

definition admin_tunnels :: "broker \<Rightarrow> response" where
  "admin_tunnels b = (let hosts = LiveHosts b in
     answer 200 [(''count'', RJ (JInt (int (length hosts)))), (''tunnels'', RJ (slice_json host_json hosts))])"

definition no_match :: response where
  "no_match = reply_error 404 ''no live tunnel matching node''"

text \<open>The node to nudge, which a goroutine does by \<open>forceUpdate\<close>.\<close>

definition admin_update :: "admin \<Rightarrow> string \<Rightarrow> broker \<Rightarrow> response \<times> string option" where
  "admin_update ad node b = (let svid = matchTunnel (ad_casing ad) node b in
     if svid = [] then (no_match, None) else (answer 200 [(''nudged'', RJ (JStr svid))], Some svid))"

definition admin_renew :: "admin \<Rightarrow> string \<Rightarrow> 'a world_scheme \<Rightarrow> response \<times> 'a world_scheme" where
  "admin_renew ad node w = (let svid = matchTunnel (ad_casing ad) node (w_broker w) in
     if svid = [] then (no_match, w)
     else case renewNode (ad_lib ad) (ad_env ad) svid w of
       (Some e, w) \<Rightarrow> (answer 502 [(''error'', RErr [] e), (''node'', RJ (JStr svid))], w)
     | (None, w) \<Rightarrow> (answer 200 [(''renewed'', RJ (JStr svid))], w))"

definition admin_reconcile :: "admin \<Rightarrow> 'a world_scheme \<Rightarrow> response \<times> 'a world_scheme" where
  "admin_reconcile ad w = (let before = length (LiveSVIDs (w_broker w)) in
     case refreshAndReconcile (ad_lib ad) (ad_env ad) (ad_tenant ad) w of
       (Some e, w) \<Rightarrow> (reply_err 502 [] e, w)
     | (None, w) \<Rightarrow> (let after = LiveSVIDs (w_broker w) in
         (answer 200 [(''reconciled'', RJ (JBool True)), (''tunnels_before'', RJ (JInt (int before))),
            (''tunnels_after'', RJ (JInt (int (length after)))),
            (''dropped'', RJ (JInt (int before - int (length after)))), (''live'', RJ (slice_json JStr after))], w)))"

text \<open>The text of an error of the JSON decoder is left out.\<close>

definition admin_call :: "admin \<Rightarrow> string \<Rightarrow> 'a world_scheme \<Rightarrow> response \<times> 'a world_scheme" where
  "admin_call ad body w =
     (let (q, ok) = decode_into call_field zero_call (ad_decode ad (limitBody body)) in
      if \<not> ok then (reply_err 400 [] (Errnew []), w)
      else let svid = matchTunnel (ad_casing ad) (aq_Node q) (w_broker w) in
        if svid = [] then (reply_error 404 (''no live tunnel matching '' @ aq_Node q), w)
        else case Inject (ad_env ad) svid (if aq_Method q = [] then ''GET'' else aq_Method q) (aq_Path q)
              (if aq_Body q \<noteq> [] then Some (aq_Body q) else None) w of
          (Inl e, w) \<Rightarrow> (answer 502 [(''error'', RErr [] e), (''node'', RJ (JStr svid))], w)
        | (Inr out, w) \<Rightarrow> (answer 200 [(''node'', RJ (JStr svid)), (''result'', RJ (JStr out))], w))"

text \<open>
  The five paths; \<open>query\<close> are the parameters of the request. The answer, the node a goroutine is started
  for, and the world; \<open>None\<close> is a path that is not served.
\<close>

definition ServeAdmin :: "admin \<Rightarrow> string \<Rightarrow> (string \<Rightarrow> string) \<Rightarrow> string \<Rightarrow> 'a world_scheme \<Rightarrow>
    (response \<times> string option \<times> 'a world_scheme) option" where
  "ServeAdmin ad path query body w =
     (if path = ''/tunnels'' then Some (admin_tunnels (w_broker w), None, w)
      else if path = ''/update'' then
        (let (resp, nudged) = admin_update ad (query ''node'') (w_broker w) in Some (resp, nudged, w))
      else if path = ''/renew'' then (let (resp, w) = admin_renew ad (query ''node'') w in Some (resp, None, w))
      else if path = ''/reconcile'' then (let (resp, w) = admin_reconcile ad w in Some (resp, None, w))
      else if path = ''/call'' then (let (resp, w) = admin_call ad body w in Some (resp, None, w))
      else None)"

section \<open>What they touch\<close>

text \<open>Every call to a node among \<open>new\<close> is to \<open>svid\<close>.\<close>

fun call_to :: "string \<Rightarrow> io \<Rightarrow> bool" where
  "call_to svid (NodeCall s cc m p b) \<longleftrightarrow> s = svid"
| "call_to svid _ \<longleftrightarrow> True"

definition only_node_calls :: "string \<Rightarrow> io list \<Rightarrow> bool" where
  "only_node_calls svid new \<longleftrightarrow> list_all (call_to svid) new"

lemma only_node_calls_simps [simp]:
  "only_node_calls svid []" "only_node_calls svid (xs @ ys) \<longleftrightarrow> only_node_calls svid xs \<and> only_node_calls svid ys"
  "only_node_calls svid (x # xs) \<longleftrightarrow> call_to svid x \<and> only_node_calls svid xs"
  by (simp_all add: only_node_calls_def)

lemma only_node_callsD: "only_node_calls svid new \<Longrightarrow> NodeCall s cc m p b \<in> set new \<Longrightarrow> s = svid"
  by (force simp: only_node_calls_def list_all_iff)

lemma injected_only:
  "injected svid m p body (bio w) (bio w') \<Longrightarrow> \<exists>new. w_io w' = w_io w @ new \<and> only_node_calls svid new"
  by (auto simp: injected_def split: option.splits)

lemma tower_only: "tower env m q w = (r, w') \<Longrightarrow> \<exists>new. w_io w' = w_io w @ new \<and> only_node_calls svid new"
  by (auto simp: tower_def)

lemma only_trans:
  "\<exists>new. w_io v = w_io u @ new \<and> only_node_calls svid new \<Longrightarrow> \<exists>new. w_io w = w_io v @ new \<and> only_node_calls svid new \<Longrightarrow>
     \<exists>new. w_io w = w_io u @ new \<and> only_node_calls svid new"
  by auto

lemma renewNode_only: "\<exists>new. w_io (snd (renewNode lib env svid w)) = w_io w @ new \<and> only_node_calls svid new"
proof -
  obtain r w1 where i: "InjectResponse env svid ''GET'' ''/renew/csr'' None w = (r, w1)" by fastforce
  note 1 = injected_only [OF InjectResponse_injected [OF i]]
  show ?thesis
  proof (cases "\<exists>csrResp csr. br_control (w_broker w) \<and> r = Inr csrResp \<and> ir_StatusCode csrResp = 200 \<and>
      decode_csr lib (ir_Body csrResp) = Some csr \<and> csr \<noteq> []")
    case False
    then have "snd (renewNode lib env svid w) \<in> {w, w1}"
      by (cases r) (auto simp: renewNode_def i split: option.splits)
    then show ?thesis using 1 by auto
  next
    case True
    then obtain csrResp csr where c: "br_control (w_broker w)" "r = Inr csrResp"
        "ir_StatusCode csrResp = 200" "decode_csr lib (ir_Body csrResp) = Some csr" "csr \<noteq> []" by blast
    obtain reply w2 where t: "tower env ''/control/v1/sign''
        [(''purpose'', JStr ''renew''), (''csr'', JStr csr)] w1 = (reply, w2)" by fastforce
    have 2: "\<exists>new. w_io w2 = w_io w @ new \<and> only_node_calls svid new"
      using 1 tower_only [OF t] by (rule only_trans)
    have "snd (renewNode lib env svid w) = w2 \<or>
        (\<exists>r body. InjectResponse env svid ''POST'' ''/renew/apply'' body w2 = (r, snd (renewNode lib env svid w)))"
      by (cases "signRenew lib reply")
        (auto simp: renewNode_def i c t Let_def split: prod.splits sum.splits option.splits)
    then show ?thesis using 2 only_trans [OF 2 injected_only [OF InjectResponse_injected]] by metis
  qed
qed

text \<open>The node of a request: a parameter, or a member of the body.\<close>

definition admin_node :: "admin \<Rightarrow> string \<Rightarrow> (string \<Rightarrow> string) \<Rightarrow> string \<Rightarrow> string" where
  "admin_node ad path query body = (if path = ''/call''
     then aq_Node (fst (decode_into call_field zero_call (ad_decode ad (limitBody body)))) else query ''node'')"

lemma matchTunnel_live: "matchTunnel cas q b \<noteq> [] \<Longrightarrow> gm_load (br_tunnels b) (matchTunnel cas q b) \<noteq> None"
  unfolding matchTunnel_def resolveTarget_def
  by (rule live.resolved_known [of cas q b _ "snd (resolveAmong cas q (LiveHosts b))"]) simp_all

section \<open>Properties\<close>

text \<open>The unauthenticated interface is never offered beyond the machine: it is a socket in the file system,
  or a port of \<open>localhost\<close>, of 127.0.0.0/8 in either notation, or of \<open>::1\<close>. A missing host, a wildcard,
  a host name or any other address ends the process.\<close>

theorem admin_listens_locally:
  assumes "admin_listen listens chmods addr = door" and "door \<noteq> AdminFatal" and "door \<noteq> AdminClosed"
  shows "(\<exists>path. addr = CHR ''/'' # path \<and> door = AdminSocket addr (chmods addr)) \<or>
    (door = AdminLoopback addr \<and> (\<exists>host port. SplitHostPort addr = Some (host, port) \<and>
      (host = ''localhost'' \<or> ParseIP host = Some (replicate 15 0 @ [1]) \<or>
       (\<exists>b c d. ParseIP host = Some [127, b, c, d] \<or>
          ParseIP host = Some (replicate 10 0 @ [255, 255, 127, b, c, d])))))"
proof (cases "HasPrefix addr ''/''")
  case True
  then show ?thesis using assms HasPrefixE [OF True] by (auto simp: admin_listen_def split: if_splits)
next
  case False
  then have l: "isLoopbackAddr addr" "door = AdminLoopback addr"
    using assms by (auto simp: admin_listen_def split: if_splits)
  then obtain host port where s: "SplitHostPort addr = Some (host, port)"
    and h: "host = ''localhost'' \<or> (\<exists>ip. ParseIP host = Some ip \<and> IsLoopback ip)"
    by (auto simp: isLoopbackAddr_def split: option.splits if_splits)
  from h show ?thesis
  proof (elim disjE exE conjE)
    fix ip
    assume ip: "ParseIP host = Some ip" "IsLoopback ip"
    show ?thesis using ip s l(2) IsLoopback_bytes [of ip] ParseIP_length [OF ip(1)] by auto
  qed (use s l(2) in auto)
qed

text \<open>What a request did, when it is about the node \<open>svid\<close>.\<close>

definition touches_only :: "string \<Rightarrow> 'a world_scheme \<Rightarrow> response \<Rightarrow> string option \<Rightarrow> 'a world_scheme \<Rightarrow> bool" where
  "touches_only svid w resp nudged w' \<longleftrightarrow> (\<exists>new. w_io w' = w_io w @ new \<and> only_node_calls svid new \<and>
      (svid = [] \<longrightarrow> list_all (\<lambda>x. \<not> is_node_call x) new) \<and>
      (nudged \<noteq> None \<longrightarrow> nudged = Some svid \<and> svid \<noteq> []) \<and> (rs_code resp \<in> {400, 404} \<longrightarrow> w' = w \<and> nudged = None))"

lemma touches_only_same: "nudged = None \<or> svid \<noteq> [] \<and> nudged = Some svid \<and> rs_code resp \<notin> {400, 404} \<Longrightarrow> touches_only svid w resp nudged w"
  by (auto simp: touches_only_def)

lemma touches_onlyD:
  assumes "touches_only svid w resp nudged w'"
  shows "\<exists>new. w_io w' = w_io w @ new \<and>
    (\<forall>s. nudged = Some s \<or> (\<exists>cc m p b. NodeCall s cc m p b \<in> set new) \<longrightarrow> s = svid \<and> svid \<noteq> []) \<and>
    (rs_code resp \<in> {400, 404} \<longrightarrow> w' = w \<and> nudged = None)"
proof -
  obtain new where new: "w_io w' = w_io w @ new" "only_node_calls svid new"
    "svid = [] \<longrightarrow> list_all (\<lambda>x. \<not> is_node_call x) new" "nudged \<noteq> None \<longrightarrow> nudged = Some svid \<and> svid \<noteq> []"
    "rs_code resp \<in> {400, 404} \<longrightarrow> w' = w \<and> nudged = None"
    using assms unfolding touches_only_def by blast
  have "s = svid \<and> svid \<noteq> []" if "nudged = Some s \<or> (\<exists>cc m p b. NodeCall s cc m p b \<in> set new)" for s
    using that new(3,4) only_node_callsD [OF new(2)] by (auto simp: list_all_iff)
  with new show ?thesis by blast
qed

lemma admin_update_touches:
  assumes "admin_update ad node b = (resp, nudged)" and "b = w_broker w"
  shows "touches_only (matchTunnel (ad_casing ad) node b) w resp nudged w"
  using assms by (intro touches_only_same) (auto simp: admin_update_def Let_def no_match_def reply_error_def answer_def split: if_splits)

lemma admin_renew_touches:
  assumes "admin_renew ad node w = (resp, w')"
  shows "touches_only (matchTunnel (ad_casing ad) node (w_broker w)) w resp None w'"
proof (cases "matchTunnel (ad_casing ad) node (w_broker w) = []")
  case True
  then have "w' = w" using assms by (simp add: admin_renew_def Let_def)
  then show ?thesis by (simp add: touches_only_same)
next
  case False
  then have "w' = snd (renewNode (ad_lib ad) (ad_env ad) (matchTunnel (ad_casing ad) node (w_broker w)) w) \<and> rs_code resp \<in> {200, 502}"
    using assms by (auto simp: admin_renew_def Let_def split: prod.splits option.splits)
  then show ?thesis using renewNode_only [of "ad_lib ad" "ad_env ad" _ w] False by (auto simp: touches_only_def)
qed

lemma admin_reconcile_touches:
  assumes "admin_reconcile ad w = (resp, w')"
  shows "touches_only svid w resp None w'"
  using assms
  by (auto simp: touches_only_def admin_reconcile_def Let_def refreshAndReconcile_def tower_def reply_err_def
      split: prod.splits option.splits sum.splits bool.splits if_splits)

lemma admin_call_touches:
  assumes "admin_call ad body w = (resp, w')"
  shows "touches_only (matchTunnel (ad_casing ad) (admin_node ad ''/call'' query body) (w_broker w)) w resp None w'"
    (is "touches_only ?svid w resp None w'")
proof (cases "?svid = [] \<or> w' = w")
  case True
  then have "w' = w" using assms
    by (auto simp: admin_call_def Let_def admin_node_def split: prod.splits if_splits)
  then show ?thesis by (auto intro: touches_only_same)
next
  case False
  then obtain m p b x where "Inject (ad_env ad) ?svid m p b w = (x, w') \<and> rs_code resp \<in> {200, 502}"
    using assms by (auto simp: admin_call_def Let_def admin_node_def split: prod.splits if_splits sum.splits)
  then show ?thesis using injected_only [OF Inject_injected] False unfolding touches_only_def by fastforce
qed


text \<open>What the operator is told of a forced revocation is what happened: the number of tunnels before and
  after, and the identities that are left, all on the new list; each of the others was closed.\<close>

theorem admin_reconcile_reports:
  assumes "admin_reconcile ad w = (resp, w')" and "rs_code resp = 200"
  shows "let b = w_broker w; b' = w_broker w';
      gone = filter (\<lambda>p. fst p \<notin> listed b') (br_tunnels b); kept = filter (\<lambda>p. fst p \<in> listed b') (br_tunnels b) in
    rs_body resp = Some [(''reconciled'', RJ (JBool True)), (''tunnels_before'', RJ (JInt (int (length (br_tunnels b))))),
      (''tunnels_after'', RJ (JInt (int (length kept)))), (''dropped'', RJ (JInt (int (length gone)))),
      (''live'', RJ (slice_json JStr (map fst kept)))] \<and>
    br_tunnels b' = kept \<and> br_closed b' = br_closed b @ map snd gone"
proof -
  obtain r where r: "refreshAndReconcile (ad_lib ad) (ad_env ad) (ad_tenant ad) w = (r, w')"
    using assms(1) by (auto simp: admin_reconcile_def Let_def split: prod.splits option.splits)
  have n: "r = None" using assms r by (cases r) (auto simp: admin_reconcile_def Let_def reply_err_def)
  then obtain a where a: "al_Loaded a" "w_broker w' = reconcile ((w_broker w)\<lparr>br_allow := a\<rparr>)"
    using r by (auto simp: refreshAndReconcile_def tower_def dest!: al_Replace_True
        split: prod.splits sum.splits bool.splits if_splits)
  define b0 where "b0 = (w_broker w)\<lparr>br_allow := a\<rparr>"
  have e: "br_tunnels (w_broker w') = filter (\<lambda>p. fst p \<in> listed b0) (br_tunnels (w_broker w))"
    "br_closed (w_broker w') = br_closed (w_broker w) @ map snd (filter (\<lambda>p. fst p \<notin> listed b0) (br_tunnels (w_broker w)))"
    "listed (w_broker w') = listed b0"
    using reconcile_eq [of b0] a unfolding b0_def [symmetric]
    by (simp_all add: Let_def b0_def listed_def [of "reconcile b" for b] listed_def [of "w_broker w\<lparr>br_allow := a\<rparr>"])
  have "int (length (br_tunnels (w_broker w))) - int (length (filter (\<lambda>p. fst p \<in> listed b0) (br_tunnels (w_broker w)))) =
      int (length (filter (\<lambda>p. fst p \<notin> listed b0) (br_tunnels (w_broker w))))"
    using sum_length_filter_compl [of "\<lambda>p. fst p \<in> listed b0" "br_tunnels (w_broker w)"] by linarith
  then show ?thesis
    using assms(1) r n by (auto simp: admin_reconcile_def Let_def answer_def LiveSVIDs_def e)
qed

section \<open>At work\<close>

definition ex_admin :: admin where
  "ex_admin = \<lparr>ad_lib = ex_control_lib, ad_env = ex_env, ad_casing = ascii_casing, ad_tenant = ''t1'',
     ad_decode = (\<lambda>s. if s = ''call'' then Some (JObj [(''node'', JStr ''a''), (''path'', JStr ''/health'')]) else None)\<rparr>"

theorem admin_listens_locally_witness:
  "admin_listen (\<lambda>_. True) (\<lambda>_. True) ''[::1]:8770'' = AdminLoopback ''[::1]:8770'' \<and>
   (\<exists>port. SplitHostPort ''[::1]:8770'' = Some (''::1'', port)) \<and>
   admin_listen (\<lambda>_. True) (\<lambda>_. True) ''0.0.0.0:8770'' = AdminFatal"
proof -
  have s: "SplitHostPort ''[::1]:8770'' = Some (''::1'', ''8770'')" "SplitHostPort ''0.0.0.0:8770'' = Some (''0.0.0.0'', ''8770'')"
    by (simp_all add: SplitHostPort_def LastIndexByte_def HasPrefix_def)
  have v: "v6_groups ''1'' [] (Some 0) = Some ([0, 1], Some 0)"
    by (subst v6_groups.simps) (simp add: hex_char_def is_digit_def group_value_def nibble_def Let_def)
  have p: "ParseIP ''::1'' = Some (replicate 15 0 @ [1])"
    by (simp add: ParseIP_def parse_v6_def HasPrefix_def v v6_expand_def numeral_eq_Suc)
  have z: "ParseIP ''0.0.0.0'' = Some [0, 0, 0, 0]"
    by (simp add: ParseIP_def parse_v4_def v4_field_def is_digit_def digits_value_def)
  have "isLoopbackAddr ''[::1]:8770''"
    by (simp add: isLoopbackAddr_def s p IsLoopback_def To4_def numeral_eq_Suc)
  then have d: "admin_listen (\<lambda>_. True) (\<lambda>_. True) ''[::1]:8770'' = AdminLoopback ''[::1]:8770''"
    by (simp add: admin_listen_def HasPrefix_def)
  have "\<not> isLoopbackAddr ''0.0.0.0:8770''" by (simp add: isLoopbackAddr_def s z IsLoopback_def To4_def)
  then have "admin_listen (\<lambda>_. True) (\<lambda>_. True) ''0.0.0.0:8770'' = AdminFatal"
    by (simp add: admin_listen_def HasPrefix_def)
  moreover have "\<exists>port. SplitHostPort ''[::1]:8770'' = Some (''::1'', port)"
    using admin_listens_locally [OF d] s(1) by auto
  ultimately show ?thesis using d by blast
qed


end
