(* ===== verification/Identity.thy ===== *)
theory Identity
  imports Bootstrap DesktopLogin
begin

text \<open>
  Who is who on the two mutual TLS links: \<open>identity.go\<close>, the pinning of the control server in
  \<open>newControlClient\<close> of \<open>control.go\<close> and the listener of \<open>broker.go\<close>. A certificate is what the program reads
  of it. Parsing and the verification of a chain of signatures are arguments.
\<close>

section \<open>Certificates\<close>

record certificate =
  ct_URIs :: "string list"
  ct_SPKI :: string
  ct_Raw :: string

datatype key_usage = AnyServer | ClientAuth

text \<open>
  \<open>xl_parse\<close>: \<open>x509.ParseCertificate\<close>; \<open>xl_verify\<close>: whether a certificate chains up to one of the roots
  through the intermediates, or why not; \<open>xl_pem\<close>: the certificates of a PEM text; \<open>xl_keypair\<close>: the chain of
  a certificate file that fits a key file.
\<close>

record xlib =
  xl_parse :: "string \<Rightarrow> certificate res"
  xl_verify :: "certificate list \<Rightarrow> certificate list \<Rightarrow> key_usage \<Rightarrow> certificate \<Rightarrow> goerror option"
  xl_pem :: "string \<Rightarrow> certificate list"
  xl_keypair :: "string \<Rightarrow> string \<Rightarrow> string list res"

text \<open>The chain of the own certificate, which is not empty, and the roots.\<close>

record Identity =
  id_Cert :: "string list"
  id_CAPool :: "certificate list"

text \<open>\<open>files\<close> are the contents of the files that can be read.\<close>

definition loadIdentity :: "xlib \<Rightarrow> (string \<Rightarrow> string res) \<Rightarrow> string \<Rightarrow> string \<Rightarrow> Identity res" where
  "loadIdentity x files etcDir role =
     (case (case files (path_join etcDir (role @ ''-cert.pem'')) of Inl e \<Rightarrow> Inl e | Inr c \<Rightarrow>
         (case files (path_join etcDir (role @ ''-key.pem'')) of Inl e \<Rightarrow> Inl e | Inr k \<Rightarrow> xl_keypair x c k)) of
        Inl e \<Rightarrow> Inl (Errorf ''load keypair: %w'' [ArgE e])
      | Inr crt \<Rightarrow>
        (case files (path_join etcDir ''ca-bundle.pem'') of Inl e \<Rightarrow> Inl (Errorf ''read ca bundle: %w'' [ArgE e])
         | Inr bundle \<Rightarrow>
           (if xl_pem x bundle = [] then Inl (Errnew ''no certs found in ca-bundle.pem'')
            else Inr \<lparr>id_Cert = crt, id_CAPool = xl_pem x bundle\<rparr>)))"

definition spiffeID :: "certificate \<Rightarrow> string" where
  "spiffeID c = (case ct_URIs c of [] \<Rightarrow> [] | u # us \<Rightarrow> u)"

definition SpiffeID :: "xlib \<Rightarrow> Identity \<Rightarrow> string res" where
  "SpiffeID x i = (case xl_parse x (hd (id_Cert i)) of Inl e \<Rightarrow> Inl e | Inr leaf \<Rightarrow> Inr (spiffeID leaf))"

definition spkiFingerprint :: "golib \<Rightarrow> certificate \<Rightarrow> string" where
  "spkiFingerprint lib c = hex_encode (gl_sha256 lib (ct_SPKI c))"

section \<open>The control server\<close>

fun parsed :: "xlib \<Rightarrow> string list \<Rightarrow> certificate list" where
  "parsed x [] = []"
| "parsed x (raw # raws) = (case xl_parse x raw of Inl e \<Rightarrow> parsed x raws | Inr c \<Rightarrow> c # parsed x raws)"

definition verify_control :: "xlib \<Rightarrow> Identity \<Rightarrow> string \<Rightarrow> string list \<Rightarrow> goerror option" where
  "verify_control x i expectedServerID rawCerts = (case rawCerts of
      [] \<Rightarrow> Some (Errnew ''control server presented no certificate'')
    | raw # raws \<Rightarrow>
      (case xl_parse x raw of Inl e \<Rightarrow> Some e
       | Inr leaf \<Rightarrow>
         (case xl_verify x (id_CAPool i) (parsed x raws) AnyServer leaf of
            Some e \<Rightarrow> Some (Errorf ''control server cert not anchored to our CA: %w'' [ArgE e])
          | None \<Rightarrow>
            (if spiffeID leaf \<noteq> expectedServerID
             then Some (Errorf ''control server SPIFFE id %q != expected %q'' [ArgS (spiffeID leaf), ArgS expectedServerID])
             else None))))"

text \<open>The tenant whose allow-list the client accepts; an unreadable own identity leaves it empty.\<close>

definition expectedTenant :: "golib \<Rightarrow> xlib \<Rightarrow> Identity \<Rightarrow> string" where
  "expectedTenant lib x i = tenantOf lib (case SpiffeID x i of Inl e \<Rightarrow> [] | Inr svid \<Rightarrow> svid)"

text \<open>
  A call over the link: \<open>handshake\<close> is the chain the server shows, or \<open>None\<close> when there is no connection;
  nothing is sent to a server that is refused.
\<close>

definition control_post :: "xlib \<Rightarrow> Identity \<Rightarrow> string \<Rightarrow> string list option \<Rightarrow> http_reply \<Rightarrow> http_reply" where
  "control_post x i expectedServerID chain reply = (case chain of None \<Rightarrow> NetError ''connection''
     | Some raws \<Rightarrow> (case verify_control x i expectedServerID raws of Some e \<Rightarrow> NetError ''tls'' | None \<Rightarrow> reply))"

section \<open>The listener for nodes\<close>

text \<open>
  What a connection offers: whether it is TLS at all and its transport holds, the chain of the peer, and
  whether HTTP/2 starts over it. \<open>RequireAndVerifyClientCert\<close> with \<open>ClientCAs\<close>: every certificate must
  parse, there must be one, and the first must chain up to the pool for client authentication.
\<close>

record offer =
  of_tls :: bool
  of_transport :: bool
  of_chain :: "string list"
  of_h2 :: bool

definition parse_all :: "xlib \<Rightarrow> string list \<Rightarrow> certificate list option" where
  "parse_all x raws = those (map (\<lambda>raw. case xl_parse x raw of Inl e \<Rightarrow> None | Inr c \<Rightarrow> Some c) raws)"

definition client_verified :: "xlib \<Rightarrow> Identity \<Rightarrow> string list \<Rightarrow> certificate option" where
  "client_verified x i raws = (case parse_all x raws of
      Some (leaf # rest) \<Rightarrow> (if xl_verify x (id_CAPool i) rest ClientAuth leaf = None then Some leaf else None)
    | _ \<Rightarrow> None)"

definition accept_conn :: "xlib \<Rightarrow> Identity \<Rightarrow> golib \<Rightarrow> env \<Rightarrow> int \<Rightarrow> offer \<Rightarrow> 'a world_scheme \<Rightarrow> task list \<times> 'a world_scheme" where
  "accept_conn x i lib env conn off w = (case client_verified x i (of_chain off) of
      None \<Rightarrow> handle lib env conn (of_tls off) False [] [] (of_h2 off) w
    | Some peer \<Rightarrow> handle lib env conn (of_tls off) (of_transport off) (spiffeID peer) (spkiFingerprint lib peer) (of_h2 off) w)"

section \<open>Properties\<close>

text \<open>C3: A connection becomes a tunnel exactly when the peer proves a certificate that chains up to the own
  trust anchor, and no other root, for client authentication, its first URI names a node of the own tenant,
  and the hash of its key is on the allow-list at that moment. The tunnel is the one of that identity and the
  first thing sent down it is a health check. Every other connection is closed before a byte is sent, and
  nothing is registered.\<close>

theorem tunnel_needs_anchored_listed_certificate:
  "let (ts, w') = accept_conn x i lib env conn off w; b = w_broker w; b' = w_broker w';
       refused = (ts = [] \<and> w_io w' = w_io w \<and> br_tunnels b' = br_tunnels b \<and> br_closed b' = br_closed b @ [conn]) in
   case client_verified x i (of_chain off) of
     None \<Rightarrow> refused
   | Some leaf \<Rightarrow>
      (\<exists>rest. parse_all x (of_chain off) = Some (leaf # rest) \<and> xl_verify x (id_CAPool i) rest ClientAuth leaf = None) \<and>
      (if of_tls off \<and> of_transport off \<and> of_h2 off \<and> tenantOf lib (spiffeID leaf) = br_tenant b \<and>
          al_Lookup (br_allow b) (spkiFingerprint lib leaf) \<noteq> None
       then w_io w' = w_io w @ [NodeCall (spiffeID leaf) conn ''GET'' ''/health'' None] \<and> br_closed b' = br_closed b \<and>
         (\<exists>t \<in> {Some conn, None}. gm_load (br_tunnels b') = (gm_load (br_tunnels b))(spiffeID leaf := t)) \<and>
         WatchTunnel (spiffeID leaf) conn \<in> set ts
       else refused)"
proof (cases "client_verified x i (of_chain off)")
  case None
  then show ?thesis
    using handle_refused [of lib "of_tls off" False "[]" "[]" "of_h2 off" w env conn]
    by (simp add: accept_conn_def admitted_def)
next
  case (Some leaf)
  then obtain rest where c: "parse_all x (of_chain off) = Some (leaf # rest)"
      "xl_verify x (id_CAPool i) rest ClientAuth leaf = None"
    by (auto simp: client_verified_def split: option.splits list.splits if_splits)
  obtain ts w' where h: "handle lib env conn (of_tls off) (of_transport off) (spiffeID leaf) (spkiFingerprint lib leaf)
      (of_h2 off) w = (ts, w')" by fastforce
  show ?thesis
  proof (cases "admitted lib (of_tls off) (of_transport off) (spiffeID leaf) (spkiFingerprint lib leaf) (of_h2 off) (w_broker w)")
    case True
    then have g: "of_tls off \<and> of_transport off \<and> of_h2 off \<and> tenantOf lib (spiffeID leaf) = br_tenant (w_broker w) \<and>
        al_Lookup (br_allow (w_broker w)) (spkiFingerprint lib leaf) \<noteq> None" by (simp add: admitted_def)
    show ?thesis unfolding accept_conn_def Some option.case h Let_def prod.case if_P [OF g]
      using handle_admitted [OF True h] c by (auto simp: same_rest_def fun_eq_iff)
  next
    case False
    then have g: "\<not> (of_tls off \<and> of_transport off \<and> of_h2 off \<and> tenantOf lib (spiffeID leaf) = br_tenant (w_broker w) \<and>
        al_Lookup (br_allow (w_broker w)) (spkiFingerprint lib leaf) \<noteq> None)" by (simp add: admitted_def)
    show ?thesis unfolding accept_conn_def Some option.case handle_refused [OF False] Let_def prod.case if_not_P [OF g]
      using c by simp
  qed
qed

text \<open>What the tower is taken for: an answer reaches the client only from a server whose certificate chains up to
  the own anchor through what the server itself sent, and carries the configured identity.\<close>

theorem control_server_is_pinned:
  assumes "control_post x i expectedServerID chain reply = Reply code body"
  shows "\<exists>raw raws leaf. chain = Some (raw # raws) \<and> xl_parse x raw = Inr leaf \<and>
    xl_verify x (id_CAPool i) (parsed x raws) AnyServer leaf = None \<and> spiffeID leaf = expectedServerID \<and>
    reply = Reply code body"
  using assms by (auto simp: control_post_def verify_control_def split: option.splits list.splits sum.splits if_splits)

section \<open>The signing key of desktop identities\<close>

text \<open>
  \<open>desktopIdentityKey\<close> of \<open>desktop_identity.go\<close>. A file is its kind, its permission bits, its size when it was
  looked at, and its content; the decoders of PEM and of the two key formats are arguments.
\<close>

record key_file =
  kf_Stat :: bool
  kf_Regular :: bool
  kf_Perm :: nat
  kf_Size :: int
  kf_Content :: "string res"

record 'k keylib =
  kl_pem :: "string \<Rightarrow> ((string \<times> string) \<times> string) option"
  kl_pkcs8 :: "string \<Rightarrow> 'k option"
  kl_pkcs1 :: "string \<Rightarrow> 'k option"
  kl_bits :: "'k \<Rightarrow> nat"
  kl_valid :: "'k \<Rightarrow> bool"

definition key_of_block :: "'k keylib \<Rightarrow> string \<times> string \<Rightarrow> 'k option" where
  "key_of_block kl block = (if fst block = ''PRIVATE KEY'' then kl_pkcs8 kl (snd block)
     else if fst block = ''RSA PRIVATE KEY'' then kl_pkcs1 kl (snd block) else None)"

definition desktopIdentityKey :: "'k keylib \<Rightarrow> key_file option \<Rightarrow> 'k res" where
  "desktopIdentityKey kl file = (case file of None \<Rightarrow> Inl (Errnew ''identity signer unavailable'')
    | Some f \<Rightarrow>
      (if \<not> kf_Stat f \<or> \<not> kf_Regular f \<or> kf_Perm f mod 64 \<noteq> 0 \<or> 16384 < kf_Size f
       then Inl (Errnew ''identity signing key must be a private regular file'')
       else case kf_Content f of Inl e \<Rightarrow> Inl (Errnew ''identity signer unavailable'')
       | Inr content \<Rightarrow>
         (case kl_pem kl (take 16385 content) of None \<Rightarrow> Inl (Errnew ''invalid identity signing key'')
          | Some (block, rest) \<Rightarrow>
            (if TrimSpace rest \<noteq> [] then Inl (Errnew ''invalid identity signing key'')
             else case key_of_block kl block of
               None \<Rightarrow> Inl (Errnew ''identity signer requires the installed RSA-2048 lab key'')
             | Some key \<Rightarrow> (if kl_bits kl key \<noteq> 2048 \<or> \<not> kl_valid kl key
                 then Inl (Errnew ''identity signer requires the installed RSA-2048 lab key'') else Inr key)))))"

text \<open>
  A key is used only from a regular file that nobody but its owner can read, write or run, and only if that
  file holds one PEM block and nothing else. A file that grew since it was looked at is cut.
\<close>

lemma identity_key_is_private:
  assumes "desktopIdentityKey kl file = Inr key"
  shows "\<exists>f content block rest. file = Some f \<and> kf_Regular f \<and> (\<forall>k < 6. \<not> bit (kf_Perm f) k) \<and> kf_Content f = Inr content \<and>
    kl_pem kl (take 16385 content) = Some (block, rest) \<and> TrimSpace rest = [] \<and> kl_bits kl key = 2048 \<and> kl_valid kl key"
proof -
  have "\<not> bit n k" if "n mod 64 = 0" "k < 6" for n k :: nat
    using that bit_take_bit_iff [of 6 n k] by (simp add: take_bit_eq_mod)
  then show ?thesis
    using assms by (auto simp: desktopIdentityKey_def split: option.splits sum.splits if_splits)
qed

section \<open>The model of the desktop service\<close>

text \<open>
  The start of \<open>newDesktopService\<close> of \<open>desktop.go\<close>: where the model that locates controls is, and the key for
  it. Without an address there is none.
\<close>

definition newDesktopService :: "(string \<Rightarrow> url option) \<Rightarrow> (string \<Rightarrow> string) \<Rightarrow> (string \<Rightarrow> string option) \<Rightarrow> (string \<times> string) res" where
  "newDesktopService parse getenv read =
     (let endpoint = TrimRightByte (CHR ''/'') (getenv ''XCONNECT_DESKTOP_NEXUS_URL'') in
      if endpoint = [] then Inr ([], [])
      else case parse endpoint of None \<Rightarrow> Inl (Errnew ''Nexus URL must be HTTPS'')
        | Some u \<Rightarrow>
          (if ur_Scheme u \<noteq> ''https'' \<or> ur_Host u = [] \<or> ur_User u then Inl (Errnew ''Nexus URL must be HTTPS'')
           else case read (getenv ''XCONNECT_DESKTOP_NEXUS_KEY_FILE'') of
               None \<Rightarrow> Inl (Errnew ''Nexus key file missing or invalid'')
             | Some key \<Rightarrow> (if length (TrimSpace key) < 24 then Inl (Errnew ''Nexus key file missing or invalid'')
                 else Inr (endpoint, TrimSpace key))))"

end
