(* ===== verification/ServeLoop.thy ===== *)
theory ServeLoop
  imports AdminApi Identity Shipping
begin

text \<open>
  \<open>main.go\<close>: the command line, and what \<open>serve\<close> keeps doing beside the requests: the heartbeat, the
  shipper of audit events, the fast poll for revocations, and the sweep for renewals of \<open>broker.go\<close>. One turn
  of a loop is one function; the time between two turns is not modelled.
\<close>

section \<open>The command line\<close>

definition envOr :: "(string \<Rightarrow> string) \<Rightarrow> string \<Rightarrow> string \<Rightarrow> string" where
  "envOr getenv key fallback = (if getenv key \<noteq> [] then getenv key else fallback)"

definition defaultRenewCheckInterval :: int where
  "defaultRenewCheckInterval = 3600 * 1000000000"

text \<open>The flags that are looked at before a command runs.\<close>

record flags =
  fl_renewBefore :: int
  fl_renewCheckInterval :: int
  fl_args :: "string list"

text \<open>
  What a command comes to: an end with a code and a message, the own identity, a document from the tower and
  perhaps an error, after which the process ends with 1, or the service.
\<close>

datatype command =
    Exit int string
  | PrintID string
  | Report string "jobj option" "goerror option"
  | Serve

definition main_command :: "xlib \<Rightarrow> golib \<Rightarrow> Identity res \<Rightarrow> (string \<Rightarrow> http_reply) \<Rightarrow> flags \<Rightarrow> command" where
  "main_command x lib identity post fl =
     (if fl_renewBefore fl \<le> 0 then Exit 1 ''--renew-before must be positive''
      else if fl_renewCheckInterval fl \<le> 0 \<or> fl_renewBefore fl \<le> fl_renewCheckInterval fl
      then Exit 1 ''--renew-check-interval must be positive and less than --renew-before''
      else case fl_args fl of [] \<Rightarrow> Exit 2 ''usage''
      | arg # rest \<Rightarrow>
        (case identity of Inl e \<Rightarrow> Exit 1 ''identity''
         | Inr i \<Rightarrow>
           (if arg = ''whoami'' then (case SpiffeID x i of Inl e \<Rightarrow> Exit 1 ''identity'' | Inr svid \<Rightarrow> PrintID svid)
            else if arg = ''control'' then
              (let sub = (case rest of [] \<Rightarrow> ''hello'' | s # ss \<Rightarrow> s) in
               if sub = ''hello'' then (let (out, e) = call lib ''/control/v1/hello'' (post ''/control/v1/hello'') in Report sub out e)
               else if sub = ''allowlist'' then
                 (let (out, e) = call lib ''/control/v1/allowlist'' (post ''/control/v1/allowlist'') in Report sub out e)
               else Exit 1 ''unknown control subcommand'')
            else if arg = ''serve'' then Serve else Exit 2 ''usage'')))"

section \<open>The start of the service\<close>

text \<open>An own identity that cannot be read leaves the tenant empty.\<close>

definition serve_broker :: "golib \<Rightarrow> xlib \<Rightarrow> Identity \<Rightarrow> flags \<Rightarrow> broker" where
  "serve_broker lib x i fl = \<lparr>br_tenant = expectedTenant lib x i, br_allow = NewAllowList, br_control = True,
     br_tunnels = [], br_versions = [], br_renewBefore = fl_renewBefore fl, br_lastRenew = [], br_renewing = [], br_closed = []\<rparr>"

text \<open>The list is fetched before the first node is let in; a failure is only a warning.\<close>

definition prime :: "server \<Rightarrow> string \<Rightarrow> 'a cworld_scheme \<Rightarrow> 'a cworld_scheme" where
  "prime sv tenant w =
     (let (reply, w) = tower (sv_env sv) ''/control/v1/allowlist'' [] w in
      case fetchAllowList (sv_lib sv) tenant reply of
        Inl e \<Rightarrow> w
      | Inr (t, nodes) \<Rightarrow> upd_broker (\<lambda>b. b\<lparr>br_allow := fst (al_Replace (now_of sv w) t nodes (br_allow b))\<rparr>) w)"

section \<open>The heartbeat\<close>

definition drain_calls :: "'a cworld_scheme \<Rightarrow> callEvent list \<times> 'a cworld_scheme" where
  "drain_calls w = (case cw_calls w of None \<Rightarrow> ([], w)
     | Some c \<Rightarrow> (let (batch, c) = cl_Drain c in (batch, w\<lparr>cw_calls := Some c\<rparr>)))"

definition requeue_calls :: "callEvent list \<Rightarrow> 'a cworld_scheme \<Rightarrow> 'a cworld_scheme" where
  "requeue_calls batch w = w\<lparr>cw_calls := map_option (cl_Requeue batch) (cw_calls w)\<rparr>"

text \<open>
  One beat. A list that is not taken (of another tenant) leaves the old one, which is enforced again. The
  result names the nodes for each of which a goroutine runs \<open>forceUpdate\<close>.
\<close>

definition heartbeat :: "server \<Rightarrow> string \<Rightarrow> string \<Rightarrow> 'a cworld_scheme \<Rightarrow> string list \<times> 'a cworld_scheme" where
  "heartbeat sv tenant instanceID w =
     (let (reply, w) = tower (sv_env sv) ''/control/v1/allowlist'' [] w in
      case fetchAllowList (sv_lib sv) tenant reply of
        Inl e \<Rightarrow> ([], w)
      | Inr (t, nodes) \<Rightarrow>
        (let w = upd_broker (\<lambda>b. b\<lparr>br_allow := fst (al_Replace (now_of sv w) t nodes (br_allow b))\<rparr>) w;
             w = upd_broker reconcile w;
             live = LiveTunnels (w_broker w);
             (batch, w) = drain_calls w;
             (reply, w) = tower (sv_env sv) ''/control/v1/report'' (report_body instanceID live batch) w
         in case reportTunnels (sv_lib sv) reply of
              Inl e \<Rightarrow> ([], requeue_calls batch w)
            | Inr nudges \<Rightarrow> (nudges, w)))"

section \<open>The shipper\<close>

definition calllog_body :: "string \<Rightarrow> callEvent list \<Rightarrow> jobj" where
  "calllog_body instanceID calls =
     [(''calls'', JArr (map (\<lambda>e. JObj (event_json e)) calls)), (''instance_id'', JStr instanceID)]"

definition ship_round :: "server \<Rightarrow> string \<Rightarrow> 'a cworld_scheme \<Rightarrow> 'a cworld_scheme" where
  "ship_round sv instanceID w =
     (let (batch, w) = drain_calls w in
      if batch = [] then w
      else let (reply, w) = tower (sv_env sv) ''/control/v1/calllog'' (calllog_body instanceID batch) w
        in case shipCalls (sv_lib sv) batch reply of None \<Rightarrow> w | Some e \<Rightarrow> requeue_calls batch w)"

section \<open>The poll for revocations\<close>

text \<open>The last count, -1 before the first, and the failures in a row, which are only printed.\<close>

definition revocation_poll :: "golib \<Rightarrow> env \<Rightarrow> string \<Rightarrow> int \<times> nat \<Rightarrow> 'a world_scheme \<Rightarrow> (int \<times> nat) \<times> 'a world_scheme" where
  "revocation_poll lib env tenant st w =
     (case st of (latest, fails) \<Rightarrow>
        let (reply, w) = tower env ''/control/v1/revstate'' [] w in
        case revCount lib reply of
          Inl e \<Rightarrow> ((latest, fails + 1), w)
        | Inr n \<Rightarrow> ((n, 0), if 0 \<le> latest \<and> latest < n then snd (refreshAndReconcile lib env tenant w) else w))"

section \<open>The sweep for renewals\<close>

definition sweep_interval :: "int \<Rightarrow> int" where
  "sweep_interval i = (if i \<le> 0 then defaultRenewCheckInterval else i)"

definition renewSweep :: "broker \<Rightarrow> task list" where
  "renewSweep b = map (\<lambda>(svid, _). RenewIfDue svid) (br_tunnels b)"

text \<open>What a goroutine that was left behind does, but for the watcher, which goes on ticking.\<close>

fun run_task :: "golib \<Rightarrow> env \<Rightarrow> task \<Rightarrow> 'a world_scheme \<Rightarrow> 'a world_scheme" where
  "run_task lib env (RenewIfDue svid) w = renewIfDue lib env svid w"
| "run_task lib env (MaybeUpdate svid summary) w = maybeUpdate lib env svid summary w"
| "run_task lib env (WatchTunnel svid cc) w = w"

section \<open>Lemmas\<close>

lemma drain_calls_simps [simp]:
  "w_broker (snd (drain_calls w)) = w_broker w" "w_io (snd (drain_calls w)) = w_io w"
  by (auto simp: drain_calls_def split: option.splits prod.splits)

lemma requeue_calls_simps [simp]:
  "w_broker (requeue_calls batch w) = w_broker w" "w_io (requeue_calls batch w) = w_io w"
  by (simp_all add: requeue_calls_def)

lemma tower_world: "tower env m q w = (e_tower env (w_io w) m q, w\<lparr>w_io := w_io w @ [TowerCall m q]\<rparr>)"
  by (simp add: tower_def)

text \<open>Draining, and putting back when the shipment is refused, is a round of the abstract shipper.\<close>

lemma drained_calls:
  "cw_calls (snd (drain_calls w)) = map_option (\<lambda>c. snd (cl_Drain c)) (cw_calls w)"
  "fst (drain_calls w) = (case cw_calls w of None \<Rightarrow> [] | Some c \<Rightarrow> cl_buf c)"
  by (auto simp: drain_calls_def cl_Drain_def split: option.splits)

lemma al_Replace_Loaded: "t \<noteq> [] \<Longrightarrow> al_Loaded (fst (al_Replace now t nodes a))"
  by (auto simp: al_Replace_def al_Loaded_def)

lemma LiveTunnels_svid: "t \<in> set (LiveTunnels b) \<Longrightarrow> \<exists>s \<in> fst ` set (br_tunnels b). hd t = (''svid'', JStr s)"
  by (force simp: LiveTunnels_def)

section \<open>Properties\<close>

text \<open>What enforcing a list leaves.\<close>

lemma reconcile_listed:
  assumes "al_Loaded (br_allow b)" and "b' = reconcile b"
  shows "br_tunnels b' = filter (\<lambda>p. fst p \<in> listed b') (br_tunnels b)"
    "br_closed b' = br_closed b @ map snd (filter (\<lambda>p. fst p \<notin> listed b') (br_tunnels b))"
    "list_all (\<lambda>t. \<exists>s \<in> listed b'. hd t = (''svid'', JStr s)) (LiveTunnels b')"
proof -
  have l: "listed b' = listed b" using reconcile_eq [of b] assms by (simp add: Let_def listed_def)
  show t: "br_tunnels b' = filter (\<lambda>p. fst p \<in> listed b') (br_tunnels b)"
    and "br_closed b' = br_closed b @ map snd (filter (\<lambda>p. fst p \<notin> listed b') (br_tunnels b))"
    using reconcile_eq [of b] assms(1) unfolding l by (simp_all add: Let_def assms(2))
  show "list_all (\<lambda>t. \<exists>s \<in> listed b'. hd t = (''svid'', JStr s)) (LiveTunnels b')"
    using LiveTunnels_svid [of _ b'] by (fastforce simp: list_all_iff t)
qed

text \<open>A beat that is given a list: what is called, what is kept, and what becomes of the audit buffer.\<close>

lemma heartbeat_listed:
  fixes sv :: server and inst :: string and w :: "'a cworld_scheme"
  defines "io1 \<equiv> w_io w @ [TowerCall ''/control/v1/allowlist'' []]"
  assumes "fetchAllowList (sv_lib sv) tenant (e_tower (sv_env sv) (w_io w) ''/control/v1/allowlist'' []) = Inr (t, nodes)"
    and b1: "b1 = reconcile ((w_broker w)\<lparr>br_allow := fst (al_Replace (e_now (sv_env sv) io1) t nodes (br_allow (w_broker w)))\<rparr>)"
    and report: "report = report_body inst (LiveTunnels b1) (case cw_calls w of None \<Rightarrow> [] | Some c \<Rightarrow> cl_buf c)"
    and ans: "ans = reportTunnels (sv_lib sv) (e_tower (sv_env sv) io1 ''/control/v1/report'' report)"
    and beat: "heartbeat sv tenant inst w = (nudges, w')"
  shows "nudges = (case ans of Inl e \<Rightarrow> [] | Inr ns \<Rightarrow> ns) \<and> w_broker w' = b1 \<and>
    w_io w' = io1 @ [TowerCall ''/control/v1/report'' report] \<and>
    cw_calls w' = map_option (\<lambda>c. snd (heartbeat_ship (\<lambda>_. ok_res ans) c)) (cw_calls w)"
proof -
  define w2 where "w2 = w\<lparr>w_io := io1, w_broker := b1\<rparr>"
  obtain wd where d: "drain_calls w2 = (case cw_calls w of None \<Rightarrow> [] | Some c \<Rightarrow> cl_buf c, wd)"
    using drained_calls(2) [of w2] by (cases "drain_calls w2") (simp add: w2_def)
  have wd: "w_io wd = io1" "w_broker wd = b1" "cw_calls wd = map_option (\<lambda>c. snd (cl_Drain c)) (cw_calls w)"
    using drain_calls_simps [of w2] drained_calls(1) [of w2] unfolding d by (simp_all add: w2_def)
  have u: "upd_broker reconcile (upd_broker (\<lambda>b. b\<lparr>br_allow := fst (al_Replace (now_of sv (w\<lparr>w_io := io1\<rparr>)) t nodes (br_allow b))\<rparr>)
      (w\<lparr>w_io := io1\<rparr>)) = w2" "w_broker w2 = b1" by (simp_all add: upd_broker_def now_of_def w2_def b1)
  have "heartbeat sv tenant inst w = (case ans of
      Inl e \<Rightarrow> ([], requeue_calls (case cw_calls w of None \<Rightarrow> [] | Some c \<Rightarrow> cl_buf c) (wd\<lparr>w_io := io1 @ [TowerCall ''/control/v1/report'' report]\<rparr>))
    | Inr ns \<Rightarrow> (ns, wd\<lparr>w_io := io1 @ [TowerCall ''/control/v1/report'' report]\<rparr>))"
    using assms(2) wd(1,2) unfolding heartbeat_def tower_world Let_def prod.case io1_def [symmetric]
    by (simp only: sum.case prod.case u d wd report [symmetric] ans [symmetric])
  then show ?thesis
    using beat wd by (cases ans; cases "cw_calls w") (auto simp: requeue_calls_def heartbeat_ship_def cl_Drain_def)
qed

text \<open>C4: A beat enforces the list and ships the audit events: when the tower gives a list, every tunnel that is
  not on the list now kept is closed and forgotten before the report is written, so the report shows only
  listed nodes; the report carries the whole audit buffer, which is then empty or, when the tower refuses
  the report, put back as a round of the abstract shipper does; and only the nodes the tower asks for are
  nudged. Without a list nothing is enforced, reported or drained.\<close>

theorem heartbeat_enforces_and_ships:
  "let (nudges, w') = heartbeat sv tenant inst w; b = w_broker w; b' = w_broker w' in
   case fetchAllowList (sv_lib sv) tenant (e_tower (sv_env sv) (w_io w) ''/control/v1/allowlist'' []) of
     Inl e \<Rightarrow> nudges = [] \<and> w' = w\<lparr>w_io := w_io w @ [TowerCall ''/control/v1/allowlist'' []]\<rparr>
   | Inr (t, nodes) \<Rightarrow>
      br_tunnels b' = filter (\<lambda>p. fst p \<in> listed b') (br_tunnels b) \<and>
      br_closed b' = br_closed b @ map snd (filter (\<lambda>p. fst p \<notin> listed b') (br_tunnels b)) \<and>
      list_all (\<lambda>t. \<exists>s \<in> listed b'. hd t = (''svid'', JStr s)) (LiveTunnels b') \<and>
      (\<exists>io1 report answer.
        io1 = w_io w @ [TowerCall ''/control/v1/allowlist'' []] \<and>
        report = report_body inst (LiveTunnels b') (case cw_calls w of None \<Rightarrow> [] | Some c \<Rightarrow> cl_buf c) \<and>
        w_io w' = io1 @ [TowerCall ''/control/v1/report'' report] \<and>
        answer = reportTunnels (sv_lib sv) (e_tower (sv_env sv) io1 ''/control/v1/report'' report) \<and>
        nudges = (case answer of Inl e \<Rightarrow> [] | Inr ns \<Rightarrow> ns) \<and>
        cw_calls w' = map_option (\<lambda>c. snd (heartbeat_ship (\<lambda>_. ok_res answer) c)) (cw_calls w))"
proof (cases "fetchAllowList (sv_lib sv) tenant (e_tower (sv_env sv) (w_io w) ''/control/v1/allowlist'' [])")
  case (Inl e)
  then show ?thesis by (simp add: heartbeat_def tower_world Let_def)
next
  case (Inr tn)
  obtain t nodes where tn: "tn = (t, nodes)" by fastforce
  obtain nudges w' where h: "heartbeat sv tenant inst w = (nudges, w')" by fastforce
  define b0 where "b0 = (w_broker w)\<lparr>br_allow := fst (al_Replace (e_now (sv_env sv)
    (w_io w @ [TowerCall ''/control/v1/allowlist'' []])) t nodes (br_allow (w_broker w)))\<rparr>"
  have tn0: "t \<noteq> []" using fetchAllowList_Inr [OF Inr [unfolded tn]] .
  have l: "al_Loaded (br_allow b0)"
    unfolding b0_def by (simp add: al_Replace_Loaded [OF tn0])
  have b0: "br_tunnels b0 = br_tunnels (w_broker w)" "br_closed b0 = br_closed (w_broker w)" by (simp_all add: b0_def)
  note c = heartbeat_listed [OF Inr [unfolded tn] refl refl refl h, folded b0_def]
  show ?thesis unfolding Inr tn sum.case h Let_def prod.case
    using c reconcile_listed [OF l refl] unfolding b0 by auto
qed

text \<open>
  A run of \<open>k\<close> polls from a state, with the answers they read.
\<close>

fun polls :: "golib \<Rightarrow> env \<Rightarrow> string \<Rightarrow> nat \<Rightarrow> int \<times> nat \<Rightarrow> 'a world_scheme \<Rightarrow> int res list \<times> (int \<times> nat) \<times> 'a world_scheme" where
  "polls lib env tenant 0 st w = ([], st, w)"
| "polls lib env tenant (Suc k) st w =
     (let answer = revCount lib (fst (tower env ''/control/v1/revstate'' [] w));
          (st', w') = revocation_poll lib env tenant st w;
          (answers, st'', w'') = polls lib env tenant k st' w'
      in (answer # answers, st'', w''))"

fun is_call :: "string \<Rightarrow> io \<Rightarrow> bool" where
  "is_call m (TowerCall m' q) \<longleftrightarrow> m = m'"
| "is_call m _ \<longleftrightarrow> False"

text \<open>The counts that were read, and how often a count is above the one before; the first one never is.\<close>

fun counts :: "int res list \<Rightarrow> int list" where
  "counts [] = []"
| "counts (Inl e # as) = counts as"
| "counts (Inr n # as) = n # counts as"

fun climbs :: "int list \<Rightarrow> nat" where
  "climbs (m # n # ns) = (if 0 \<le> m \<and> m < n then 1 else 0) + climbs (n # ns)"
| "climbs _ = 0"

lemma counts_Nil: "counts as = [] \<longleftrightarrow> (\<forall>a \<in> set as. \<not> ok_res a)"
  by (induction as rule: counts.induct) auto

lemma reconcile_control: "br_control (reconcile b) = br_control b"
  using reconcile_eq [of b] unfolding Let_def by (cases "al_Loaded (br_allow b)") (simp_all only: if_True if_False)

lemma refresh_calls:
  assumes "br_control (w_broker w)" and "refreshAndReconcile lib env tenant w = (r, w')"
  shows "w_io w' = w_io w @ [TowerCall ''/control/v1/allowlist'' []] \<and> br_control (w_broker w')"
  using assms by (auto simp: refreshAndReconcile_def tower_def reconcile_control split: prod.splits sum.splits bool.splits if_splits)

lemma polls_calls:
  "polls lib env tenant k (m, f) w = (as, (m', f'), w') \<Longrightarrow> br_control (w_broker w) \<Longrightarrow>
     \<exists>new. w_io w' = w_io w @ new \<and> length as = k \<and> length (filter (is_call ''/control/v1/revstate'') new) = k \<and>
       length (filter (is_call ''/control/v1/allowlist'') new) = climbs (m # counts as) \<and>
       m' = last (m # counts as) \<and> f' = (if counts as = [] then f else 0) + length (takeWhile (\<lambda>a. \<not> ok_res a) (rev as))"
proof (induction k arbitrary: m f w as)
  case (Suc k)
  let ?r = "revCount lib (e_tower env (w_io w) ''/control/v1/revstate'' [])"
  obtain m1 f1 w1 where p: "revocation_poll lib env tenant (m, f) w = ((m1, f1), w1)" using prod_cases3 by (metis prod.collapse)
  obtain as1 where a: "polls lib env tenant k (m1, f1) w1 = (as1, (m', f'), w')" "as = ?r # as1"
    using Suc.prems(1) by (auto simp: tower_world p split: prod.splits)
  define v where "v = w\<lparr>w_io := w_io w @ [TowerCall ''/control/v1/revstate'' []]\<rparr>"
  have s: "w_io w1 = w_io w @ TowerCall ''/control/v1/revstate'' [] #
        (case ?r of Inl e \<Rightarrow> [] | Inr n \<Rightarrow> if 0 \<le> m \<and> m < n then [TowerCall ''/control/v1/allowlist'' []] else []) \<and>
      br_control (w_broker w1) \<and> m1 = (case ?r of Inl e \<Rightarrow> m | Inr n \<Rightarrow> n) \<and> f1 = (case ?r of Inl e \<Rightarrow> f + 1 | Inr n \<Rightarrow> 0)"
    using p refresh_calls [of v lib env tenant] Suc.prems(2)
    by (cases "refreshAndReconcile lib env tenant v")
      (auto simp: revocation_poll_def tower_world v_def [symmetric] split: sum.splits if_splits, auto simp: v_def)
  obtain new where n: "w_io w' = w_io w1 @ new" "length as1 = k" "length (filter (is_call ''/control/v1/revstate'') new) = k"
      "length (filter (is_call ''/control/v1/allowlist'') new) = climbs (m1 # counts as1)" "m' = last (m1 # counts as1)"
      "f' = (if counts as1 = [] then f1 else 0) + length (takeWhile (\<lambda>a. \<not> ok_res a) (rev as1))"
    using Suc.IH [OF a(1)] s by blast
  have t: "length (takeWhile (\<lambda>a. \<not> ok_res a) (rev as)) = (if counts as1 = [] then length as1 + (if ok_res ?r then 0 else 1)
      else length (takeWhile (\<lambda>a. \<not> ok_res a) (rev as1)))"
    using counts_Nil [of as1] unfolding a(2) by (auto simp: takeWhile_append)
  have e: "length (takeWhile (\<lambda>a. \<not> ok_res a) (rev as1)) = length as1" if "counts as1 = []"
    using that counts_Nil [of as1] by (metis length_rev set_rev takeWhile_eq_all_conv)
  show ?case using n s e unfolding t unfolding a(2)
    by (cases ?r) (auto simp del: takeWhile_eq_all_conv)
qed simp


section \<open>At work\<close>

text \<open>A tower that has revoked one node more at every poll, and refuses to give the list.\<close>

definition ex_poll_lib :: golib where
  "ex_poll_lib = ex_control_lib\<lparr>gl_unmarshal := (\<lambda>s. if s = ''1'' then Some (JObj [(''revoked'', JInt 1)])
     else if s = ''2'' then Some (JObj [(''revoked'', JInt 2)]) else None)\<rparr>"

definition ex_poll_env :: env where
  "ex_poll_env = \<lparr>e_tower = (\<lambda>io m _. if m = ''/control/v1/revstate'' then Reply 200 (if io = [] then ''1'' else ''2'') else NetError ''down''),
     e_node = (\<lambda>_ _ _ _ _. NetError ''none''), e_now = (\<lambda>io. 0)\<rparr>"


end
