(* ===== verification/Routes.thy ===== *)
theory Routes
  imports DesktopLease CallerReads Bootstrap
begin

text \<open>
  The web service the agents call, as a whole: \<open>Caller.Serve\<close> of \<open>caller.go\<close>. A request is routed by method
  and path to one handler, all over one world. Then the service of the nodes without identity, in the same way.
\<close>

section \<open>The routes\<close>

datatype route =
    Desktop string
  | Verb string string
  | OutputRead
  | Whoami
  | Hosts
  | FileVerb string string
  | Knowledge bool

definition desktop_ops :: "string list" where
  "desktop_ops = [''status'', ''login'', ''observe'', ''frame'', ''find'', ''act'', ''task'', ''interact'',
     ''attach_console'', ''wait'', ''launch'', ''recover'', ''lock'']"

definition routes :: "bool \<Rightarrow> ((string \<times> string) \<times> route) list" where
  "routes desktop =
     (if desktop then map (\<lambda>op. ((''POST'', ''/v1/desktop/'' @ op), Desktop op)) desktop_ops else []) @
     [((''POST'', ''/v1/run''), Verb ''run'' ''/run''), ((''POST'', ''/v1/jobs''), Verb ''run'' ''/jobs''),
      ((''POST'', ''/v1/output/read''), OutputRead), ((''GET'', ''/v1/whoami''), Whoami), ((''POST'', ''/v1/whoami''), Whoami),
      ((''GET'', ''/v1/hosts''), Hosts), ((''POST'', ''/v1/read''), FileVerb ''read'' ''/read''),
      ((''POST'', ''/v1/edit''), FileVerb ''full'' ''/edit''), ((''POST'', ''/v1/write''), FileVerb ''full'' ''/write''),
      ((''POST'', ''/v1/knowledge/search''), Knowledge False), ((''POST'', ''/v1/knowledge/append''), Knowledge True)]"

text \<open>
  What a handler does: its answer, \<open>None\<close> after a panic, and the world; \<open>None\<close> for the whole when it does
  not return. \<open>err\<close> is the error of the context of the request after some calls.
\<close>

fun run_route :: "dserver \<Rightarrow> route \<Rightarrow> (io list \<Rightarrow> goerror option) \<Rightarrow> request \<Rightarrow> dworld \<Rightarrow> (response option \<times> dworld) option" where
  "run_route ds (Desktop op) err r w = Some (desktopHandler ds op err r w)"
| "run_route ds (Verb verb path) err r w = map_option (apfst Some) (verbHandler (ds_server ds) verb path r w)"
| "run_route ds OutputRead err r w = Some (apfst Some (outputReadHandler (ds_server ds) r w))"
| "run_route ds Whoami err r w = Some (apfst Some (whoamiHandler (ds_server ds) r w))"
| "run_route ds Hosts err r w = Some (apfst Some (hostsHandler (ds_server ds) r w))"
| "run_route ds (FileVerb verb path) err r w = Some (apfst Some (fileVerbHandler (ds_server ds) verb path r w))"
| "run_route ds (Knowledge write) err r w = Some (apfst Some (knowledgeHandler (ds_server ds) write r w))"

text \<open>
  A method and a path that are not registered are answered by \<open>net/http\<close>, here with the status alone. A \<open>HEAD\<close>
  goes where \<open>GET\<close> goes, and its answer loses its body. Paths are clean: \<open>net/http\<close> redirects the others.
\<close>

definition mux_key :: "string \<Rightarrow> string \<Rightarrow> string \<times> string" where
  "mux_key meth path = (if meth = ''HEAD'' then ''GET'' else meth, path)"

definition unrouted :: "((string \<times> string) \<times> 'r) list \<Rightarrow> string \<Rightarrow> response" where
  "unrouted table path = \<lparr>rs_code = (if path \<in> snd ` fst ` set table then 405 else 404), rs_body = None\<rparr>"

text \<open>The bodies of the requests are cut at 4 MiB.\<close>

definition serve_caller :: "dserver \<Rightarrow> bool \<Rightarrow> string \<Rightarrow> string \<Rightarrow> (io list \<Rightarrow> goerror option) \<Rightarrow> request \<Rightarrow> dworld \<Rightarrow>
    (response option \<times> dworld) option" where
  "serve_caller ds desktop meth path err r w = (case map_of (routes desktop) (mux_key meth path) of
      None \<Rightarrow> Some (Some (unrouted (routes desktop) path), w)
    | Some rt \<Rightarrow> run_route ds rt err (r\<lparr>rq_body := limitBody (rq_body r)\<rparr>) w)"

text \<open>The door of the nodes without identity, \<open>Bootstrap.Serve\<close> of \<open>bootstrap.go\<close>: \<open>host\<close> is the host of the request.\<close>

datatype boot_route = Enroll | Cert | Binary | InstallScript

definition boot_routes :: "((string \<times> string) \<times> boot_route) list" where
  "boot_routes = [((''POST'', ''/bootstrap/enroll''), Enroll), ((''GET'', ''/bootstrap/cert''), Cert),
     ((''GET'', ''/bootstrap/binary''), Binary), ((''GET'', ''/bootstrap/install.sh''), InstallScript)]"

definition serve_bootstrap :: "bootstrap \<Rightarrow> string \<Rightarrow> string \<Rightarrow> (string \<Rightarrow> string) \<Rightarrow> string \<Rightarrow> string \<Rightarrow>
    'a world_scheme \<Rightarrow> boot_response \<times> 'a world_scheme" where
  "serve_bootstrap bs meth path query host body w = (case map_of boot_routes (mux_key meth path) of
      None \<Rightarrow> (BootJSON (unrouted boot_routes path), w)
    | Some Enroll \<Rightarrow> apfst BootJSON (enroll bs body w)
    | Some Cert \<Rightarrow> apfst BootJSON (cert bs query w)
    | Some Binary \<Rightarrow> (binary bs query, w)
    | Some InstallScript \<Rightarrow> (installScript bs host, w))"

text \<open>
  Whatever comes through that door, at most one call is made, to the tower, to sign an enrollment or to ask for
  the state of one; no node is called, no tunnel and no store changes.
\<close>

theorem bootstrap_only_relays:
  "\<exists>new. snd (serve_bootstrap bs meth path query host body w) = w\<lparr>w_io := w_io w @ new\<rparr> \<and>
     (new = [] \<or> (\<exists>q. new = [TowerCall ''/control/v1/sign'' (enroll_body q)]) \<or>
      new = [TowerCall ''/control/v1/enroll_status'' [(''enrollment_id'', JStr (query ''id''))]])"
proof -
  have e: "\<exists>new. snd (enroll bs body w) = w\<lparr>w_io := w_io w @ new\<rparr> \<and>
      (new = [] \<or> (\<exists>q. new = [TowerCall ''/control/v1/sign'' (enroll_body q)]))"
    using enrollment_is_relayed_once [of bs body w] by (cases "enroll bs body w") (fastforce intro: exI [of _ "[]"])
  have c: "\<exists>new. snd (cert bs query w) = w\<lparr>w_io := w_io w @ new\<rparr> \<and>
      (new = [] \<or> new = [TowerCall ''/control/v1/enroll_status'' [(''enrollment_id'', JStr (query ''id''))]])"
    by (cases "query ''id'' = []")
      (auto simp: cert_def tower_def split: prod.split option.split intro: exI [of _ "[]"])
  have "snd (serve_bootstrap bs meth path query host body w) \<in> {snd (enroll bs body w), snd (cert bs query w), w\<lparr>w_io := w_io w @ []\<rparr>}"
    by (simp add: serve_bootstrap_def split: option.split boot_route.split)
  then show ?thesis using e c by (elim insertE emptyE) (simp only:, blast)+
qed

section \<open>Every route asks who it is\<close>

lemma run_route_refused:
  "auth (sv_validate (ds_server ds)) (rq_auth r) = Inl e \<Longrightarrow>
     \<exists>resp. run_route ds rt err r w = Some (Some resp, w) \<and> rs_code resp = 401"
  by (cases rt) (simp_all add: desktopHandler_def verbHandler_def outputReadHandler_def whoamiHandler_def hostsHandler_def
      fileVerbHandler_def knowledgeHandler_def reply_err_def answer_def)

text \<open>C2: Nothing is done for a stranger: a request that comes without a bearer token that validates is answered by
  401, or by 404 or 405 where no handler is, whatever its method, path and body, with or without the desktop
  service; no node and no tower is called, nothing is stored or recorded, and no identifier is drawn.\<close>

theorem nothing_for_strangers:
  assumes "auth (sv_validate (ds_server ds)) (rq_auth r) = Inl e"
  shows "\<exists>resp. serve_caller ds desktop meth path err r w = Some (Some resp, w) \<and> rs_code resp \<in> {401, 404, 405}"
proof (cases "map_of (routes desktop) (mux_key meth path)")
  case None
  then show ?thesis by (simp add: serve_caller_def unrouted_def)
next
  case (Some rt)
  then show ?thesis using run_route_refused [of ds "r\<lparr>rq_body := limitBody (rq_body r)\<rparr>" e rt err w] assms
    by (auto simp: serve_caller_def)
qed

theorem nothing_for_strangers_witness:
  "\<exists>resp. serve_caller ex_desktop_server True ''POST'' ''/v1/desktop/act'' (\<lambda>_. None) (ex_request ''{}''\<lparr>rq_auth := ''Basic x''\<rparr>) ex_dworld =
     Some (Some resp, ex_dworld) \<and> rs_code resp \<in> {401, 404, 405}"
proof (rule nothing_for_strangers)
  show "auth (sv_validate (ds_server ex_desktop_server)) (rq_auth (ex_request ''{}''\<lparr>rq_auth := ''Basic x''\<rparr>)) =
      Inl (Errnew ''missing bearer token'')"
    by (simp add: auth_def HasPrefix_def bearer_def)
qed

end
