(* ===== verification/Service.thy ===== *)
theory Service
  imports Routes ServeLoop
begin

text \<open>
  The service as one machine: every request, connection, tick, beat, poll, sweep, shipment and order of the
  operator is a step on one world, in any order and with any answers of the tower, the nodes and the clock.
\<close>

section \<open>What a handler keeps\<close>

text \<open>
  A handler takes tunnels away at most, keeps the stores in order, and leaves everything beyond the world of
  the callers, the desktop service, as it is.
\<close>

definition kept :: "'a cworld_scheme \<Rightarrow> 'a cworld_scheme \<Rightarrow> bool" where
  "kept w w' \<longleftrightarrow> shrinks (w_broker w) (w_broker w') \<and> (stores_ok w \<longrightarrow> stores_ok w') \<and> cworld.more w' = cworld.more w"

lemma kept_refl [simp]: "kept w w"
  by (simp add: kept_def)

lemma kept_trans: "kept u v \<Longrightarrow> kept v w \<Longrightarrow> kept u w"
  by (auto simp: kept_def intro: shrinks_trans)

lemma kept_simps [simp]:
  "kept u (w\<lparr>w_io := x\<rparr>) = kept u w" "kept u (w\<lparr>cw_ids := n\<rparr>) = kept u w" "kept u (w\<lparr>cw_draws := d\<rparr>) = kept u w"
  "kept u (w\<lparr>cw_ids := n, cw_caps := s\<rparr>) = kept u (w\<lparr>cw_caps := s\<rparr>)"
  "kept u (record_ev e w) = kept u w" "kept u (recordStart e w) = kept u w"
  by (simp_all add: kept_def record_ev_def recordStart_def)

lemma kept_tower: "tower env m q w = (r, w') \<Longrightarrow> kept u w \<Longrightarrow> kept u w'"
  by (auto simp: tower_def)

lemma kept_inject:
  assumes "injectResponseContext env c svid m p b w = (r, w')" and "kept u w"
  shows "kept u w'"
proof -
  have "shrinks (w_broker w) (w_broker w')" using shrinks_context [of w env c svid m p b] assms(1) by simp
  moreover have "cw_caps w' = cw_caps w" "cw_calls w' = cw_calls w" "cworld.more w' = cworld.more w"
    using assms(1) by (auto simp: injectResponseContext_def upd_broker_def Let_def split: option.splits http_reply.splits if_splits)
  ultimately have "kept w w'" by (simp add: kept_def)
  with assms(2) show ?thesis by (rule kept_trans)
qed

lemma kept_InjectResponse: "InjectResponse env svid m p b w = (r, w') \<Longrightarrow> kept u w \<Longrightarrow> kept u w'"
  unfolding InjectResponse_def by (rule kept_inject)

lemma kept_Inject: "Inject env svid m p b w = (r, w') \<Longrightarrow> kept u w \<Longrightarrow> kept u w'"
  by (auto simp: Inject_def split: prod.splits sum.splits intro: kept_InjectResponse)

lemma kept_caps:
  assumes "kept u w" and "cs_inv (cw_caps w) \<Longrightarrow> cs_quotas (cw_caps w) \<Longrightarrow> cs_inv s \<and> cs_quotas s"
  shows "kept u (w\<lparr>cw_caps := s\<rparr>)"
  using assms by (auto simp: kept_def)

lemma prepareRunResult_keeps:
  assumes "prepareRunResult lib now draws p svid verb rid got force caps = Some (prepared, caps', draws')"
    and "cs_inv caps" and "cs_quotas caps"
  shows "cs_inv caps' \<and> cs_quotas caps'"
  using assms(1,2,3) cs_Put_keeps [OF assms(2)]
  by (auto simp: prepareRunResult_def Let_def split: if_splits option.splits prod.splits sum.splits)

lemma kept_perimeter: "perimeter sv p verb node ev w = (x, ev', w') \<Longrightarrow> kept u w \<Longrightarrow> kept u w'"
  by (auto simp: perimeter_def tower_def Let_def split: sum.splits prod.splits if_splits)

lemma kept_run_call:
  assumes "run_call sv p verb path r body svid ev w = Some (resp, ev', w')" and "kept u w"
  shows "kept u w'"
proof -
  define pay where "pay = (if rr_Cmd body \<noteq> []
    then Some (run_payload (sv_print sv) (rr_Cmd body) (ev_RequestID ev)) else None)"
  obtain result w2 where i: "InjectResponse (sv_env sv) svid ''POST'' path pay (recordStart ev w) = (result, w2)" by fastforce
  have 2: "kept u w2" using kept_InjectResponse [OF i] assms(2) by simp
  show ?thesis
  proof (cases result)
    case (Inl e)
    then show ?thesis using assms(1) 2 by (auto simp: run_call_def pay_def [symmetric] i)
  next
    case (Inr got)
    obtain prepared caps draws where q: "(if path \<noteq> ''/run'' then Some (Inr (ir_Summary got), cw_caps w2, cw_draws w2)
        else prepareRunResult (sv_lib sv) (now_of sv w2) (cw_draws w2) p svid verb (ev_RequestID ev) got (rr_Capture body) (cw_caps w2)) =
        Some (prepared, caps, draws)" "w' = w2\<lparr>cw_caps := caps, cw_draws := draws\<rparr>"
      using assms(1) by (auto simp: run_call_def pay_def [symmetric] i Inr Let_def split: option.splits sum.splits if_splits)
    have "kept u (w2\<lparr>cw_caps := caps\<rparr>)"
      using q(1) prepareRunResult_keeps by (intro kept_caps [OF 2]) (auto split: if_splits)
    then show ?thesis unfolding q(2) by simp
  qed
qed

lemma kept_verb:
  assumes "verbHandler sv verb path r w = Some (resp, w')"
  shows "kept w w'"
  using assms
  by (auto simp: verbHandler_def verb_body_def call_event_def newID_def Let_def
      split: sum.splits option.splits prod.splits if_splits dest!: kept_perimeter [where u = w] kept_run_call [where u = w])

lemma kept_file_call:
  assumes "file_call sv p path r body svid ev w = (resp, ev', w')" and "kept u w"
  shows "kept u w'"
  using assms
  by (auto simp: file_call_def Let_def split: if_splits prod.splits sum.splits dest!: kept_Inject [where u = u])

lemma kept_file:
  assumes "fileVerbHandler sv verb path r w = (resp, w')"
  shows "kept w w'"
  using assms
  by (auto simp: fileVerbHandler_def file_body_def call_event_def newID_def Let_def
      split: sum.splits option.splits prod.splits json.splits if_splits
      dest!: kept_perimeter [where u = w] kept_file_call [where u = w])

lemma kept_output:
  assumes "outputReadHandler sv r w = (resp, w')"
  shows "kept w w'"
proof -
  have g: "kept w (w1\<lparr>cw_caps := s\<rparr>)" if "cs_Get now i owner (cw_caps w1) = (c, s)" "kept w w1" for now i owner c s and w1 :: "'a cworld_scheme"
    using that cs_Get_keeps [of "cw_caps w1" now i owner] by (intro kept_caps) auto
  show ?thesis
    using assms
    by (auto simp: outputReadHandler_def output_body_def call_event_def newID_def tower_def Let_def
        split: sum.splits option.splits prod.splits if_splits dest!: g)
qed

lemma kept_knowledge:
  assumes "knowledgeHandler sv write r w = (resp, w')"
  shows "kept w w'"
  using assms
  by (auto simp: knowledgeHandler_def knowledge_body_def tower_def Let_def
      split: sum.splits option.splits prod.splits if_splits)

lemma kept_discovery:
  "whoamiHandler sv r w = (resp, w') \<Longrightarrow> kept w w'" "hostsHandler sv r w = (resp, w') \<Longrightarrow> kept w w'"
  by (auto simp: whoamiHandler_def hostsHandler_def tower_def Let_def split: sum.splits option.splits prod.splits if_splits)

section \<open>The invariant\<close>

definition service_inv :: "golib \<Rightarrow> dworld \<Rightarrow> bool" where
  "service_inv lib w \<longleftrightarrow> br_inv lib (w_broker w) \<and> stores_ok w \<and> frames_inv (dw_frames w) \<and> leases_ok w \<and> dw_busy w = []"

lemma desktop_fields:
  fixes w w' :: dworld
  assumes "cworld.more w' = cworld.more w"
  shows "dw_frames w' = dw_frames w \<and> dw_interactions w' = dw_interactions w \<and> dw_busy w' = dw_busy w \<and> dw_ended w' = dw_ended w"
  using assms by (cases w; cases w') simp

lemma kept_service: "kept w w' \<Longrightarrow> service_inv lib w \<Longrightarrow> service_inv lib w'"
  using desktop_fields [of w' w] by (auto simp: kept_def service_inv_def leases_ok_def intro: shrinks_inv)

lemma desktop_service:
  assumes "desktopHandler ds op err rq w = (resp, w')" and "service_inv lib w"
  shows "service_inv lib w'"
  using assms(1)
proof (cases rule: desktopHandler_served)
  case quiet
  then show ?thesis using assms(2) by (simp add: service_inv_def leases_ok_def)
next
  case (served p owner r node rid u)
  have "service_inv lib u" using assms(2) served by (simp add: service_inv_def leases_ok_def)
  then show ?thesis using served(10) shrinks_inv
    by (auto simp: service_inv_def served_def busy_left_def gm_delete_def)
qed

lemma run_route_service:
  assumes "run_route ds rt err r w = Some (resp, w')" and "service_inv lib w"
  shows "service_inv lib w'"
proof (cases rt)
  case (Desktop op)
  then show ?thesis using assms desktop_service by auto
qed (use assms in \<open>auto simp: apfst_def map_prod_def split: prod.splits intro: kept_service
    dest: kept_verb kept_file kept_output kept_knowledge kept_discovery\<close>)

lemma serve_service: "serve_caller ds desktop meth path err r w = Some (resp, w') \<Longrightarrow> service_inv lib w \<Longrightarrow> service_inv lib w'"
  by (auto simp: serve_caller_def split: option.splits intro: run_route_service)

section \<open>The machine\<close>

text \<open>
  One step of the service of the tenant \<open>tenant\<close>, with the library \<open>lib\<close>: a connection of a node, a request of an
  agent, a ping, a turn of one of the loops, a request of the operator or of a node without identity, and what
  goroutines do. The tower, the nodes, the clock, the tokens and the configuration may differ from step to step.
\<close>

inductive sys_step :: "golib \<Rightarrow> string \<Rightarrow> dworld \<Rightarrow> dworld \<Rightarrow> bool" for lib tenant where
  connection: "conn \<notin> set (br_closed (w_broker w)) \<Longrightarrow> conn \<notin> snd ` set (br_tunnels (w_broker w)) \<Longrightarrow>
     sys_step lib tenant w (snd (accept_conn x i lib env conn off w))"
| request: "serve_caller ds desktop meth path err r w = Some (resp, w') \<Longrightarrow> sys_step lib tenant w w'"
| ping: "sys_step lib tenant w (upd_broker (\<lambda>b. snd (watch_tick svid cc fails b)) w)"
| priming: "sv_lib sv = lib \<Longrightarrow> sys_step lib tenant w (prime sv tenant w)"
| beat: "sv_lib sv = lib \<Longrightarrow> sys_step lib tenant w (snd (heartbeat sv tenant inst w))"
| shipment: "sys_step lib tenant w (ship_round sv inst w)"
| poll: "sys_step lib tenant w (snd (revocation_poll lib env tenant st w))"
| operator: "ad_lib ad = lib \<Longrightarrow> ad_tenant ad = tenant \<Longrightarrow> ServeAdmin ad path query body w = Some (resp, nudged, w') \<Longrightarrow>
     sys_step lib tenant w w'"
| nudge: "sys_step lib tenant w (forceUpdate lib env svid w)"
| goroutine: "sys_step lib tenant w (run_task lib env task w)"
| bootstrap: "sys_step lib tenant w (snd (serve_bootstrap bs meth path query host body w))"
| reaping: "sys_step lib tenant w (w\<lparr>cw_caps := reapExpiredLocked now (cw_caps w)\<rparr>)"

inductive sys_reachable :: "golib \<Rightarrow> string \<Rightarrow> dworld \<Rightarrow> dworld \<Rightarrow> bool" for lib tenant w0 where
  start: "sys_reachable lib tenant w0 w0"
| step: "sys_reachable lib tenant w0 w \<Longrightarrow> sys_step lib tenant w w' \<Longrightarrow> sys_reachable lib tenant w0 w'"

text \<open>The state in which \<open>serve\<close> starts.\<close>

definition service_start :: "golib \<Rightarrow> xlib \<Rightarrow> Identity \<Rightarrow> flags \<Rightarrow> dworld" where
  "service_start lib x i fl = \<lparr>w_broker = serve_broker lib x i fl, w_io = [], cw_calls = Some (NewCallLog 2000),
     cw_caps = newCaptureStore defaultCaptureStoreConfig, cw_draws = [], cw_ids = 0,
     dw_busy = [], dw_frames = [], dw_interactions = [], dw_ended = []\<rparr>"

section \<open>Every step keeps the invariant\<close>

lemma service_broker:
  fixes w w' :: dworld
  assumes "service_inv lib w" and "br_inv lib (w_broker w) \<Longrightarrow> br_inv lib (w_broker w')" and "stores_ok w \<Longrightarrow> stores_ok w'"
    and "cworld.more w' = cworld.more w"
  shows "service_inv lib w'"
  using assms desktop_fields [OF assms(4)] by (auto simp: service_inv_def leases_ok_def)

text \<open>The parts of the world that an operation of the broker does not know.\<close>

definition beyond :: "'a cworld_scheme \<Rightarrow> callEvent CallLog option \<times> CaptureStore \<times> 'a" where
  "beyond w = (cw_calls w, cw_caps w, cworld.more w)"

lemma beyond_simps [simp]: "beyond (w\<lparr>w_io := x\<rparr>) = beyond w" "beyond (upd_broker f w) = beyond w"
  by (simp_all add: beyond_def upd_broker_def)

lemma beyond_tower: "tower env m q w = (r, w') \<Longrightarrow> beyond w' = beyond w"
  by (auto simp: tower_def)

lemma beyond_InjectResponse: "InjectResponse env svid m p b w = (r, w') \<Longrightarrow> beyond w' = beyond w"
  by (auto simp: InjectResponse_def injectResponseContext_def Let_def split: option.splits http_reply.splits if_splits)

lemma beyond_Inject: "Inject env svid m p b w = (r, w') \<Longrightarrow> beyond w' = beyond w"
  by (auto simp: Inject_def split: prod.splits sum.splits dest: beyond_InjectResponse)

lemma beyond_snd_Inject [simp]: "beyond (snd (Inject env svid m p b w)) = beyond w"
  using beyond_Inject [OF prod.collapse [symmetric]] .

lemma beyond_handle: "beyond (snd (handle lib env conn is_tls handshake svid spki h2 w)) = beyond w"
proof -
  obtain r w2 where i: "Inject env svid ''GET'' ''/health'' None
      (upd_broker (\<lambda>b. b\<lparr>br_tunnels := gm_store svid conn (br_tunnels b)\<rparr>) w) = (r, w2)" by fastforce
  show ?thesis using beyond_Inject [OF i] by (cases r) (auto simp: handle_def i Let_def split: option.splits)
qed

lemma beyond_refresh: "beyond (snd (refreshAndReconcile lib env tenant w)) = beyond w"
  by (auto simp: refreshAndReconcile_def tower_def split: prod.splits sum.splits bool.splits)

lemma beyond_maybeUpdate: "beyond (maybeUpdate lib env svid summary w) = beyond w"
proof -
  obtain reply w1 where t: "tower env ''/control/v1/update_for''
      (update_for_body svid (health_ver lib summary)) w = (reply, w1)" by fastforce
  show ?thesis using beyond_tower [OF t] by (auto simp: maybeUpdate_def Let_def t split: prod.splits option.splits)
qed

lemma beyond_forceUpdate: "beyond (forceUpdate lib env svid w) = beyond w"
  by (auto simp: forceUpdate_def beyond_maybeUpdate split: prod.splits sum.splits dest: beyond_Inject)

lemma beyond_renewNode: "renewNode lib env svid w = (r, w') \<Longrightarrow> beyond w' = beyond w"
  by (auto simp: renewNode_def Let_def split: prod.splits sum.splits option.splits if_splits
      dest!: beyond_InjectResponse beyond_tower)

lemma beyond_renewIfDue: "beyond (renewIfDue lib env svid w) = beyond w"
  by (auto simp: renewIfDue_def Let_def split: option.splits prod.splits dest!: beyond_renewNode)

lemma beyond_service:
  fixes w w' :: dworld
  assumes "beyond w' = beyond w" and "br_inv lib (w_broker w) \<Longrightarrow> br_inv lib (w_broker w')" and "service_inv lib w"
  shows "service_inv lib w'"
proof (rule service_broker [OF assms(3,2)])
  show "cworld.more w' = cworld.more w" "stores_ok w \<Longrightarrow> stores_ok w'" using assms(1) by (auto simp: beyond_def)
qed

lemmas beyond_shrinks = beyond_service [OF _ shrinks_inv]

lemma ships_service:
  assumes "service_inv lib w"
  shows "service_inv lib (snd (drain_calls w))" "service_inv lib (requeue_calls batch w)" "service_inv lib (w\<lparr>w_io := x\<rparr>)"
  using assms by (cases "cw_calls w"; simp add: service_inv_def drain_calls_def requeue_calls_def leases_ok_def split_beta
      cl_inv_Drain cl_inv_Requeue)+

lemma prime_service:
  assumes "service_inv lib w"
  shows "service_inv lib (upd_broker (\<lambda>b. b\<lparr>br_allow := fst (al_Replace now t nodes (br_allow b))\<rparr>) w)"
    "service_inv lib (upd_broker reconcile w)"
proof -
  show "service_inv lib (upd_broker (\<lambda>b. b\<lparr>br_allow := fst (al_Replace now t nodes (br_allow b))\<rparr>) w)"
    by (rule beyond_service [OF _ _ assms]) (simp_all add: br_inv_def al_inv_Replace)
  show "service_inv lib (upd_broker reconcile w)"
    by (rule beyond_service [OF _ _ assms]) (simp_all add: shrinks_inv [OF shrinks_reconcile])
qed

lemma refresh_service: "service_inv lib w \<Longrightarrow> service_inv lib (snd (refreshAndReconcile lib env tenant w))"
  by (rule beyond_service [OF beyond_refresh br_inv_refresh])

lemma heartbeat_service: "service_inv (sv_lib sv) w \<Longrightarrow> service_inv (sv_lib sv) (snd (heartbeat sv tenant inst w))"
  by (simp add: heartbeat_def tower_world Let_def split_beta prime_service ships_service split: sum.split)

lemma admin_service:
  assumes "ServeAdmin ad path query body w = Some (resp, nudged, w')" and "service_inv (ad_lib ad) w"
  shows "service_inv (ad_lib ad) w'"
proof -
  have "w' = w \<or> (\<exists>svid. w' = snd (renewNode (ad_lib ad) (ad_env ad) svid w)) \<or>
      w' = snd (refreshAndReconcile (ad_lib ad) (ad_env ad) (ad_tenant ad) w) \<or>
      (\<exists>svid m p b. w' = snd (Inject (ad_env ad) svid m p b w))"
    using assms(1) by (auto simp: ServeAdmin_def admin_renew_def admin_reconcile_def admin_call_def Let_def
        split: if_splits prod.splits option.splits sum.splits) (metis snd_conv)+
  then show ?thesis
    using assms(2) refresh_service beyond_shrinks [OF beyond_renewNode [OF prod.collapse [symmetric]] shrinks_renewNode]
      beyond_shrinks [OF beyond_snd_Inject shrinks_Inject] by blast
qed

lemma sys_step_inv: "sys_step lib tenant w w' \<Longrightarrow> service_inv lib w \<Longrightarrow> service_inv lib w'"
proof (induction rule: sys_step.induct)
  case (connection conn w x i env off)
  then show ?case
    by (cases "client_verified x i (of_chain off)")
      (auto simp: accept_conn_def beyond_handle intro!: beyond_service [where w = w] br_inv_handle)
next
  case (request ds desktop meth path err r w resp w')
  then show ?case by (rule serve_service)
next
  case (ping w svid cc fails)
  show ?case by (rule beyond_service [OF _ _ ping]) (simp_all add: br_inv_tick)
next
  case (priming sv w)
  then show ?case by (auto simp: prime_def tower_world Let_def prime_service ships_service split: sum.split prod.split)
next
  case (beat sv w inst)
  then show ?case using heartbeat_service by blast
next
  case (shipment w sv inst)
  then show ?case by (auto simp: ship_round_def tower_world Let_def split_beta ships_service split: option.split)
next
  case (poll w env st)
  then show ?case
    by (cases st) (auto simp: revocation_poll_def tower_world Let_def ships_service refresh_service split: sum.split)
next
  case (operator ad path query body w resp nudged w')
  then show ?case using admin_service by blast
next
  case (nudge w env svid)
  then show ?case using beyond_shrinks [OF beyond_forceUpdate shrinks_forceUpdate] by blast
next
  case (goroutine w env task)
  then show ?case
    using beyond_shrinks [OF beyond_maybeUpdate shrinks_maybeUpdate] beyond_shrinks [OF beyond_renewIfDue shrinks_renewIfDue]
    by (cases task) auto
next
  case (bootstrap w bs meth path query host body)
  then show ?case using bootstrap_only_relays [of bs meth path query host body w] ships_service(3) by metis
next
  case (reaping w now)
  then show ?case by (auto simp: service_inv_def reap_inv reap_quotas leases_ok_def)
qed

lemma service_start_inv: "service_inv lib (service_start lib x i fl)"
proof -
  have "cs_inv (newCaptureStore defaultCaptureStoreConfig) \<and> cs_quotas (newCaptureStore defaultCaptureStoreConfig)"
    using new_store_inv [of defaultCaptureStoreConfig] by (simp add: config_ok_def defaultCaptureStoreConfig_def)
  then show ?thesis
    by (simp add: service_inv_def service_start_def serve_broker_def br_inv_def leases_ok_def frames_inv_def)
qed

lemma sys_reachable_inv: "sys_reachable lib tenant w0 w \<Longrightarrow> service_inv lib w0 \<Longrightarrow> service_inv lib w"
  by (induction rule: sys_reachable.induct) (auto intro: sys_step_inv)

section \<open>Properties\<close>


section \<open>At work\<close>

text \<open>A node with a good certificate connects after the list was fetched.\<close>

definition ex_xlib :: xlib where
  "ex_xlib = \<lparr>xl_parse = (\<lambda>s. Inr \<lparr>ct_URIs = [if s = ''own'' then ''spiffe://x/t1/xconnect'' else ''spiffe://x/t1/node/a''],
     ct_SPKI = s, ct_Raw = s\<rparr>), xl_verify = (\<lambda>_ _ _ _. None), xl_pem = (\<lambda>_. []), xl_keypair = (\<lambda>_ _. Inr [''own''])\<rparr>"

definition ex_identity :: Identity where
  "ex_identity = \<lparr>id_Cert = [''own''], id_CAPool = []\<rparr>"

definition ex_flags :: flags where
  "ex_flags = \<lparr>fl_renewBefore = 2, fl_renewCheckInterval = 1, fl_args = [''serve'']\<rparr>"

definition ex_offer :: offer where
  "ex_offer = \<lparr>of_tls = True, of_transport = True, of_chain = [''leaf''], of_h2 = True\<rparr>"


end
