(* ===== verification/Patterns.thy ===== *)
theory Patterns
  imports Hints
begin

text \<open>
  The three patterns of \<open>hints.go\<close> and what it is to match one. A pattern is a regular expression over bytes
  with the word edge and the start of the text; it runs from one place of a text to another. All classes of
  the patterns are ASCII, so bytes are as good as runes; folding case, \<open>s\<close> and \<open>k\<close> have a third form each.
\<close>

section \<open>Regular expressions\<close>

datatype rx =
    Byte "char \<Rightarrow> bool"
  | Nothing
  | Then rx rx
  | Or rx rx
  | Many rx
  | WordEdge
  | TextStart

text \<open>A place in a text: what is before it, backwards, and what follows.\<close>

type_synonym place = "string \<times> string"

definition word_byte :: "char \<Rightarrow> bool" where
  "word_byte c \<longleftrightarrow> is_digit c \<or> (97 \<le> byte c \<and> byte c \<le> 122) \<or> (65 \<le> byte c \<and> byte c \<le> 90) \<or> c = CHR ''_''"

definition word_edge :: "place \<Rightarrow> bool" where
  "word_edge p \<longleftrightarrow> (fst p \<noteq> [] \<and> word_byte (hd (fst p))) \<noteq> (snd p \<noteq> [] \<and> word_byte (hd (snd p)))"

inductive rx_run :: "rx \<Rightarrow> place \<Rightarrow> place \<Rightarrow> bool" where
  byte: "P c \<Longrightarrow> rx_run (Byte P) (pre, c # post) (c # pre, post)"
| nothing: "rx_run Nothing p p"
| seq: "rx_run r p q \<Longrightarrow> rx_run s q t \<Longrightarrow> rx_run (Then r s) p t"
| or_left: "rx_run r p q \<Longrightarrow> rx_run (Or r s) p q"
| or_right: "rx_run s p q \<Longrightarrow> rx_run (Or r s) p q"
| many_done: "rx_run (Many r) p p"
| many_more: "rx_run r p q \<Longrightarrow> rx_run (Many r) q t \<Longrightarrow> rx_run (Many r) p t"
| word_edge: "word_edge p \<Longrightarrow> rx_run WordEdge p p"
| text_start: "rx_run TextStart ([], post) ([], post)"

inductive_simps rx_run_simps [simp]:
  "rx_run (Byte P) p q" "rx_run Nothing p q" "rx_run (Then r s) p q" "rx_run (Or r s) p q"
  "rx_run WordEdge p q" "rx_run TextStart p q"

text \<open>A run only moves on in the text.\<close>

definition moves_on :: "place \<Rightarrow> place \<Rightarrow> bool" where
  "moves_on p q \<longleftrightarrow> (\<exists>w. snd p = w @ snd q \<and> fst q = rev w @ fst p)"

lemma moves_on_refl: "moves_on p p"
  by (simp add: moves_on_def)

lemma moves_on_trans: "moves_on p q \<Longrightarrow> moves_on q t \<Longrightarrow> moves_on p t"
  unfolding moves_on_def by (metis append_assoc rev_append)

lemma moves_on_byte: "moves_on (pre, c # post) (c # pre, post)"
  by (simp add: moves_on_def)

lemma rx_run_text: "rx_run r p q \<Longrightarrow> moves_on p q"
  by (induction rule: rx_run.induct) (assumption | rule moves_on_refl moves_on_byte | erule moves_on_trans)+

lemma rx_run_short: "rx_run r p q \<Longrightarrow> length (snd q) \<le> length (snd p) \<and> (length (snd q) = length (snd p) \<longrightarrow> q = p)"
  using rx_run_text [of r p q] by (cases p; cases q) (auto simp: moves_on_def)

section \<open>An executable matcher\<close>

text \<open>A repetition that does not move on leads nowhere; \<open>n\<close> is at least the length of what follows.\<close>

fun many_ends :: "nat \<Rightarrow> (place \<Rightarrow> place list) \<Rightarrow> place \<Rightarrow> place list" where
  "many_ends 0 f p = [p]"
| "many_ends (Suc n) f p = p # concat (map (many_ends n f) (filter (\<lambda>q. length (snd q) < length (snd p)) (f p)))"

primrec rx_ends :: "rx \<Rightarrow> place \<Rightarrow> place list" where
  "rx_ends (Byte P) p = (case snd p of [] \<Rightarrow> [] | c # post \<Rightarrow> if P c then [(c # fst p, post)] else [])"
| "rx_ends Nothing p = [p]"
| "rx_ends (Then r s) p = concat (map (rx_ends s) (rx_ends r p))"
| "rx_ends (Or r s) p = rx_ends r p @ rx_ends s p"
| "rx_ends (Many r) p = many_ends (length (snd p)) (rx_ends r) p"
| "rx_ends WordEdge p = (if word_edge p then [p] else [])"
| "rx_ends TextStart p = (if fst p = [] then [p] else [])"

definition MatchString :: "rx \<Rightarrow> string \<Rightarrow> bool" where
  "MatchString r s \<longleftrightarrow> list_ex (\<lambda>k. rx_ends r (rev (take k s), drop k s) \<noteq> []) [0..<Suc (length s)]"

lemma many_ends_iff:
  assumes "\<And>p q. q \<in> set (f p) \<longleftrightarrow> rx_run r p q"
  shows "length (snd p) \<le> n \<Longrightarrow> q \<in> set (many_ends n f p) \<longleftrightarrow> rx_run (Many r) p q"
proof (induction n arbitrary: p)
  case 0
  then have "q = p" if "rx_run (Many r) p q" using rx_run_short [OF that] by simp
  then show ?case by (auto intro: rx_run.many_done)
next
  case (Suc n)
  have "rx_run (Many r) p q \<longleftrightarrow> q = p \<or> (\<exists>m. rx_run r p m \<and> length (snd m) < length (snd p) \<and> rx_run (Many r) m q)"
  proof
    show "q = p \<or> (\<exists>m. rx_run r p m \<and> length (snd m) < length (snd p) \<and> rx_run (Many r) m q)" if "rx_run (Many r) p q"
      using that
    proof (induction "Many r" p q rule: rx_run.induct)
      case (many_more p m q)
      then show ?case using rx_run_short [of r p m] by (cases "m = p") (simp, meson le_neq_implies_less)
    qed simp
  qed (auto intro: rx_run.many_done rx_run.many_more)
  then show ?case using Suc assms by auto
qed

lemma rx_ends_iff: "q \<in> set (rx_ends r p) \<longleftrightarrow> rx_run r p q"
proof (induction r arbitrary: p q)
  case (Byte P)
  show ?case by (cases p; cases q) (auto split: list.split)
next
  case (Many r)
  then show ?case using many_ends_iff [of "rx_ends r" r p "length (snd p)" q] by simp
next
  case TextStart
  show ?case by (cases p; cases q) auto
qed (simp add: Bex_def, blast?)+

text \<open>The matcher decides whether the pattern runs from some place of the text.\<close>

definition occurs :: "rx \<Rightarrow> string \<Rightarrow> bool" where
  "occurs r s \<longleftrightarrow> (\<exists>a b q. s = a @ b \<and> rx_run r (rev a, b) q)"

lemma MatchString_iff: "MatchString r s \<longleftrightarrow> occurs r s"
proof -
  have "MatchString r s \<longleftrightarrow> (\<exists>k \<le> length s. \<exists>q. rx_run r (rev (take k s), drop k s) q)"
    by (simp add: MatchString_def list_ex_iff ex_in_conv [symmetric] set_empty [symmetric] rx_ends_iff Bex_def less_Suc_eq_le
        del: upt_Suc set_empty)
  also have "\<dots> \<longleftrightarrow> (\<exists>a b q. s = a @ b \<and> rx_run r (rev a, b) q)"
    by (metis append_take_drop_id append_eq_conv_conj le_add1 length_append)
  finally show ?thesis unfolding occurs_def .
qed

section \<open>The patterns of the source\<close>

fun word_rx :: "string \<Rightarrow> rx" where
  "word_rx [] = Nothing"
| "word_rx (c # s) = Then (Byte (\<lambda>x. x = c)) (word_rx s)"

text \<open>Either case, and the long s or the Kelvin sign in UTF-8.\<close>

definition fold_rx :: "char \<Rightarrow> rx" where
  "fold_rx c = Or (Byte (\<lambda>x. lower_byte x = c))
     (if c = CHR ''s'' then word_rx [CHR 0xC5, CHR 0xBF]
      else if c = CHR ''k'' then word_rx [CHR 0xE2, CHR 0x84, CHR 0xAA] else Byte (\<lambda>_. False))"

fun folded_rx :: "string \<Rightarrow> rx" where
  "folded_rx [] = Nothing"
| "folded_rx (c # s) = Then (fold_rx c) (folded_rx s)"

fun any_rx :: "rx list \<Rightarrow> rx" where
  "any_rx [] = Byte (\<lambda>_. False)"
| "any_rx (r # rs) = Or r (any_rx rs)"

definition all_rx :: "rx list \<Rightarrow> rx" where
  "all_rx rs = foldr Then rs Nothing"

definition space_byte :: "char \<Rightarrow> bool" where
  "space_byte c \<longleftrightarrow> c \<in> {CHR 0x09, CHR 0x0A, CHR 0x0C, CHR 0x0D, CHR '' ''}"

definition hintBashisms :: rx where
  "hintBashisms = any_rx [word_rx ''&&'', word_rx ''||'',
     all_rx [word_rx ''|'', Many (Byte space_byte),
       any_rx (map word_rx [''grep'', ''awk'', ''sed'', ''head'', ''tail'', ''wc'', ''xargs'', ''cut'', ''sort'']), WordEdge],
     all_rx [WordEdge, word_rx ''sudo'', Byte space_byte],
     all_rx [WordEdge, word_rx ''export'', Byte space_byte, Many (Byte space_byte), Byte word_byte, Many (Byte word_byte), word_rx ''=''],
     word_rx ''/dev/null'', word_rx ''$('',
     all_rx [WordEdge, any_rx (map word_rx [''systemctl'', ''apt'', ''apt-get'', ''chmod'', ''chown'', ''which'', ''uname'']), Byte space_byte],
     all_rx [WordEdge, word_rx ''ls'', Byte space_byte, Many (Byte space_byte), word_rx ''-''],
     word_rx ''<<'']"

definition hintPowerShellisms :: rx where
  "hintPowerShellisms = all_rx [WordEdge,
     any_rx (map word_rx [''Get'', ''Set'', ''New'', ''Remove'', ''Start'', ''Stop'', ''Restart'', ''Test'', ''Invoke'', ''Select'', ''Where'', ''ForEach'', ''Write'', ''Out'']),
     word_rx ''-'', Byte (\<lambda>c. 65 \<le> byte c \<and> byte c \<le> 90),
     Byte (\<lambda>c. word_byte c \<and> \<not> is_digit c \<and> c \<noteq> CHR ''_''), Many (Byte (\<lambda>c. word_byte c \<and> \<not> is_digit c \<and> c \<noteq> CHR ''_''))]"

definition hintGUILaunch :: rx where
  "hintGUILaunch = Or
     (all_rx [WordEdge, any_rx (map folded_rx [''start-process'', ''invoke-item'']), WordEdge])
     (all_rx [Or TextStart (Byte (\<lambda>c. space_byte c \<or> c \<in> {CHR '';'', CHR ''&'', CHR ''|'', CHR ''(''})),
        any_rx (map folded_rx [''explorer'', ''notepad'', ''mspaint'', ''calc'', ''mstsc'']),
        Or (folded_rx ''.exe'') Nothing, WordEdge])"

definition source_patterns :: hint_patterns where
  "source_patterns = \<lparr>hp_Bashisms = MatchString hintBashisms, hp_PowerShellisms = MatchString hintPowerShellisms,
     hp_GUILaunch = MatchString hintGUILaunch\<rparr>"

text \<open>
  A sentence rides along only when the command holds a habit of the other system and failed, or starts a
  program nobody could see on a node that has a desktop.
\<close>

theorem hint_needs_a_reason:
  "runHint lib source_patterns goos command rcon desktop =
    (if goos = ''windows'' \<and> run_failed lib rcon \<and> occurs hintBashisms command then hintWindowsShell
     else if goos = ''windows'' \<and> desktop \<and> occurs hintGUILaunch command then hintSession0
     else if goos = ''linux'' \<and> run_failed lib rcon \<and> occurs hintPowerShellisms command then hintLinuxShell
     else [])"
  by (cases "goos = ''windows''"; simp add: runHint_def source_patterns_def MatchString_iff)

lemma hint_examples:
  "MatchString hintBashisms ''dir | head -5''" "\<not> MatchString hintBashisms ''dir | headless''"
  "MatchString hintPowerShellisms ''x; Get-Item .''" "\<not> MatchString hintPowerShellisms ''Get-x''"
  "MatchString hintGUILaunch ''NotePad.EXE a''" "\<not> MatchString hintGUILaunch ''my notepads''"
  by code_simp+

end
