(* ===== verification/Spec2Isabelle.thy ===== *)
theory Spec2Isabelle
  imports Prelude GoText Utf8 Json GoQuote AllowList CallLog Shipping Auth OwnedCache Capture CaptureProps
    CaptureLife CaptureRead ReadProps RunResult Control Broker BrokerProps BrokerRun Resolve Hints
    Caller CallerProps CallerReads DesktopRules DesktopJson DesktopFrames DesktopLogin DesktopService
    DesktopExecute DesktopSafe DesktopTask DesktopProps DesktopLease Bootstrap Listen
    AdminApi Identity ServeLoop Routes Service Patterns
begin

text \<open>
  XConnect is the relay between a fleet of nodes, which dial out to it over mutual TLS, and the
  agents that call tools on those nodes. It trusts a control tower for three decisions: which nodes
  exist (the allow-list), which principal may run which verb (authorize), and what software the nodes
  run (updates, certificate renewals). This development models the Go program, file by file.

  The parts and the theories that model them:

    \<^item> \<open>Prelude\<close>, \<open>GoText\<close>, \<open>Utf8\<close>, \<open>Json\<close>, \<open>GoQuote\<close>: Go maps as association lists in iteration
      order, errors as values (\<open>'a res\<close>), the functions of \<open>strings\<close>, \<open>strconv\<close> and \<open>utf8\<close> the program
      uses, JSON values and decoding into structs, and \<open>%q\<close> with a reader of JSON text to judge it.
    \<^item> \<open>AllowList\<close> (\<open>allowlist.go\<close>): the cached allow-list, proved equal to the last snapshot.
    \<^item> \<open>CallLog\<close> (\<open>calllog.go\<close>) and \<open>Shipping\<close> (\<open>main.go\<close>): the bounded audit buffer and the two
      loops that ship it, with conservation of events under every interleaving.
    \<^item> \<open>Auth\<close> (\<open>caller.go\<close>): bearer tokens and their validation.
    \<^item> \<open>OwnedCache\<close>, \<open>Capture\<close>, \<open>CaptureProps\<close>, \<open>CaptureLife\<close>, \<open>CaptureRead\<close>, \<open>ReadProps\<close>, \<open>RunResult\<close>
      (\<open>capture.go\<close>): the store of large outputs, its quotas and evictions, its life as a transition
      system, paging and searching a stored stream, and what a run answers.
    \<^item> \<open>Control\<close> (\<open>control.go\<close>): the calls to the control tower. \<open>Identity\<close> (\<open>identity.go\<close>, \<open>control.go\<close>,
      \<open>broker.go\<close>, \<open>desktop_identity.go\<close>): the files of the own identity, who is taken for the tower, which
      certificates a node is let in with, and which file is taken for the signing key.
    \<^item> \<open>Broker\<close>, \<open>BrokerProps\<close>, \<open>BrokerRun\<close> (\<open>broker.go\<close>): the node tunnels, one operation at a time
      and as a transition system with its invariant.
    \<^item> \<open>Resolve\<close> (\<open>admin.go\<close>): from a host name in a request to a node. \<open>Listen\<close> (\<open>server.go\<close>): which addresses
      are local. \<open>AdminApi\<close> (\<open>admin.go\<close>): where the operator's door listens and what its five handlers do.
    \<^item> \<open>Caller\<close>, \<open>CallerProps\<close>, \<open>CallerReads\<close> (\<open>caller.go\<close>) and \<open>Hints\<close> (\<open>hints.go\<close>): the handlers of the
      agents' web service, each a function from a request and the world (the broker, the trace of calls
      to the tower and the nodes, the audit buffer, the capture store, the identifiers still to be drawn)
      to the answer and the next world. Their properties speak of the trace: which call follows which.
      \<open>Patterns\<close> (\<open>hints.go\<close>): the three patterns that choose a hint, with a matcher that decides them.
    \<^item> \<open>DesktopRules\<close> (\<open>desktop.go\<close>, \<open>desktop_interaction.go\<close>): the validation of desktop requests.
    \<^item> \<open>DesktopJson\<close> (\<open>desktop.go\<close>, \<open>desktop_interaction.go\<close>): reading a desktop request, writing its actions
      down for the node, and what the audit shows of them.
    \<^item> \<open>DesktopFrames\<close> (\<open>desktop.go\<close>): the screenshots that are kept, and what a receipt shows of them.
    \<^item> \<open>DesktopLogin\<close> (\<open>desktop_identity.go\<close>): which account a caller may sign in as, when, and the grant.
    \<^item> \<open>DesktopService\<close>, \<open>DesktopExecute\<close> (\<open>desktop.go\<close>, \<open>desktop_interaction_service.go\<close>,
      \<open>desktop_identity.go\<close>): the desktop service over the world of the other handlers and its own state
      (busy nodes, screenshots, leases, ended interactions): single calls to a node, input, waiting,
      grounding, sign-in, interactions, tasks, and the handler.
    \<^item> \<open>DesktopSafe\<close>, \<open>DesktopProps\<close>: one relation, \<open>served\<close>, between the worlds before and after, in which
      every operation is (which calls were made, that tunnels only go away and that the stores stay in order),
      and the properties of whole requests that follow. \<open>DesktopTask\<close>: where a task of
      several steps stops. \<open>DesktopLease\<close>: the lease of a node as an abstract machine every request refines.
    \<^item> \<open>Bootstrap\<close> (\<open>bootstrap.go\<close>): the door of nodes that have no identity yet: enrollment, which is relayed
      to the tower, the agent's binary, and the install script as the text a shell reads.
    \<^item> \<open>ServeLoop\<close> (\<open>main.go\<close>): the commands of the program, the broker it starts with, and one turn of each of
      its loops: priming, the beat, the shipper, the poll for revocations, the sweep for renewals.
    \<^item> \<open>Routes\<close> (\<open>caller.go\<close>, \<open>bootstrap.go\<close>): the two web services as wholes, from method and path to a handler.
      \<open>Service\<close>: the program as one transition system, in which every connection, request, beat, poll, sweep,
      order of the operator and goroutine is a step on one world, with the invariant that joins those of the
      broker, the stores, the audit buffer and the desktop service, proved for every reachable state.

  The locale \<open>owned_cache\<close> is the contract of a store whose entries belong to a caller; the capture store
  and the screenshots are its two instances. \<open>event_buffer\<close> and \<open>node_registry\<close> are the contracts the
  shipping loops and the resolver rely on.

  Time is an argument (nanoseconds) or read from the environment \<open>env\<close>, which also answers the calls to
  the tower and to the nodes as a function of the trace so far. Random bytes come from a sequence; where a
  loop draws until an identifier is free, the model is a \<open>partial_function\<close> and that it ends is proved.
  The loops that evict are partial functions too, and are proved to end. The reader of JSON text carries
  the length of the text as fuel, one unit per member.

  Not modelled, and why: TLS, X.509 and HTTP/2 themselves (parsing and verifying a chain is the argument
  \<open>xlib\<close>; what the program does with the result is modelled), accept loops, timers and the scheduling of
  goroutines (operations are atomic steps, and the transition systems run them in any order); the limits
  \<open>hardenedServe\<close> hands to \<open>net/http\<close>, except the one on bodies; the parser and the printer of JSON, JWT,
  the compiler of the pattern an agent searches with, SHA-256, base64, the head of a JPEG, RSA, the parser of
  URLs, the Unicode tables and the file system (arguments of the definitions, in the records \<open>golib\<close>,
  \<open>casing\<close>, \<open>imagelib\<close>, \<open>keylib\<close>, \<open>env\<close> and \<open>dserver\<close>); the model that locates GUI elements
  (\<open>ds_model\<close>; the call to it is the event \<open>ModelCall\<close>); what is printed and logged, and the defaults of
  flags. Everything of the repository that is not Go (the tool server in Python, the deployment files) is out
  of scope. A panic of a handler is the answer \<open>None\<close>; what its deferred calls do is modelled. Handlers are
  atomic steps: two desktop requests do not interleave, so the mark that a node is busy is only seen by
  requests that find it in the state they start from.
\<close>

end
